(* ===== verification/Prelude.thy ===== *)
theory Prelude
  imports
    Main
    "HOL-Library.Word"
    "HOL-Library.AList"
    "HOL-Library.Monad_Syntax"
begin

text \<open>
  Shared vocabulary of the LeoMem development: fixed-width integers, byte regions with the
  bounds of a C++ \<^verbatim>\<open>memcpy\<close> made explicit, the association-list reading of
  \<^verbatim>\<open>std::unordered_map\<close>, the inclusive index loop of the API code, and the generic
  lemmas on them that the component theories use.

  A result of type \<^typ>\<open>'a option\<close> of a modelled operation is \<^term>\<open>None\<close> exactly when the C++
  execution has no defined result: an access outside a byte region, or a loop that never
  ends. Statuses and error codes of the program are ordinary values inside \<^term>\<open>Some\<close>.
\<close>

named_theorems leo_defs \<open>definitions of small record operations\<close>

section \<open>Machine integers\<close>

type_synonym u8 = "8 word"
type_synonym u16 = "16 word"
type_synonym u32 = "32 word"
type_synonym u64 = "64 word"
type_synonym byte = "8 word"

abbreviation u64_max :: u64 where
  "u64_max \<equiv> - 1"

text \<open>The sum of two 64-bit values does not wrap.\<close>

definition no_wrap :: "u64 \<Rightarrow> u64 \<Rightarrow> bool" where
  "no_wrap a b \<longleftrightarrow> unat a + unat b < 2 ^ 64"

lemma unat_plus_no_wrap: "no_wrap a b \<Longrightarrow> unat (a + b) = unat a + unat b"
  by (simp add: no_wrap_def unat_word_ariths)

lemma unat_last_byte: "no_wrap a n \<Longrightarrow> n \<noteq> 0 \<Longrightarrow> unat (a + n - 1) = unat a + unat n - 1"
proof -
  assume "no_wrap a n" "n \<noteq> 0"
  then have e: "unat (a + n) = unat a + unat n" "0 < unat n" by (simp_all add: unat_plus_no_wrap unat_gt_0)
  then have "a + n \<noteq> 0" by auto
  with e show ?thesis by (simp add: unat_minus_one)
qed

lemma unat_plus_mod: "unat (a + b :: u64) = (unat a + unat b) mod 2 ^ 64"
  by (simp add: unat_word_ariths)

lemma unat_u64_lt: "unat (a :: u64) < 18446744073709551616"
  using unsigned_less [of a, where ?'a = nat] by simp

lemma unat_plus_one: "a < b \<Longrightarrow> unat (a + 1 :: u64) = unat a + 1"
proof -
  assume "a < b"
  then have "unat a < unat b" by (simp add: word_less_nat_alt)
  moreover have "unat b < 18446744073709551616" by (rule unat_u64_lt)
  ultimately have "unat a + 1 < 18446744073709551616" by linarith
  then show ?thesis by (simp add: unat_word_ariths)
qed

lemma unat_minus_le: "b \<le> a \<Longrightarrow> unat (a - b :: u64) = unat a - unat b"
  by (simp add: unat_sub)

lemma unat_neg:
  assumes "(n :: u64) \<noteq> 0"
  shows "unat (- n) = 2 ^ 64 - unat n"
proof -
  have pos: "0 < unat n" using assms by (simp add: unat_gt_0)
  have "(unat n + unat (- n)) mod 2 ^ 64 = 0"
    using unat_plus_mod [of n "- n"] by simp
  then obtain k where k: "unat n + unat (- n) = 2 ^ 64 * k" by auto
  moreover have "unat n + unat (- n) < 2 ^ 64 * 2"
    using unat_u64_lt [of n] unat_u64_lt [of "- n"] by simp
  ultimately have "k = 1" using pos by (cases k) auto
  then show ?thesis using k by simp
qed

lemma unat_u64_max: "unat u64_max = 18446744073709551615"
  by (simp add: unsigned_minus_1_eq_mask mask_eq_exp_minus_1)

lemma unat_of_nat_u64: "n < 2 ^ 64 \<Longrightarrow> unat (of_nat n :: u64) = n"
  by (simp add: unat_of_nat take_bit_nat_eq_self)

text \<open>Comparisons of numerals with one, which the simplifier leaves open otherwise.\<close>

lemma word_numeral_one_compare [simp]:
  "(numeral k :: 'a::len word) \<le> 1 \<longleftrightarrow> uint (numeral k :: 'a word) \<le> 1"
  "(numeral k :: 'a::len word) < 1 \<longleftrightarrow> uint (numeral k :: 'a word) < 1"
  "1 \<le> (numeral k :: 'a::len word) \<longleftrightarrow> 1 \<le> uint (numeral k :: 'a word)"
  "1 < (numeral k :: 'a::len word) \<longleftrightarrow> 1 < uint (numeral k :: 'a word)"
  by (simp_all add: word_le_def word_less_def)

text \<open>Congruence rules that keep evaluation from entering a continuation before its argument is known.\<close>

lemma bind_weak_cong: "x = y \<Longrightarrow> Option.bind x f = Option.bind y f"
  by simp

lemma let_eval_cong: "x = y \<Longrightarrow> Let x f = Let y f"
  by simp

section \<open>Byte regions\<close>

text \<open>
  A \<^verbatim>\<open>std::vector<std::uint8_t>\<close> is a byte list. \<open>mem_read m off n\<close> and
  \<open>mem_write m off bs\<close> are the two directions of \<^verbatim>\<open>memcpy\<close> at
  \<^verbatim>\<open>data() + off\<close>; a range that leaves the vector has no defined result.
\<close>

definition mem_read :: "byte list \<Rightarrow> u64 \<Rightarrow> u64 \<Rightarrow> byte list option" where
  "mem_read m off n =
     (if unat off + unat n \<le> length m then Some (take (unat n) (drop (unat off) m)) else None)"

definition mem_write :: "byte list \<Rightarrow> u64 \<Rightarrow> byte list \<Rightarrow> byte list option" where
  "mem_write m off bs =
     (if unat off + length bs \<le> length m
      then Some (take (unat off) m @ bs @ drop (unat off + length bs) m) else None)"

lemma mem_read_length: "mem_read m off n = Some bs \<Longrightarrow> length bs = unat n"
  by (auto simp: mem_read_def split: if_splits)

lemma mem_read_nth:
  "mem_read m off n = Some bs \<Longrightarrow> i < unat n \<Longrightarrow> bs ! i = m ! (unat off + i)"
  by (auto simp: mem_read_def split: if_splits)

lemma mem_write_length: "mem_write m off bs = Some m' \<Longrightarrow> length m' = length m"
  by (auto simp: mem_write_def split: if_splits)

lemma mem_write_nth:
  "mem_write m off bs = Some m' \<Longrightarrow> i < length m \<Longrightarrow>
   m' ! i = (if unat off \<le> i \<and> i < unat off + length bs then bs ! (i - unat off) else m ! i)"
  by (auto simp: mem_write_def nth_append split: if_splits)

lemma mem_read_write_same:
  assumes "mem_write m off bs = Some m'" and "unat n = length bs"
  shows "mem_read m' off n = Some bs"
proof -
  from assms have le: "unat off + length bs \<le> length m"
    and m': "m' = take (unat off) m @ bs @ drop (unat off + length bs) m"
    by (auto simp: mem_write_def split: if_splits)
  with assms(2) show ?thesis by (simp add: mem_read_def)
qed

lemma mem_read_write_disjoint:
  assumes "mem_write m off bs = Some m'"
    and "unat off' + unat n \<le> unat off \<or> unat off + length bs \<le> unat off'"
  shows "mem_read m' off' n = mem_read m off' n"
proof (cases "unat off' + unat n \<le> length m")
  case True
  have "take (unat n) (drop (unat off') m') = take (unat n) (drop (unat off') m)"
    using assms True by (intro nth_equalityI) (auto simp: mem_write_nth mem_write_length [OF assms(1)])
  with assms(1) show ?thesis by (simp add: mem_read_def mem_write_length)
next
  case False
  with assms(1) show ?thesis by (simp add: mem_read_def mem_write_length)
qed

lemma mem_write_some_iff: "(\<exists>m'. mem_write m off bs = Some m') \<longleftrightarrow> unat off + length bs \<le> length m"
  by (auto simp: mem_write_def)

section \<open>Association lists\<close>

lemma set_alist_delete: "set (AList.delete k xs) = {e \<in> set xs. fst e \<noteq> k}"
  by (auto simp: AList.delete_eq)

lemma set_alist_update:
  "distinct (map fst xs) \<Longrightarrow> set (AList.update k v xs) = insert (k, v) {e \<in> set xs. fst e \<noteq> k}"
  by (induction xs) (auto simp: image_iff)

lemma alist_delete_filter: "AList.delete k (filter P xs) = filter (\<lambda>e. P e \<and> fst e \<noteq> k) xs"
  by (induction xs) auto

lemma distinct_map_filter_fst: "distinct (map fst xs) \<Longrightarrow> distinct (map fst (filter P xs))"
  by (induction xs) auto

lemma remove1_last_distinct: "distinct xs \<Longrightarrow> xs \<noteq> [] \<Longrightarrow> remove1 (last xs) xs = butlast xs"
  by (induction xs rule: rev_induct) (auto simp: remove1_append)

lemma filter_cong_set: "(\<And>x. x \<in> set xs \<Longrightarrow> P x \<longleftrightarrow> Q x) \<Longrightarrow> filter P xs = filter Q xs"
  by (rule filter_cong) simp_all

section \<open>Index loops\<close>

text \<open>
  \<^verbatim>\<open>for (std::uint64_t index = first; index <= last; ++index) body;\<close>
  The counter wraps at the top of the range: with \<^verbatim>\<open>last\<close> equal to the largest
  64-bit value the loop never ends, which is the value \<^term>\<open>None\<close>.
\<close>

partial_function (option) for_incl ::
    "(u64 \<Rightarrow> 's \<Rightarrow> 's option) \<Rightarrow> u64 \<Rightarrow> u64 \<Rightarrow> 's \<Rightarrow> 's option" where
  "for_incl body i hi s =
     (if i \<le> hi then Option.bind (body i s) (\<lambda>s'. for_incl body (i + 1) hi s') else Some s)"

declare for_incl.simps [code]

text \<open>Running a body over a list of arguments, stopping where it has no result.\<close>

fun foldO :: "('a \<Rightarrow> 's \<Rightarrow> 's option) \<Rightarrow> 'a list \<Rightarrow> 's \<Rightarrow> 's option" where
  "foldO body [] s = Some s"
| "foldO body (x # xs) s = Option.bind (body x s) (foldO body xs)"

text \<open>The block indices an inclusive range covers.\<close>

definition index_range :: "u64 \<Rightarrow> u64 \<Rightarrow> u64 list" where
  "index_range i hi = map of_nat [unat i ..< Suc (unat hi)]"

lemma index_range_Cons: "i \<le> hi \<Longrightarrow> hi < u64_max \<Longrightarrow> index_range i hi = i # index_range (i + 1) hi"
proof -
  assume le: "i \<le> hi" and lt: "hi < u64_max"
  have "unat (i + 1) = unat i + 1" using le lt by (intro unat_plus_one [of i u64_max]) simp
  moreover have "unat i \<le> unat hi" using le by (simp add: word_le_nat_alt)
  ultimately show ?thesis by (simp add: index_range_def upt_conv_Cons del: upt_Suc)
qed

lemma index_range_empty: "hi < i \<Longrightarrow> index_range i hi = []"
  by (simp add: index_range_def word_less_nat_alt)

lemma for_incl_foldO: "hi < u64_max \<Longrightarrow> for_incl body i hi s = foldO body (index_range i hi) s"
proof (induction "unat hi + 1 - unat i" arbitrary: i s)
  case 0
  then have "hi < i" by (simp add: word_less_nat_alt)
  then show ?case by (subst for_incl.simps) (auto simp: index_range_empty)
next
  case (Suc n)
  then have le: "i \<le> hi" by (simp add: word_le_nat_alt)
  have "unat (i + 1) = unat i + 1"
    using le Suc.prems by (intro unat_plus_one [of i u64_max]) simp
  with Suc.hyps(2) have n: "n = unat hi + 1 - unat (i + 1)" by simp
  have "for_incl body i hi s = Option.bind (body i s) (for_incl body (i + 1) hi)"
    using le by (simp add: for_incl.simps [of body i])
  also have "\<dots> = Option.bind (body i s) (foldO body (index_range (i + 1) hi))"
    using Suc.hyps(1) [OF n Suc.prems] by presburger
  finally show ?case using le Suc.prems by (simp add: index_range_Cons)
qed

text \<open>At the top of the range the counter wraps to zero and the guard never fails.\<close>

lemma for_incl_max_diverges: "for_incl body i u64_max s = None"
proof -
  have "\<And>r. for_incl body i u64_max s = Some r \<Longrightarrow> False"
  proof -
    fix r assume ret: "for_incl body i u64_max s = Some r"
    have "(u64_max :: u64) \<noteq> u64_max"
    proof (rule for_incl.raw_induct [where P = "\<lambda>b i h s r. h \<noteq> u64_max", OF _ ret])
      fix f :: "(u64 \<Rightarrow> 'a \<Rightarrow> 'a option) \<Rightarrow> u64 \<Rightarrow> u64 \<Rightarrow> 'a \<Rightarrow> 'a option"
      fix b i h s r
      assume IH: "\<And>b i h s r. f b i h s = Some r \<Longrightarrow> h \<noteq> u64_max"
        and eq: "(if i \<le> h then Option.bind (b i s) (\<lambda>s'. f b (i + 1) h s') else Some s) = Some r"
      show "h \<noteq> u64_max"
      proof
        assume h: "h = u64_max"
        with eq obtain s' where "f b (i + 1) h s' = Some r"
          by (auto simp: Option.bind_eq_Some_conv split: if_splits)
        then show False using IH h by blast
      qed
    qed
    then show False by simp
  qed
  then show ?thesis by (cases "for_incl body i u64_max s") auto
qed

text \<open>Lists run by \<^const>\<open>foldO\<close>.\<close>

lemma foldO_append: "foldO body (xs @ ys) s = Option.bind (foldO body xs s) (foldO body ys)"
  by (induction xs arbitrary: s) (auto split: bind_splits)

lemma foldO_inv:
  assumes "foldO body xs s = Some s'" and "I s"
    and "\<And>x s s'. x \<in> set xs \<Longrightarrow> I s \<Longrightarrow> body x s = Some s' \<Longrightarrow> I s'"
  shows "I s'"
  using assms
proof (induction xs arbitrary: s)
  case Nil
  then show ?case by simp
next
  case (Cons x xs)
  from Cons.prems(1) obtain t where t: "body x s = Some t" and rest: "foldO body xs t = Some s'"
    by (auto simp: Option.bind_eq_Some_conv)
  have "I t" using Cons.prems(2,3) t by auto
  then show ?case using Cons.IH [OF rest] Cons.prems(3) by auto
qed

lemma foldO_returns:
  assumes "I s" "\<And>x s. x \<in> set xs \<Longrightarrow> I s \<Longrightarrow> \<exists>s'. body x s = Some s' \<and> I s'"
  shows "\<exists>s'. foldO body xs s = Some s' \<and> I s'"
  using assms
proof (induction xs arbitrary: s)
  case (Cons x xs)
  from Cons.prems obtain t where "body x s = Some t" "I t" by (meson list.set_intros(1))
  with Cons.IH [of t] Cons.prems(2) show ?case by auto
qed simp

lemma index_range_set: "x \<in> set (index_range i hi) \<longleftrightarrow> i \<le> x \<and> x \<le> hi"
proof
  assume "x \<in> set (index_range i hi)"
  then obtain n where n: "x = of_nat n" "unat i \<le> n" "n \<le> unat hi"
    by (auto simp: index_range_def)
  with unat_u64_lt [of hi] have "n < 18446744073709551616" by linarith
  with n have "unat x = n" by (simp add: unat_of_nat take_bit_nat_eq_self)
  with n show "i \<le> x \<and> x \<le> hi" by (simp add: word_le_nat_alt)
next
  assume "i \<le> x \<and> x \<le> hi"
  then have "unat x \<in> {unat i ..< Suc (unat hi)}" by (simp add: word_le_nat_alt)
  then have "of_nat (unat x) \<in> set (index_range i hi)"
    unfolding index_range_def set_map set_upt by (rule imageI)
  then show "x \<in> set (index_range i hi)" by simp
qed

lemma index_range_distinct: "distinct (index_range i hi)"
proof -
  have b: "n < 18446744073709551616" if "n < Suc (unat hi)" for n
    using that unat_u64_lt [of hi] by linarith
  have "inj_on (of_nat :: nat \<Rightarrow> u64) {unat i ..< Suc (unat hi)}"
    by (rule inj_on_inverseI [where g = unat]) (use b in \<open>simp add: unat_of_nat take_bit_nat_eq_self\<close>)
  then show ?thesis by (simp add: index_range_def distinct_map del: upt_Suc)
qed

lemma u64_below_max: "hi \<noteq> u64_max \<Longrightarrow> hi < u64_max"
  using unat_u64_lt [of hi] by (simp add: word_less_nat_alt unat_u64_max word_unat_eq_iff)

text \<open>An invariant of the body is an invariant of a loop that ends.\<close>

lemma for_incl_inv:
  assumes run: "for_incl body i hi s = Some s'" and start: "I s"
    and step: "\<And>x s s'. I s \<Longrightarrow> body x s = Some s' \<Longrightarrow> I s'"
  shows "I s'"
proof -
  have "hi \<noteq> u64_max" using run for_incl_max_diverges [of body i s] by auto
  with run have "foldO body (index_range i hi) s = Some s'" by (simp add: for_incl_foldO u64_below_max)
  from foldO_inv [where I = I, OF this start] step show ?thesis by blast
qed

section \<open>Invariants of step relations\<close>

text \<open>
  A step relation with a predicate that every step keeps: the predicate holds in every state
  reached from one in which it holds.
\<close>

locale invariant_system =
  fixes step :: "'s \<Rightarrow> 's \<Rightarrow> bool" and inv :: "'s \<Rightarrow> bool"
  assumes step_keeps: "step s t \<Longrightarrow> inv s \<Longrightarrow> inv t"
begin

lemma reachable_inv: "step\<^sup>*\<^sup>* s t \<Longrightarrow> inv s \<Longrightarrow> inv t"
  by (induction rule: rtranclp_induct) (auto intro: step_keeps)

end

end
