(* ===== verification/Binary64.thy ===== *)
theory Binary64
  imports Prelude "HOL-Library.Log_Nat"
begin

text \<open>
  IEEE 754 binary64 as the profiling code uses it: the conversion of a 64-bit count to
  \<^verbatim>\<open>double\<close>, addition, division and the comparisons with configured thresholds.
  A finite double is the rational it denotes; every operation rounds its exact result to
  nearest, ties to even, with 53 significant bits and the subnormal exponent bound. The sign
  of zero cannot be observed by the operations used. Results beyond the largest finite
  double do not occur for sums and quotients of 64-bit counts.
\<close>

definition round_half_even :: "rat \<Rightarrow> int" where
  "round_half_even q =
     (let f = \<lfloor>q\<rfloor>; d = q - of_int f
      in if d < 1 / 2 then f else if d > 1 / 2 then f + 1 else if even f then f else f + 1)"

definition two_pow :: "int \<Rightarrow> rat" where
  "two_pow e = (if 0 \<le> e then 2 ^ nat e else 1 / 2 ^ nat (- e))"

text \<open>
  The exponent of the last of the 53 significant bits of a positive rational, without and with
  the bound of the subnormal numbers.
\<close>

definition free_exp :: "rat \<Rightarrow> int" where
  "free_exp q =
     (let (a, b) = quotient_of q;
          e = int (nat (bitlen a)) - int (nat (bitlen b)) - 53
      in if q < two_pow (e + 53) then e else e + 1)"

definition ulp_exp :: "rat \<Rightarrow> int" where
  "ulp_exp q = max (free_exp q) (- 1074)"

definition round_at :: "int \<Rightarrow> rat \<Rightarrow> rat" where
  "round_at e q = of_int (round_half_even (q / two_pow e)) * two_pow e"

definition round_pos :: "rat \<Rightarrow> rat" where
  "round_pos q = round_at (ulp_exp q) q"

definition round64 :: "rat \<Rightarrow> rat" where
  "round64 q = (if q = 0 then 0 else if q < 0 then - round_pos (- q) else round_pos q)"

datatype f64 = F64 rat | F64_inf bool | F64_nan

definition f64_of_rat :: "rat \<Rightarrow> f64" where
  "f64_of_rat q = F64 (round64 q)"

definition double_of_u64 :: "u64 \<Rightarrow> rat" where
  "double_of_u64 w = round64 (of_nat (unat w))"

definition double_add :: "rat \<Rightarrow> rat \<Rightarrow> rat" where
  "double_add a b = round64 (a + b)"

definition double_div :: "rat \<Rightarrow> rat \<Rightarrow> rat" where
  "double_div a b = round64 (a / b)"

text \<open>Comparisons of a computed finite value with a threshold; every comparison with NaN is false.\<close>

fun double_ge :: "rat \<Rightarrow> f64 \<Rightarrow> bool" where
  "double_ge a (F64 t) \<longleftrightarrow> t \<le> a"
| "double_ge a (F64_inf neg) \<longleftrightarrow> neg"
| "double_ge a F64_nan \<longleftrightarrow> False"

fun double_le :: "rat \<Rightarrow> f64 \<Rightarrow> bool" where
  "double_le a (F64 t) \<longleftrightarrow> a \<le> t"
| "double_le a (F64_inf neg) \<longleftrightarrow> \<not> neg"
| "double_le a F64_nan \<longleftrightarrow> False"

end
