(* ===== verification/Leo_Types.thy ===== *)
theory Leo_Types
  imports Prelude Binary64
begin

text \<open>
  The public data types of LeoMem (\<^verbatim>\<open>include/leomem/*.h\<close>) and the helper of
  \<^verbatim>\<open>src/common/utils.cc\<close>: statuses, global addresses, block identifiers, access
  types, block states, coherence modes, the configuration with its defaults and the
  statistics snapshot.
\<close>

section \<open>types.h, addr.h, block.h, status.h\<close>

type_synonym NodeId = u16
type_synonym RegionId = u16
type_synonym BlockIndex = u64
type_synonym Version = u64

definition kInvalidNodeId :: NodeId where
  "kInvalidNodeId = - 1"

definition kDefaultRegionId :: RegionId where
  "kDefaultRegionId = 0"

datatype Status =
    kOk | kInvalidArg | kNotInitialized | kAlreadyInitialized | kNoMemory
  | kNotFound | kOutOfRange | kTimedOut | kUnimplemented | kInternalError

record GlobalAddr =
  ga_home_node :: NodeId
  ga_region_id :: RegionId
  ga_offset :: u64

definition IsValid :: "GlobalAddr \<Rightarrow> bool" where
  "IsValid a \<longleftrightarrow> ga_home_node a \<noteq> kInvalidNodeId"

definition InvalidGlobalAddr :: GlobalAddr where
  "InvalidGlobalAddr = \<lparr>ga_home_node = kInvalidNodeId, ga_region_id = kDefaultRegionId, ga_offset = 0\<rparr>"

datatype AccessType = kRead | kWrite

datatype BlockState = kInvalid | kShared | kOwner | kHome | kTransient

text \<open>
  An \<^verbatim>\<open>enum class\<close> object holds any value of its underlying \<^verbatim>\<open>int\<close>; a
  control message parsed from a file can carry one that no enumerator names, which is the
  last constructor here.
\<close>

datatype CoherenceMode = kWI | kSI | kAdaptive | kModeValue int

fun mode_int :: "CoherenceMode \<Rightarrow> int" where
  "mode_int kWI = 0"
| "mode_int kSI = 1"
| "mode_int kAdaptive = 2"
| "mode_int (kModeValue v) = v"

definition mode_of_int :: "int \<Rightarrow> CoherenceMode" where
  "mode_of_int v = (if v = 0 then kWI else if v = 1 then kSI else if v = 2 then kAdaptive
                    else kModeValue v)"

record BlockId =
  bi_region_id :: RegionId
  bi_block_index :: BlockIndex

section \<open>config.h\<close>

record Config =
  cfg_node_id :: u16
  cfg_nr_nodes :: u16
  cfg_block_size :: u64
  cfg_local_region_size :: u64
  cfg_enable_rdma :: bool
  cfg_enable_cache :: bool
  cfg_enable_write_batching :: bool
  cfg_rdma_enable_control_path :: bool
  cfg_coherence_mode_override :: int
  cfg_cache_admission_policy :: int
  cfg_control_ack_timeout_polls :: u64
  cfg_control_ack_max_retries :: u64
  cfg_rdma_device_name :: string
  cfg_rdma_port :: u8
  cfg_rdma_gid_index :: u8
  cfg_rdma_max_inline_bytes :: u64
  cfg_rdma_cq_depth :: u64
  cfg_rdma_sq_depth :: u64
  cfg_rdma_rq_depth :: u64
  cfg_rdma_bootstrap_timeout_ms :: u64
  cfg_rdma_exchange_dir :: string
  cfg_profiling_window_size :: u64
  cfg_cache_capacity_bytes :: u64
  cfg_cache_admission_min_reads :: u64
  cfg_cache_admission_max_writes :: u64
  cfg_cache_admission_max_sharers :: u64
  cfg_cache_admission_max_reuse_distance :: u64
  cfg_cache_admission_min_read_ratio :: f64
  cfg_cache_admission_max_phase_change_ratio :: f64
  cfg_remote_write_batch_threshold :: u64
  cfg_coherence_sharer_promote_threshold :: u64
  cfg_coherence_invalidation_promote_threshold :: u64
  cfg_coherence_write_dominant_ratio :: f64
  cfg_coherence_phase_change_promote_ratio :: f64
  cfg_adaptive_mode_batch_threshold :: u64
  cfg_cluster_config_path :: string

definition default_config :: Config where
  "default_config = \<lparr>
     cfg_node_id = 0, cfg_nr_nodes = 1,
     cfg_block_size = 4096, cfg_local_region_size = 64 * 1024 * 1024,
     cfg_enable_rdma = False, cfg_enable_cache = True,
     cfg_enable_write_batching = True, cfg_rdma_enable_control_path = True,
     cfg_coherence_mode_override = - 1, cfg_cache_admission_policy = 0,
     cfg_control_ack_timeout_polls = 4, cfg_control_ack_max_retries = 2,
     cfg_rdma_device_name = [], cfg_rdma_port = 1, cfg_rdma_gid_index = 0,
     cfg_rdma_max_inline_bytes = 256, cfg_rdma_cq_depth = 1024, cfg_rdma_sq_depth = 1024,
     cfg_rdma_rq_depth = 1024, cfg_rdma_bootstrap_timeout_ms = 30000,
     cfg_rdma_exchange_dir = [],
     cfg_profiling_window_size = 8, cfg_cache_capacity_bytes = 0,
     cfg_cache_admission_min_reads = 2, cfg_cache_admission_max_writes = 1,
     cfg_cache_admission_max_sharers = 2, cfg_cache_admission_max_reuse_distance = 4,
     cfg_cache_admission_min_read_ratio = f64_of_rat (60 / 100),
     cfg_cache_admission_max_phase_change_ratio = f64_of_rat (35 / 100),
     cfg_remote_write_batch_threshold = 1,
     cfg_coherence_sharer_promote_threshold = 2,
     cfg_coherence_invalidation_promote_threshold = 2,
     cfg_coherence_write_dominant_ratio = f64_of_rat (55 / 100),
     cfg_coherence_phase_change_promote_ratio = f64_of_rat (30 / 100),
     cfg_adaptive_mode_batch_threshold = 1,
     cfg_cluster_config_path = []\<rparr>"

section \<open>stats.h\<close>

record StatsSnapshot =
  ss_alloc_ops :: u64
  ss_read_ops :: u64
  ss_write_ops :: u64
  ss_local_reads :: u64
  ss_local_writes :: u64
  ss_remote_reads :: u64
  ss_remote_writes :: u64
  ss_cache_hits :: u64
  ss_cache_misses :: u64
  ss_cache_admissions :: u64
  ss_cache_rejections :: u64
  ss_cache_evictions :: u64
  ss_cache_resident_entries :: u64
  ss_cache_resident_bytes :: u64
  ss_queued_remote_writes :: u64
  ss_flushed_remote_writes :: u64
  ss_flushed_remote_write_bytes :: u64
  ss_flushed_remote_batches :: u64
  ss_merged_remote_writes :: u64
  ss_coherence_mode_switches :: u64
  ss_coherence_mode_wi :: u64
  ss_coherence_mode_si :: u64
  ss_coherence_mode_adaptive :: u64
  ss_precise_cache_invalidations :: u64
  ss_range_cache_invalidations :: u64
  ss_owner_biased_writes :: u64
  ss_owner_handoffs :: u64

section \<open>utils.cc\<close>

definition AlignUp :: "u64 \<Rightarrow> u64 \<Rightarrow> u64" where
  "AlignUp value' alignment =
     (if alignment = 0 then value' else ((value' + alignment - 1) div alignment) * alignment)"

section \<open>Lemmas\<close>

text \<open>Without overflow the result is the exact multiple.\<close>

lemma unat_AlignUp:
  assumes "0 < unat al" and "unat v + unat al \<le> 2 ^ 64"
  shows "unat (AlignUp v al) = (unat v + unat al - 1) div unat al * unat al"
proof -
  have al: "al \<noteq> 0" using assms(1) by auto
  have n: "unat (v + al - 1) = unat v + unat al - 1"
  proof -
    have a1: "unat (al - 1) = unat al - 1"
      using al by (simp add: unat_minus_one)
    then have "no_wrap v (al - 1)" using assms by (simp add: no_wrap_def)
    then have "unat (v + (al - 1)) = unat v + (unat al - 1)"
      by (simp only: unat_plus_no_wrap a1)
    then show ?thesis using assms(1) by (simp add: add_diff_eq)
  qed
  have le: "(unat v + unat al - 1) div unat al * unat al \<le> unat v + unat al - 1"
    by (rule div_times_less_eq_dividend)
  have "unat ((v + al - 1) div al * al) = ((unat v + unat al - 1) div unat al * unat al) mod 2 ^ 64"
    by (simp add: unat_word_ariths unat_div n mod_mult_left_eq)
  also have "\<dots> = (unat v + unat al - 1) div unat al * unat al"
    using le assms by (intro mod_less) linarith
  finally show ?thesis using al by (simp add: AlignUp_def)
qed

lemma AlignUp_bounds:
  assumes "0 < unat al" and "unat v + unat al \<le> 2 ^ 64"
  shows "unat v \<le> unat (AlignUp v al)" and "unat (AlignUp v al) < unat v + unat al"
    and "unat al dvd unat (AlignUp v al)"
proof -
  let ?n = "unat v + unat al - 1"
  have eq: "unat (AlignUp v al) = ?n div unat al * unat al" by (rule unat_AlignUp [OF assms])
  have m: "?n mod unat al < unat al" using assms(1) by simp
  have d: "?n = ?n div unat al * unat al + ?n mod unat al" by simp
  show "unat v \<le> unat (AlignUp v al)" using m d assms(1) unfolding eq by linarith
  show "unat (AlignUp v al) < unat v + unat al" using d assms(1) unfolding eq by linarith
  show "unat al dvd unat (AlignUp v al)" by (simp add: eq)
qed

text \<open>With overflow the result is zero.\<close>

lemma AlignUp_overflow:
  assumes "2 ^ 64 < unat v + unat al"
  shows "AlignUp v al = 0"
proof -
  have v: "unat v < 2 ^ 64" and l: "unat al < 2 ^ 64"
    using unat_u64_lt [of v] unat_u64_lt [of al] by simp_all
  have al: "al \<noteq> 0" using assms v by auto
  then have a1: "unat (al - 1) = unat al - 1" by (simp add: unat_minus_one)
  have "unat (v + (al - 1)) = (unat v + (unat al - 1)) mod 2 ^ 64"
    by (simp add: unat_plus_mod a1)
  also have "\<dots> = unat v + (unat al - 1) - 2 ^ 64"
    using assms v l by (simp add: le_mod_geq)
  finally have "unat (v + (al - 1)) < unat al" using assms v l by linarith
  then have "unat ((v + al - 1) div al) = 0" by (simp add: unat_div diff_add_eq add_diff_eq)
  then have "(v + al - 1) div al = 0" by (simp only: unat_eq_zero)
  then show ?thesis using al by (simp add: AlignUp_def)
qed

end
