(* ===== verification/Block_Table.thy ===== *)
theory Block_Table
  imports Leo_Types
begin

text \<open>
  Per-block metadata (\<^verbatim>\<open>src/metadata/block_meta.h\<close>) and the table that owns it
  (\<^verbatim>\<open>src/metadata/block_table.{h,cc}\<close>). The table hands out shared pointers; it
  never drops an entry, so a pointer is identified with its key and an access through it is
  an access to the table entry (\<open>meta_at\<close>, \<open>update_meta\<close>).
\<close>

section \<open>BlockMeta\<close>

record BlockMeta =
  bm_bid :: BlockId
  bm_owner_node :: NodeId
  bm_version :: Version
  bm_state :: BlockState
  bm_mode :: CoherenceMode
  bm_access_epoch :: u64
  bm_last_access_epoch :: u64
  bm_read_count :: u64
  bm_write_count :: u64
  bm_remote_miss_count :: u64
  bm_invalidation_cost :: u64
  bm_sharer_count :: u32
  bm_window_id :: u64
  bm_window_reads :: u64
  bm_window_writes :: u64
  bm_phase_change_count :: u64
  bm_last_reuse_distance :: u64
  bm_last_access_type :: u32
  bm_coherence_switch_count :: u64
  bm_owner_epoch :: u64
  bm_last_validated_version :: u64
  bm_cache_admitted :: bool

definition new_BlockMeta :: BlockMeta where
  "new_BlockMeta = \<lparr>
     bm_bid = \<lparr>bi_region_id = kDefaultRegionId, bi_block_index = 0\<rparr>,
     bm_owner_node = kInvalidNodeId, bm_version = 0, bm_state = kHome, bm_mode = kWI,
     bm_access_epoch = 0, bm_last_access_epoch = 0, bm_read_count = 0, bm_write_count = 0,
     bm_remote_miss_count = 0, bm_invalidation_cost = 0, bm_sharer_count = 0, bm_window_id = 0,
     bm_window_reads = 0, bm_window_writes = 0, bm_phase_change_count = 0,
     bm_last_reuse_distance = 0, bm_last_access_type = 0, bm_coherence_switch_count = 0,
     bm_owner_epoch = 0, bm_last_validated_version = 0, bm_cache_admitted = False\<rparr>"

section \<open>BlockTable\<close>

type_synonym BlockTable = "BlockId \<rightharpoonup> BlockMeta"

unbundle bit_operations_syntax

definition BlockIdHash :: "BlockId \<Rightarrow> u64" where
  "BlockIdHash bid = (push_bit 48 (ucast (bi_region_id bid))) XOR bi_block_index bid"

definition GetOrCreate :: "BlockTable \<Rightarrow> BlockId \<Rightarrow> BlockTable" where
  "GetOrCreate table bid =
     (case table bid of Some meta \<Rightarrow> table
      | None \<Rightarrow> table(bid \<mapsto> new_BlockMeta\<lparr>bm_bid := bid\<rparr>))"

definition Find :: "BlockTable \<Rightarrow> BlockId \<Rightarrow> BlockMeta option" where
  "Find table bid = table bid"

text \<open>Access through a pointer the table handed out.\<close>

definition meta_at :: "BlockTable \<Rightarrow> BlockId \<Rightarrow> BlockMeta" where
  "meta_at table bid = (case table bid of Some m \<Rightarrow> m | None \<Rightarrow> new_BlockMeta\<lparr>bm_bid := bid\<rparr>)"

definition update_meta :: "BlockTable \<Rightarrow> BlockId \<Rightarrow> (BlockMeta \<Rightarrow> BlockMeta) \<Rightarrow> BlockTable" where
  "update_meta table bid f = table(bid \<mapsto> f (meta_at table bid))"

section \<open>Lemmas\<close>

lemma GetOrCreate_same: "GetOrCreate table bid bid = Some (meta_at table bid)"
  by (simp add: GetOrCreate_def meta_at_def split: option.splits)

lemma GetOrCreate_other: "b \<noteq> bid \<Longrightarrow> GetOrCreate table bid b = table b"
  by (simp add: GetOrCreate_def split: option.splits)

lemma meta_at_GetOrCreate [simp]: "meta_at (GetOrCreate table bid) b = meta_at table b"
  by (simp add: GetOrCreate_def meta_at_def split: option.splits)

lemma meta_at_update_same [simp]: "meta_at (update_meta table bid f) bid = f (meta_at table bid)"
  by (simp add: update_meta_def meta_at_def)

lemma meta_at_update_other [simp]: "b \<noteq> bid \<Longrightarrow> meta_at (update_meta table bid f) b = meta_at table b"
  by (simp add: update_meta_def meta_at_def)

lemma meta_at_update: "meta_at (update_meta table bid f) b = (if b = bid then f (meta_at table b) else meta_at table b)"
  by simp

lemma dom_GetOrCreate: "dom (GetOrCreate table bid) = insert bid (dom table)"
  by (auto simp: GetOrCreate_def split: option.splits if_splits)

lemma dom_update_meta: "dom (update_meta table bid f) = insert bid (dom table)"
  by (auto simp: update_meta_def)

end
