(* ===== verification/Stats_Counters.thy ===== *)
theory Stats_Counters
  imports Leo_Types
begin

text \<open>
  The statistics collector (\<^verbatim>\<open>src/stats/counters.{h,cc}\<close>): one 64-bit counter per
  event class, wrapping addition, and the snapshot the public API returns.
\<close>

record StatsCollector =
  sc_alloc_ops :: u64
  sc_read_ops :: u64
  sc_write_ops :: u64
  sc_local_reads :: u64
  sc_local_writes :: u64
  sc_remote_reads :: u64
  sc_remote_writes :: u64
  sc_cache_hits :: u64
  sc_cache_misses :: u64
  sc_cache_admissions :: u64
  sc_cache_rejections :: u64
  sc_queued_remote_writes :: u64
  sc_flushed_remote_writes :: u64
  sc_flushed_remote_write_bytes :: u64
  sc_flushed_remote_batches :: u64
  sc_merged_remote_writes :: u64
  sc_coherence_mode_switches :: u64
  sc_coherence_mode_wi :: u64
  sc_coherence_mode_si :: u64
  sc_coherence_mode_adaptive :: u64
  sc_precise_cache_invalidations :: u64
  sc_range_cache_invalidations :: u64
  sc_owner_biased_writes :: u64
  sc_owner_handoffs :: u64

definition new_StatsCollector :: StatsCollector where
  "new_StatsCollector = \<lparr>
     sc_alloc_ops = 0, sc_read_ops = 0, sc_write_ops = 0,
     sc_local_reads = 0, sc_local_writes = 0, sc_remote_reads = 0,
     sc_remote_writes = 0, sc_cache_hits = 0, sc_cache_misses = 0,
     sc_cache_admissions = 0, sc_cache_rejections = 0, sc_queued_remote_writes = 0,
     sc_flushed_remote_writes = 0, sc_flushed_remote_write_bytes = 0, sc_flushed_remote_batches = 0,
     sc_merged_remote_writes = 0, sc_coherence_mode_switches = 0, sc_coherence_mode_wi = 0,
     sc_coherence_mode_si = 0, sc_coherence_mode_adaptive = 0, sc_precise_cache_invalidations = 0,
     sc_range_cache_invalidations = 0, sc_owner_biased_writes = 0, sc_owner_handoffs = 0\<rparr>"

definition IncAlloc :: "StatsCollector \<Rightarrow> StatsCollector" where
  "IncAlloc s = s\<lparr>sc_alloc_ops := sc_alloc_ops s + 1\<rparr>"

definition IncRead :: "bool \<Rightarrow> StatsCollector \<Rightarrow> StatsCollector" where
  "IncRead local s =
     (let s = s\<lparr>sc_read_ops := sc_read_ops s + 1\<rparr>
      in if local then s\<lparr>sc_local_reads := sc_local_reads s + 1\<rparr>
         else s\<lparr>sc_remote_reads := sc_remote_reads s + 1\<rparr>)"

definition IncWrite :: "bool \<Rightarrow> StatsCollector \<Rightarrow> StatsCollector" where
  "IncWrite local s =
     (let s = s\<lparr>sc_write_ops := sc_write_ops s + 1\<rparr>
      in if local then s\<lparr>sc_local_writes := sc_local_writes s + 1\<rparr>
         else s\<lparr>sc_remote_writes := sc_remote_writes s + 1\<rparr>)"

definition IncCacheHit :: "StatsCollector \<Rightarrow> StatsCollector" where
  "IncCacheHit s = s\<lparr>sc_cache_hits := sc_cache_hits s + 1\<rparr>"

definition IncCacheMiss :: "StatsCollector \<Rightarrow> StatsCollector" where
  "IncCacheMiss s = s\<lparr>sc_cache_misses := sc_cache_misses s + 1\<rparr>"

definition IncCacheAdmission :: "bool \<Rightarrow> StatsCollector \<Rightarrow> StatsCollector" where
  "IncCacheAdmission admitted s =
     (if admitted then s\<lparr>sc_cache_admissions := sc_cache_admissions s + 1\<rparr>
      else s\<lparr>sc_cache_rejections := sc_cache_rejections s + 1\<rparr>)"

definition IncQueuedRemoteWrite :: "StatsCollector \<Rightarrow> StatsCollector" where
  "IncQueuedRemoteWrite s = s\<lparr>sc_queued_remote_writes := sc_queued_remote_writes s + 1\<rparr>"

definition AddFlushedRemoteBatch :: "u64 \<Rightarrow> u64 \<Rightarrow> StatsCollector \<Rightarrow> StatsCollector" where
  "AddFlushedRemoteBatch writes bytes s =
     s\<lparr>sc_flushed_remote_batches := sc_flushed_remote_batches s + 1,
       sc_flushed_remote_writes := sc_flushed_remote_writes s + writes,
       sc_flushed_remote_write_bytes := sc_flushed_remote_write_bytes s + bytes\<rparr>"

definition IncMergedRemoteWrite :: "StatsCollector \<Rightarrow> StatsCollector" where
  "IncMergedRemoteWrite s = s\<lparr>sc_merged_remote_writes := sc_merged_remote_writes s + 1\<rparr>"

definition RecordCoherenceMode :: "CoherenceMode \<Rightarrow> bool \<Rightarrow> StatsCollector \<Rightarrow> StatsCollector" where
  "RecordCoherenceMode mode switched s =
     (let s = (if switched then s\<lparr>sc_coherence_mode_switches := sc_coherence_mode_switches s + 1\<rparr> else s)
      in case mode of
           kWI \<Rightarrow> s\<lparr>sc_coherence_mode_wi := sc_coherence_mode_wi s + 1\<rparr>
         | kSI \<Rightarrow> s\<lparr>sc_coherence_mode_si := sc_coherence_mode_si s + 1\<rparr>
         | kAdaptive \<Rightarrow> s\<lparr>sc_coherence_mode_adaptive := sc_coherence_mode_adaptive s + 1\<rparr>
         | kModeValue v \<Rightarrow> s)"

definition AddCacheInvalidations :: "bool \<Rightarrow> u64 \<Rightarrow> StatsCollector \<Rightarrow> StatsCollector" where
  "AddCacheInvalidations range_based count s =
     (if range_based
      then s\<lparr>sc_range_cache_invalidations := sc_range_cache_invalidations s + count\<rparr>
      else s\<lparr>sc_precise_cache_invalidations := sc_precise_cache_invalidations s + count\<rparr>)"

definition IncOwnerBiasedWrite :: "StatsCollector \<Rightarrow> StatsCollector" where
  "IncOwnerBiasedWrite s = s\<lparr>sc_owner_biased_writes := sc_owner_biased_writes s + 1\<rparr>"

definition IncOwnerHandoff :: "StatsCollector \<Rightarrow> StatsCollector" where
  "IncOwnerHandoff s = s\<lparr>sc_owner_handoffs := sc_owner_handoffs s + 1\<rparr>"

text \<open>The three cache figures of the snapshot keep their zero default here.\<close>

definition Snapshot :: "StatsCollector \<Rightarrow> StatsSnapshot" where
  "Snapshot s = \<lparr>
     ss_alloc_ops = sc_alloc_ops s,
     ss_read_ops = sc_read_ops s,
     ss_write_ops = sc_write_ops s,
     ss_local_reads = sc_local_reads s,
     ss_local_writes = sc_local_writes s,
     ss_remote_reads = sc_remote_reads s,
     ss_remote_writes = sc_remote_writes s,
     ss_cache_hits = sc_cache_hits s,
     ss_cache_misses = sc_cache_misses s,
     ss_cache_admissions = sc_cache_admissions s,
     ss_cache_rejections = sc_cache_rejections s,
     ss_cache_evictions = 0,
     ss_cache_resident_entries = 0,
     ss_cache_resident_bytes = 0,
     ss_queued_remote_writes = sc_queued_remote_writes s,
     ss_flushed_remote_writes = sc_flushed_remote_writes s,
     ss_flushed_remote_write_bytes = sc_flushed_remote_write_bytes s,
     ss_flushed_remote_batches = sc_flushed_remote_batches s,
     ss_merged_remote_writes = sc_merged_remote_writes s,
     ss_coherence_mode_switches = sc_coherence_mode_switches s,
     ss_coherence_mode_wi = sc_coherence_mode_wi s,
     ss_coherence_mode_si = sc_coherence_mode_si s,
     ss_coherence_mode_adaptive = sc_coherence_mode_adaptive s,
     ss_precise_cache_invalidations = sc_precise_cache_invalidations s,
     ss_range_cache_invalidations = sc_range_cache_invalidations s,
     ss_owner_biased_writes = sc_owner_biased_writes s,
     ss_owner_handoffs = sc_owner_handoffs s\<rparr>"

definition empty_snapshot :: StatsSnapshot where
  "empty_snapshot = Snapshot new_StatsCollector"

lemmas stats_defs = IncAlloc_def IncRead_def IncWrite_def IncCacheHit_def IncCacheMiss_def
  IncCacheAdmission_def IncQueuedRemoteWrite_def AddFlushedRemoteBatch_def
  IncMergedRemoteWrite_def RecordCoherenceMode_def AddCacheInvalidations_def
  IncOwnerBiasedWrite_def IncOwnerHandoff_def

end
