(* ===== verification/Dsm_Allocator.thy ===== *)
theory Dsm_Allocator
  imports Leo_Types
begin

text \<open>
  The bump allocator of the local DSM region
  (\<^verbatim>\<open>src/memory/global/dsm_allocator.{h,cc}\<close>). The \<^verbatim>\<open>std::map\<close> of allocations
  is an association list in key order; a pointer into the region is its offset.
\<close>

section \<open>Model\<close>

record BlockRange =
  br_first :: BlockId
  br_last :: BlockId
  br_count :: u64

record AllocationMeta =
  am_offset :: u64
  am_size :: u64

record DsmAllocator =
  da_cfg :: Config
  da_region :: "byte list"
  da_next_offset :: u64
  da_allocations :: "(u64 \<times> AllocationMeta) list"

definition new_DsmAllocator :: "Config \<Rightarrow> DsmAllocator" where
  "new_DsmAllocator cfg = \<lparr>da_cfg = cfg, da_region = [], da_next_offset = 0, da_allocations = []\<rparr>"

text \<open>\<^verbatim>\<open>std::vector::resize(n, 0)\<close>.\<close>

definition vec_resize :: "byte list \<Rightarrow> nat \<Rightarrow> byte list" where
  "vec_resize v n = take n v @ replicate (n - length v) 0"

definition Allocator_Init :: "DsmAllocator \<Rightarrow> Status \<times> DsmAllocator" where
  "Allocator_Init a =
     (kOk, a\<lparr>da_region := vec_resize (da_region a) (unat (cfg_local_region_size (da_cfg a))),
             da_next_offset := 0, da_allocations := []\<rparr>)"

definition Allocator_Shutdown :: "DsmAllocator \<Rightarrow> Status \<times> DsmAllocator" where
  "Allocator_Shutdown a = (kOk, a\<lparr>da_region := [], da_next_offset := 0, da_allocations := []\<rparr>)"

definition region_size :: "DsmAllocator \<Rightarrow> u64" where
  "region_size a = of_nat (length (da_region a))"

text \<open>\<^verbatim>\<open>std::map::emplace\<close>: an existing key is left alone.\<close>

fun map_emplace :: "u64 \<Rightarrow> 'v \<Rightarrow> (u64 \<times> 'v) list \<Rightarrow> (u64 \<times> 'v) list" where
  "map_emplace k v [] = [(k, v)]"
| "map_emplace k v ((k', v') # xs) =
     (if k < k' then (k, v) # (k', v') # xs
      else if k = k' then (k', v') # xs
      else (k', v') # map_emplace k v xs)"

definition Allocate :: "DsmAllocator \<Rightarrow> u64 \<Rightarrow> GlobalAddr \<times> DsmAllocator" where
  "Allocate a size' =
     (if size' = 0 \<or> cfg_block_size (da_cfg a) = 0 then (InvalidGlobalAddr, a)
      else
        let aligned_size = AlignUp size' (cfg_block_size (da_cfg a)) in
        if region_size a < da_next_offset a + aligned_size then (InvalidGlobalAddr, a)
        else
          let addr = \<lparr>ga_home_node = cfg_node_id (da_cfg a), ga_region_id = kDefaultRegionId,
                      ga_offset = da_next_offset a\<rparr> in
          (addr,
           a\<lparr>da_allocations := map_emplace (ga_offset addr)
                                \<lparr>am_offset = ga_offset addr, am_size = aligned_size\<rparr> (da_allocations a),
             da_next_offset := da_next_offset a + aligned_size\<rparr>))"

definition Free :: "DsmAllocator \<Rightarrow> GlobalAddr \<Rightarrow> Status" where
  "Free a addr =
     (if \<not> IsValid addr then kInvalidArg
      else if ga_home_node addr \<noteq> cfg_node_id (da_cfg a) then kInvalidArg
      else if map_of (da_allocations a) (ga_offset addr) = None then kNotFound
      else kOk)"

text \<open>
  \<^verbatim>\<open>upper_bound\<close> followed by \<^verbatim>\<open>--it\<close>: the last entry whose key is at most the
  offset, if there is one.
\<close>

definition floor_entry :: "(u64 \<times> 'v) list \<Rightarrow> u64 \<Rightarrow> 'v option" where
  "floor_entry xs off =
     (let below = takeWhile (\<lambda>(k, v). k \<le> off) xs
      in if below = [] then None else Some (snd (List.last below)))"

definition ValidateRangeUnlocked :: "DsmAllocator \<Rightarrow> GlobalAddr \<Rightarrow> u64 \<Rightarrow> bool" where
  "ValidateRangeUnlocked a addr size' =
     (if \<not> IsValid addr \<or> size' = 0 then False
      else if ga_home_node addr \<noteq> cfg_node_id (da_cfg a) then False
      else if cfg_block_size (da_cfg a) = 0 then False
      else case floor_entry (da_allocations a) (ga_offset addr) of
        None \<Rightarrow> False
      | Some alloc \<Rightarrow>
          if ga_offset addr < am_offset alloc then False
          else if am_size alloc < (ga_offset addr - am_offset alloc) + size' then False
          else if region_size a < ga_offset addr + size' then False
          else True)"

definition TranslateLocal :: "DsmAllocator \<Rightarrow> GlobalAddr \<Rightarrow> u64 \<Rightarrow> u64 option" where
  "TranslateLocal a addr size' =
     (if \<not> ValidateRangeUnlocked a addr size' then None else Some (ga_offset addr))"

text \<open>The pointer to the first byte, null for an empty region.\<close>

definition LocalBase :: "DsmAllocator \<Rightarrow> u64 option" where
  "LocalBase a = (if da_region a = [] then None else Some 0)"

definition LocalRegionSize :: "DsmAllocator \<Rightarrow> u64" where
  "LocalRegionSize a = region_size a"

definition Allocator_ResolveBlockRange :: "DsmAllocator \<Rightarrow> GlobalAddr \<Rightarrow> u64 \<Rightarrow> BlockRange option" where
  "Allocator_ResolveBlockRange a addr size' =
     (if \<not> ValidateRangeUnlocked a addr size' then None
      else
        let first_index = ga_offset addr div cfg_block_size (da_cfg a);
            last_index = (ga_offset addr + size' - 1) div cfg_block_size (da_cfg a)
        in Some \<lparr>br_first = \<lparr>bi_region_id = ga_region_id addr, bi_block_index = first_index\<rparr>,
                 br_last = \<lparr>bi_region_id = ga_region_id addr, bi_block_index = last_index\<rparr>,
                 br_count = last_index - first_index + 1\<rparr>)"

section \<open>Invariant\<close>

text \<open>
  A bump allocator tiles the used prefix of its region: the entries follow each other without
  gap or overlap, each a non-empty multiple of the block size, from offset \<open>start\<close> to
  offset \<open>till\<close>.
\<close>

fun tiles :: "u64 \<Rightarrow> nat \<Rightarrow> (u64 \<times> AllocationMeta) list \<Rightarrow> nat \<Rightarrow> bool" where
  "tiles bs start [] till \<longleftrightarrow> start = till"
| "tiles bs start ((k, m) # xs) till \<longleftrightarrow>
     unat k = start \<and> am_offset m = k \<and> 0 < unat (am_size m) \<and> unat bs dvd unat (am_size m) \<and>
     tiles bs (start + unat (am_size m)) xs till"

definition alloc_inv :: "DsmAllocator \<Rightarrow> bool" where
  "alloc_inv a \<longleftrightarrow>
     length (da_region a) < 2 ^ 63 \<and> unat (da_next_offset a) \<le> length (da_region a) \<and>
     tiles (cfg_block_size (da_cfg a)) 0 (da_allocations a) (unat (da_next_offset a))"

lemma tiles_append:
  "tiles bs start (xs @ ys) till \<longleftrightarrow> (\<exists>mid. tiles bs start xs mid \<and> tiles bs mid ys till)"
  by (induction bs start xs till rule: tiles.induct) auto

lemma tiles_le: "tiles bs start xs till \<Longrightarrow> start \<le> till"
  by (induction bs start xs till rule: tiles.induct) auto

lemma tiles_mem:
  "tiles bs start xs till \<Longrightarrow> (k, m) \<in> set xs \<Longrightarrow>
   am_offset m = k \<and> start \<le> unat k \<and> unat k + unat (am_size m) \<le> till \<and> 0 < unat (am_size m)
   \<and> unat bs dvd unat (am_size m)"
proof (induction bs start xs till rule: tiles.induct)
  case (2 bs start' k' m' xs till)
  then have "tiles bs (start' + unat (am_size m')) xs till" by simp
  then have "start' + unat (am_size m') \<le> till" by (rule tiles_le)
  then show ?case using 2 by auto
qed simp

lemma tiles_dvd: "tiles bs start xs till \<Longrightarrow> unat bs dvd start \<Longrightarrow> (k, m) \<in> set xs \<Longrightarrow> unat bs dvd unat k"
  by (induction bs start xs till rule: tiles.induct) auto

lemma tiles_dvd_end: "tiles bs start xs till \<Longrightarrow> unat bs dvd start \<Longrightarrow> unat bs dvd till"
  by (induction bs start xs till rule: tiles.induct) auto

text \<open>The part of the tiling that the search for an allocation relies on.\<close>

definition entries_apart :: "(u64 \<times> AllocationMeta) list \<Rightarrow> bool" where
  "entries_apart xs = sorted_wrt (\<lambda>x y. unat (fst x) + unat (am_size (snd x)) \<le> unat (fst y)) xs"

lemma tiles_apart: "tiles bs start xs till \<Longrightarrow> entries_apart xs"
  by (induction bs start xs till rule: tiles.induct)
     (auto simp: entries_apart_def dest: tiles_mem)

subsection \<open>The ordered map\<close>

lemma floor_entry_Cons:
  "floor_entry ((k, v) # xs) off =
     (if k \<le> off then (case floor_entry xs off of None \<Rightarrow> Some v | Some w \<Rightarrow> Some w) else None)"
  by (simp add: floor_entry_def Let_def)

lemma floor_entry_Some: "floor_entry xs off = Some m \<Longrightarrow> \<exists>k. (k, m) \<in> set xs \<and> k \<le> off"
  by (induction xs) (auto simp: floor_entry_def floor_entry_Cons split: if_splits option.splits)

lemma floor_entry_above: "\<forall>x \<in> set xs. off < fst x \<Longrightarrow> floor_entry xs off = None"
  by (cases xs) (auto simp: floor_entry_def)

lemma floor_entry_hit:
  assumes "entries_apart xs" and "(k, m) \<in> set xs" and "k \<le> off"
    and "unat off < unat k + unat (am_size m)"
  shows "floor_entry xs off = Some m"
  using assms
proof (induction xs)
  case (Cons x xs)
  obtain k' m' where x: "x = (k', m')" by fastforce
  show ?case
  proof (cases "(k, m) = x")
    case True
    have "\<forall>y \<in> set xs. off < fst y"
      using Cons.prems True x by (auto simp: entries_apart_def word_less_nat_alt)
    then show ?thesis using True x Cons.prems(3) by (simp add: floor_entry_Cons floor_entry_above)
  next
    case False
    with Cons.prems have mem: "(k, m) \<in> set xs" by auto
    have hit: "floor_entry xs off = Some m" using Cons mem by (simp add: entries_apart_def)
    have "unat k' \<le> unat k" using Cons.prems(1) mem x by (auto simp: entries_apart_def)
    then have "k' \<le> off" using Cons.prems(3) by (simp add: word_le_nat_alt)
    then show ?thesis using hit x by (simp add: floor_entry_Cons)
  qed
qed simp

lemma map_emplace_append:
  "\<forall>x \<in> set xs. fst x < k \<Longrightarrow> map_emplace k v xs = xs @ [(k, v)]"
  by (induction xs) auto

lemma region_size_unat: "length (da_region a) < 2 ^ 64 \<Longrightarrow> unat (region_size a) = length (da_region a)"
  by (simp add: region_size_def unat_of_nat take_bit_nat_eq_self)

lemma alloc_inv_lookup:
  assumes "alloc_inv a" and "(k, m) \<in> set (da_allocations a)"
  shows "am_offset m = k" "unat k + unat (am_size m) \<le> length (da_region a)"
    "unat (cfg_block_size (da_cfg a)) dvd unat k" "0 < unat (am_size m)"
    "unat (cfg_block_size (da_cfg a)) dvd unat (am_size m)"
    "unat k + unat (am_size m) \<le> unat (da_next_offset a)"
proof -
  from assms(1) have t: "tiles (cfg_block_size (da_cfg a)) 0 (da_allocations a) (unat (da_next_offset a))"
    and n: "unat (da_next_offset a) \<le> length (da_region a)" by (simp_all add: alloc_inv_def)
  from tiles_mem [OF t assms(2)] tiles_dvd [OF t _ assms(2)] n
  show "am_offset m = k" "unat k + unat (am_size m) \<le> length (da_region a)"
    "unat (cfg_block_size (da_cfg a)) dvd unat k" "0 < unat (am_size m)"
    "unat (cfg_block_size (da_cfg a)) dvd unat (am_size m)"
    "unat k + unat (am_size m) \<le> unat (da_next_offset a)"
    by auto
qed

section \<open>Range validation\<close>

text \<open>The abstract contract of range validation: the bytes lie inside one allocation.\<close>

definition in_allocation :: "DsmAllocator \<Rightarrow> GlobalAddr \<Rightarrow> u64 \<Rightarrow> bool" where
  "in_allocation a addr size' \<longleftrightarrow>
     (\<exists>m \<in> snd ` set (da_allocations a).
        unat (am_offset m) \<le> unat (ga_offset addr) \<and>
        unat (ga_offset addr) + unat size' \<le> unat (am_offset m) + unat (am_size m))"

lemma validate_iff_in_allocation:
  assumes inv: "alloc_inv a" and nw: "no_wrap (ga_offset addr) size'"
  shows "ValidateRangeUnlocked a addr size' \<longleftrightarrow>
     IsValid addr \<and> size' \<noteq> 0 \<and> ga_home_node addr = cfg_node_id (da_cfg a) \<and>
     cfg_block_size (da_cfg a) \<noteq> 0 \<and> in_allocation a addr size'"
proof -
  let ?off = "ga_offset addr"
  have apart: "entries_apart (da_allocations a)"
    using inv by (auto simp: alloc_inv_def intro: tiles_apart)
  have rs: "unat (region_size a) = length (da_region a)"
    using inv by (intro region_size_unat) (simp add: alloc_inv_def)
  have end_off: "unat (?off + size') = unat ?off + unat size'" by (rule unat_plus_no_wrap [OF nw])
  have fits: "(case floor_entry (da_allocations a) ?off of None \<Rightarrow> False
      | Some alloc \<Rightarrow> \<not> ?off < am_offset alloc \<and> \<not> am_size alloc < (?off - am_offset alloc) + size'
          \<and> \<not> region_size a < ?off + size') \<longleftrightarrow> in_allocation a addr size'" (is "?L \<longleftrightarrow> _")
    if sz: "size' \<noteq> 0"
  proof
    assume ?L
    then obtain m where m: "floor_entry (da_allocations a) ?off = Some m"
      and c: "\<not> am_size m < (?off - am_offset m) + size'" by (auto split: option.splits)
    from floor_entry_Some [OF m] obtain k where k: "(k, m) \<in> set (da_allocations a)" "k \<le> ?off" by blast
    note f = alloc_inv_lookup [OF inv k(1)]
    have rel: "unat (?off - k) = unat ?off - unat k" using k(2) by (rule unat_minus_le)
    have "no_wrap (?off - k) size'" using nw rel k(2) by (simp add: no_wrap_def word_le_nat_alt)
    then have "unat (?off - k + size') = unat ?off - unat k + unat size'"
      by (simp add: unat_plus_no_wrap rel)
    with c f(1) have "unat ?off - unat k + unat size' \<le> unat (am_size m)"
      by (simp add: word_less_nat_alt)
    then show "in_allocation a addr size'"
      unfolding in_allocation_def using k f(1) by (intro bexI [of _ m]) (auto simp: word_le_nat_alt intro: rev_image_eqI)
  next
    assume "in_allocation a addr size'"
    then obtain k m where k: "(k, m) \<in> set (da_allocations a)"
      and lo: "unat (am_offset m) \<le> unat ?off"
      and hi: "unat ?off + unat size' \<le> unat (am_offset m) + unat (am_size m)"
      by (auto simp: in_allocation_def)
    note f = alloc_inv_lookup [OF inv k]
    have "0 < unat size'" using sz by (simp add: unat_gt_0)
    then have hit: "floor_entry (da_allocations a) ?off = Some m"
      using lo hi f(1) by (intro floor_entry_hit [OF apart k]) (auto simp: word_le_nat_alt)
    have rel: "unat (?off - k) = unat ?off - unat k" using lo f(1) by (simp add: unat_minus_le word_le_nat_alt)
    have "no_wrap (?off - k) size'" using nw rel lo f(1) by (simp add: no_wrap_def)
    then have "unat (?off - k + size') = unat ?off - unat k + unat size'"
      by (simp add: unat_plus_no_wrap rel)
    then show ?L using hit lo hi f rs end_off by (auto simp: word_less_nat_alt)
  qed
  show ?thesis
    using fits by (auto simp: ValidateRangeUnlocked_def split: option.splits)
qed

section \<open>Allocation\<close>

lemma Init_alloc_inv:
  assumes "unat (cfg_local_region_size (da_cfg a)) < 2 ^ 63"
  shows "alloc_inv (snd (Allocator_Init a))"
  using assms by (simp add: alloc_inv_def Allocator_Init_def vec_resize_def)

text \<open>What one successful allocation does, when neither the rounding nor the bump can wrap.\<close>

lemma Allocate_success:
  assumes inv: "alloc_inv a" and small: "unat size' + unat (cfg_block_size (da_cfg a)) \<le> 2 ^ 63"
    and al: "Allocate a size' = (addr, a')" and valid: "IsValid addr"
  obtains m where "a' = a\<lparr>da_allocations := da_allocations a @ [(da_next_offset a, m)],
                          da_next_offset := da_next_offset a + am_size m\<rparr>"
    and "am_offset m = da_next_offset a" and "unat size' \<le> unat (am_size m)" and "0 < unat size'"
    and "unat (am_size m) < unat size' + unat (cfg_block_size (da_cfg a))"
    and "unat (cfg_block_size (da_cfg a)) dvd unat (am_size m)" and "cfg_block_size (da_cfg a) \<noteq> 0"
    and "unat (da_next_offset a) + unat (am_size m) \<le> length (da_region a)"
    and "addr = \<lparr>ga_home_node = cfg_node_id (da_cfg a), ga_region_id = kDefaultRegionId,
                 ga_offset = da_next_offset a\<rparr>"
proof -
  let ?bs = "cfg_block_size (da_cfg a)" and ?off = "da_next_offset a"
  let ?m = "\<lparr>am_offset = ?off, am_size = AlignUp size' ?bs\<rparr>"
  have nz: "size' \<noteq> 0" "?bs \<noteq> 0" and fit: "\<not> region_size a < ?off + AlignUp size' ?bs"
    and addr: "addr = \<lparr>ga_home_node = cfg_node_id (da_cfg a), ga_region_id = kDefaultRegionId, ga_offset = ?off\<rparr>"
    and a': "a' = a\<lparr>da_allocations := map_emplace ?off ?m (da_allocations a),
                    da_next_offset := ?off + AlignUp size' ?bs\<rparr>"
    using al valid by (auto simp: Allocate_def Let_def IsValid_def InvalidGlobalAddr_def split: if_splits)
  have bs: "0 < unat ?bs" and sz: "0 < unat size'" using nz by (simp_all add: unat_gt_0)
  have sm: "unat size' + unat ?bs \<le> 2 ^ 64" using small by simp
  note b = AlignUp_bounds [OF bs sm]
  have nxt: "unat ?off \<le> length (da_region a)" "length (da_region a) < 2 ^ 63"
    using inv by (simp_all add: alloc_inv_def)
  have "no_wrap ?off (AlignUp size' ?bs)" using nxt b(2) small by (simp add: no_wrap_def)
  then have bump: "unat (?off + AlignUp size' ?bs) = unat ?off + unat (AlignUp size' ?bs)"
    by (rule unat_plus_no_wrap)
  have rs: "unat (region_size a) = length (da_region a)"
    using nxt(2) by (intro region_size_unat) simp
  have "\<forall>x \<in> set (da_allocations a). fst x < ?off"
  proof
    fix x assume x: "x \<in> set (da_allocations a)"
    obtain k m where km: "x = (k, m)" by fastforce
    from alloc_inv_lookup (4,6) [OF inv, of k m] x km show "fst x < ?off"
      by (simp add: word_less_nat_alt)
  qed
  then have "map_emplace ?off ?m (da_allocations a) = da_allocations a @ [(?off, ?m)]"
    by (rule map_emplace_append)
  then show ?thesis
    using that [of ?m] a' addr b fit bump rs nz sz by (simp add: word_less_nat_alt)
qed

lemma Allocate_fresh:
  assumes inv: "alloc_inv a" and small: "unat size' + unat (cfg_block_size (da_cfg a)) \<le> 2 ^ 63"
    and al: "Allocate a size' = (addr, a')" and valid: "IsValid addr"
  shows "alloc_inv a'" and "ValidateRangeUnlocked a' addr size'"
    and "unat (cfg_block_size (da_cfg a)) dvd unat (ga_offset addr)"
    and "\<forall>(k, m) \<in> set (da_allocations a). unat k + unat (am_size m) \<le> unat (ga_offset addr)"
    and "set (da_allocations a) \<subseteq> set (da_allocations a')"
    and "da_region a' = da_region a" and "da_cfg a' = da_cfg a"
proof -
  from Allocate_success [OF assms] obtain m where
    a': "a' = a\<lparr>da_allocations := da_allocations a @ [(da_next_offset a, m)],
                da_next_offset := da_next_offset a + am_size m\<rparr>"
    and m: "am_offset m = da_next_offset a" "unat size' \<le> unat (am_size m)" "0 < unat size'"
    and d: "unat (cfg_block_size (da_cfg a)) dvd unat (am_size m)" "cfg_block_size (da_cfg a) \<noteq> 0"
    and fit: "unat (da_next_offset a) + unat (am_size m) \<le> length (da_region a)"
    and addr: "addr = \<lparr>ga_home_node = cfg_node_id (da_cfg a), ga_region_id = kDefaultRegionId,
                 ga_offset = da_next_offset a\<rparr>" by metis
  have inv': "length (da_region a) < 2 ^ 63"
    "tiles (cfg_block_size (da_cfg a)) 0 (da_allocations a) (unat (da_next_offset a))"
    using inv by (simp_all add: alloc_inv_def)
  have "no_wrap (da_next_offset a) (am_size m)" using fit inv'(1) by (simp add: no_wrap_def)
  then have bump: "unat (da_next_offset a + am_size m) = unat (da_next_offset a) + unat (am_size m)"
    by (rule unat_plus_no_wrap)
  show inv2: "alloc_inv a'"
    using inv' m d fit bump by (auto simp: alloc_inv_def a' tiles_append)
  have "in_allocation a' addr size'" using m by (auto simp: in_allocation_def a' addr)
  moreover have "no_wrap (ga_offset addr) size'" using m fit inv'(1) by (simp add: no_wrap_def addr)
  ultimately show "ValidateRangeUnlocked a' addr size'"
    using m(3) d(2) valid by (subst validate_iff_in_allocation [OF inv2]) (auto simp: a' addr)
  show "unat (cfg_block_size (da_cfg a)) dvd unat (ga_offset addr)"
    using tiles_dvd_end [OF inv'(2)] by (simp add: addr)
  show "\<forall>(k, m) \<in> set (da_allocations a). unat k + unat (am_size m) \<le> unat (ga_offset addr)"
    using alloc_inv_lookup(6) [OF inv] by (auto simp: addr)
  show "set (da_allocations a) \<subseteq> set (da_allocations a')" by (auto simp: a')
  show "da_region a' = da_region a" and "da_cfg a' = da_cfg a" by (simp_all add: a')
qed

text \<open>A request that does not fit, or is empty, changes nothing.\<close>

lemma Allocate_refused: "Allocate a size' = (addr, a') \<Longrightarrow> \<not> IsValid addr \<Longrightarrow>
   IsValid (addr\<lparr>ga_home_node := cfg_node_id (da_cfg a)\<rparr>) \<Longrightarrow> a' = a"
  by (auto simp: Allocate_def Let_def IsValid_def split: if_splits)

lemma Allocate_accepts_iff:
  assumes inv: "alloc_inv a" and small: "unat size' + unat (cfg_block_size (da_cfg a)) \<le> 2 ^ 63"
    and "size' \<noteq> 0" and "cfg_block_size (da_cfg a) \<noteq> 0" and "cfg_node_id (da_cfg a) \<noteq> kInvalidNodeId"
  shows "IsValid (fst (Allocate a size')) \<longleftrightarrow>
     unat (da_next_offset a) + unat (AlignUp size' (cfg_block_size (da_cfg a))) \<le> length (da_region a)"
proof -
  let ?bs = "cfg_block_size (da_cfg a)"
  have bs: "0 < unat ?bs" using assms(4) by (simp add: unat_gt_0)
  have sm: "unat size' + unat ?bs \<le> 2 ^ 64" using small by simp
  have nxt: "unat (da_next_offset a) \<le> length (da_region a)" "length (da_region a) < 2 ^ 63"
    using inv by (simp_all add: alloc_inv_def)
  have "no_wrap (da_next_offset a) (AlignUp size' ?bs)"
    using nxt AlignUp_bounds(2) [OF bs sm] small by (simp add: no_wrap_def)
  moreover have "unat (region_size a) = length (da_region a)"
    using nxt(2) by (intro region_size_unat) simp
  ultimately show ?thesis using assms(3-5)
    by (auto simp: Allocate_def Let_def IsValid_def InvalidGlobalAddr_def word_less_nat_alt unat_plus_no_wrap)
qed

section \<open>Block ranges\<close>

lemma block_range_covers:
  assumes "0 < bs" and "0 < n"
  shows "(off div bs \<le> i \<and> i \<le> (off + n - 1) div bs) \<longleftrightarrow> (\<exists>b. off \<le> b \<and> b < off + n \<and> b div bs = (i :: nat))"
proof
  assume i: "off div bs \<le> i \<and> i \<le> (off + n - 1) div bs"
  show "\<exists>b. off \<le> b \<and> b < off + n \<and> b div bs = i"
  proof (cases "off div bs = i")
    case True
    then show ?thesis using assms by (intro exI [of _ off]) auto
  next
    case False
    with i have lt: "off div bs < i" by simp
    then have "off < i * bs" using assms by (simp add: div_less_iff_less_mult)
    moreover have "i * bs \<le> off + n - 1" using i assms by (simp add: less_eq_div_iff_mult_less_eq)
    ultimately show ?thesis using assms by (intro exI [of _ "i * bs"]) auto
  qed
next
  assume "\<exists>b. off \<le> b \<and> b < off + n \<and> b div bs = i"
  then obtain b where b: "off \<le> b" "b < off + n" "b div bs = i" by blast
  then have "off div bs \<le> i" by (auto intro: div_le_mono)
  moreover have "b \<le> off + n - 1" using b by simp
  then have "i \<le> (off + n - 1) div bs" using b(3) by (auto intro: div_le_mono)
  ultimately show "off div bs \<le> i \<and> i \<le> (off + n - 1) div bs" by simp
qed

section \<open>Overflow\<close>

text \<open>An oversized request rounds to zero bytes and leaves an empty entry behind.\<close>

lemma Allocate_oversized:
  assumes "cfg_block_size (da_cfg a) \<noteq> 0" and "2 ^ 64 < unat size' + unat (cfg_block_size (da_cfg a))"
    and "alloc_inv a"
  shows "Allocate a size' =
    (\<lparr>ga_home_node = cfg_node_id (da_cfg a), ga_region_id = kDefaultRegionId, ga_offset = da_next_offset a\<rparr>,
     a\<lparr>da_allocations := da_allocations a @ [(da_next_offset a, \<lparr>am_offset = da_next_offset a, am_size = 0\<rparr>)]\<rparr>)"
proof -
  have nz: "size' \<noteq> 0" using assms(2) unat_u64_lt [of "cfg_block_size (da_cfg a)"] by auto
  have nxt: "unat (da_next_offset a) \<le> length (da_region a)" "length (da_region a) < 2 ^ 63"
    using assms(3) by (simp_all add: alloc_inv_def)
  have "unat (region_size a) = length (da_region a)" using nxt(2) by (intro region_size_unat) simp
  moreover have "\<forall>x \<in> set (da_allocations a). fst x < da_next_offset a"
    using alloc_inv_lookup(4,6) [OF assms(3)] by (fastforce simp: word_less_nat_alt)
  ultimately show ?thesis
    using nz nxt assms(1) by (simp add: Allocate_def AlignUp_overflow [OF assms(2)] word_less_nat_alt map_emplace_append)
qed

lemma map_emplace_present: "\<forall>x \<in> set xs. fst x < k \<Longrightarrow> map_emplace k v (xs @ [(k, w)]) = xs @ [(k, w)]"
  by (induction xs) auto

lemma floor_entry_last: "\<forall>x \<in> set xs. fst x \<le> off \<Longrightarrow> k \<le> off \<Longrightarrow> floor_entry (xs @ [(k, v)]) off = Some v"
  by (induction xs) (auto simp: floor_entry_def floor_entry_Cons)

section \<open>Properties\<close>

text \<open>
  C7: a successful \<^verbatim>\<open>Allocate\<close>, for a request that together with one block is at most
  \<open>2\<^sup>63\<close> bytes (larger ones can wrap), returns a block-aligned range of the local node that
  range validation accepts for the whole requested size, that begins at or after the end of
  every earlier allocation (so it overlaps none), keeps every earlier allocation and the
  contents of the region, and preserves the tiling invariant.
\<close>

theorem Allocate_returns_fresh_range:
  assumes "alloc_inv a" and "unat size' + unat (cfg_block_size (da_cfg a)) \<le> 2 ^ 63"
    and "Allocate a size' = (addr, a')" and "IsValid addr"
  shows "alloc_inv a' \<and> ValidateRangeUnlocked a' addr size' \<and>
    unat (cfg_block_size (da_cfg a)) dvd unat (ga_offset addr) \<and>
    (\<forall>(k, m) \<in> set (da_allocations a). unat k + unat (am_size m) \<le> unat (ga_offset addr)) \<and>
    set (da_allocations a) \<subseteq> set (da_allocations a') \<and> da_region a' = da_region a"
  using Allocate_fresh [OF assms] by blast

definition wit_cfg :: Config where
  "wit_cfg = default_config\<lparr>cfg_local_region_size := 64, cfg_block_size := 16\<rparr>"

lemma wit_cfg_sel [simp]:
  "cfg_local_region_size wit_cfg = 64" "cfg_block_size wit_cfg = 16" "cfg_node_id wit_cfg = 0"
  by (simp_all add: wit_cfg_def default_config_def)

definition wit_alloc :: DsmAllocator where
  "wit_alloc = snd (Allocator_Init (new_DsmAllocator wit_cfg))"

lemma wit_alloc_sel [simp]:
  "da_cfg wit_alloc = wit_cfg" "da_region wit_alloc = replicate 64 0" "da_next_offset wit_alloc = 0"
  "da_allocations wit_alloc = []" "region_size wit_alloc = 64"
  by (simp_all add: wit_alloc_def Allocator_Init_def new_DsmAllocator_def vec_resize_def region_size_def)

lemma wit_alloc_inv: "alloc_inv wit_alloc"
  by (simp add: alloc_inv_def)

definition wit_addr :: GlobalAddr where
  "wit_addr = \<lparr>ga_home_node = 0, ga_region_id = 0, ga_offset = 0\<rparr>"

definition wit_alloc1 :: DsmAllocator where
  "wit_alloc1 = wit_alloc\<lparr>da_allocations := [(0, \<lparr>am_offset = 0, am_size = 32\<rparr>)], da_next_offset := 32\<rparr>"

lemma wit_Allocate: "Allocate wit_alloc 20 = (wit_addr, wit_alloc1)"
  by (simp add: Allocate_def wit_alloc1_def wit_addr_def AlignUp_def kDefaultRegionId_def)

lemma wit_addr_valid: "IsValid wit_addr"
  by (simp add: IsValid_def wit_addr_def kInvalidNodeId_def)

theorem Allocate_returns_fresh_range_witness:
  "alloc_inv wit_alloc1 \<and> ValidateRangeUnlocked wit_alloc1 wit_addr 20"
  using Allocate_returns_fresh_range [OF wit_alloc_inv _ wit_Allocate wit_addr_valid] by simp

text \<open>
  C26: for a range whose end does not wrap, range validation accepts exactly the non-empty
  ranges of the local node whose bytes lie inside a single allocation.
\<close>

theorem ValidateRange_exact:
  assumes "alloc_inv a" and "no_wrap (ga_offset addr) size'"
  shows "ValidateRangeUnlocked a addr size' \<longleftrightarrow>
    IsValid addr \<and> size' \<noteq> 0 \<and> ga_home_node addr = cfg_node_id (da_cfg a) \<and>
    cfg_block_size (da_cfg a) \<noteq> 0 \<and>
    (\<exists>m \<in> snd ` set (da_allocations a).
       unat (am_offset m) \<le> unat (ga_offset addr) \<and>
       unat (ga_offset addr) + unat size' \<le> unat (am_offset m) + unat (am_size m))"
  using validate_iff_in_allocation [OF assms] unfolding in_allocation_def .

lemma wit_alloc1_inv: "alloc_inv wit_alloc1"
  by (rule Allocate_fresh(1) [OF wit_alloc_inv _ wit_Allocate wit_addr_valid]) simp

theorem ValidateRange_exact_witness:
  "ValidateRangeUnlocked wit_alloc1 (wit_addr\<lparr>ga_offset := 4\<rparr>) 28 \<and>
   \<not> ValidateRangeUnlocked wit_alloc1 (wit_addr\<lparr>ga_offset := 4\<rparr>) 29"
  using ValidateRange_exact [OF wit_alloc1_inv, of "wit_addr\<lparr>ga_offset := 4\<rparr>" 28]
    ValidateRange_exact [OF wit_alloc1_inv, of "wit_addr\<lparr>ga_offset := 4\<rparr>" 29]
  by (simp add: no_wrap_def wit_alloc1_def wit_addr_def IsValid_def kInvalidNodeId_def)

text \<open>
  C27: the block range that \<^verbatim>\<open>ResolveBlockRange\<close> returns for a local range whose end
  does not wrap contains exactly the blocks that hold at least one byte of the range, and its count is
  their number.
\<close>

theorem ResolveBlockRange_exact:
  assumes "no_wrap (ga_offset addr) size'"
    and "Allocator_ResolveBlockRange a addr size' = Some r"
  shows "(\<forall>i. bi_block_index (br_first r) \<le> i \<and> i \<le> bi_block_index (br_last r) \<longleftrightarrow>
      (\<exists>b. unat (ga_offset addr) \<le> b \<and> b < unat (ga_offset addr) + unat size' \<and>
           b div unat (cfg_block_size (da_cfg a)) = unat i)) \<and>
    unat (br_count r) = unat (bi_block_index (br_last r)) + 1 - unat (bi_block_index (br_first r))"
proof -
  let ?off = "ga_offset addr" and ?bs = "cfg_block_size (da_cfg a)"
  have v: "ValidateRangeUnlocked a addr size'" and r: "r =
      \<lparr>br_first = \<lparr>bi_region_id = ga_region_id addr, bi_block_index = ?off div ?bs\<rparr>,
       br_last = \<lparr>bi_region_id = ga_region_id addr, bi_block_index = (?off + size' - 1) div ?bs\<rparr>,
       br_count = (?off + size' - 1) div ?bs - ?off div ?bs + 1\<rparr>"
    using assms(2) by (auto simp: Allocator_ResolveBlockRange_def Let_def split: if_splits)
  have nz: "0 < unat ?bs" "0 < unat size'"
    using v by (auto simp: ValidateRangeUnlocked_def unat_gt_0 split: if_splits)
  have e: "unat (?off + size' - 1) = unat ?off + unat size' - 1"
    using assms(1) nz(2) by (intro unat_last_byte) auto
  have le: "?off div ?bs \<le> (?off + size' - 1) div ?bs"
    using nz by (simp add: word_le_nat_alt unat_div e div_le_mono)
  have "unat ((?off + size' - 1) div ?bs - ?off div ?bs + 1) =
      unat ((?off + size' - 1) div ?bs) + 1 - unat (?off div ?bs)"
  proof -
    have d: "unat ((?off + size' - 1) div ?bs - ?off div ?bs) =
        unat ((?off + size' - 1) div ?bs) - unat (?off div ?bs)" using le by (rule unat_minus_le)
    have "unat ((?off + size' - 1) div ?bs) \<le> unat (?off + size' - 1)" by (simp add: unat_div)
    then have "unat ((?off + size' - 1) div ?bs) + 1 < 2 ^ 64"
      using e nz(2) assms(1) by (simp add: no_wrap_def)
    then have "no_wrap ((?off + size' - 1) div ?bs - ?off div ?bs) 1" by (simp add: no_wrap_def d)
    then show ?thesis using le by (simp add: unat_plus_no_wrap d word_le_nat_alt)
  qed
  then show ?thesis
    using block_range_covers [OF nz] by (simp add: r word_le_nat_alt unat_div e)
qed

theorem ResolveBlockRange_exact_witness:
  "Allocator_ResolveBlockRange wit_alloc1 (wit_addr\<lparr>ga_offset := 4\<rparr>) 20 =
     Some \<lparr>br_first = \<lparr>bi_region_id = 0, bi_block_index = 0\<rparr>,
           br_last = \<lparr>bi_region_id = 0, bi_block_index = 1\<rparr>, br_count = 2\<rparr> \<and>
   unat (2 :: u64) = unat (1 :: u64) + 1 - unat (0 :: u64)"
proof -
  have r: "Allocator_ResolveBlockRange wit_alloc1 (wit_addr\<lparr>ga_offset := 4\<rparr>) 20 =
     Some \<lparr>br_first = \<lparr>bi_region_id = 0, bi_block_index = 0\<rparr>,
           br_last = \<lparr>bi_region_id = 0, bi_block_index = 1\<rparr>, br_count = 2\<rparr>"
    by (simp add: Allocator_ResolveBlockRange_def ValidateRangeUnlocked_def floor_entry_def wit_alloc1_def
        wit_addr_def IsValid_def kInvalidNodeId_def region_size_def)
  show ?thesis
    using ResolveBlockRange_exact [OF _ r] r by (simp add: no_wrap_def wit_addr_def)
qed



text \<open>
  C40: an oversized request, one whose rounding wraps, leaves an empty entry at the bump
  pointer; the next allocation reuses that key, its own entry is dropped, and the address it
  returns is rejected by range validation for every size.
\<close>

theorem oversized_request_poisons_next:
  assumes inv: "alloc_inv a" and bs: "cfg_block_size (da_cfg a) \<noteq> 0"
    and over: "2 ^ 64 < unat big + unat (cfg_block_size (da_cfg a))"
    and next_ok: "Allocate (snd (Allocate a big)) size' = (addr, a')" "IsValid addr"
  shows "\<not> ValidateRangeUnlocked a' addr n"
proof -
  let ?k = "da_next_offset a" and ?e = "\<lparr>am_offset = da_next_offset a, am_size = 0\<rparr>"
  have below: "\<forall>x \<in> set (da_allocations a). fst x < ?k"
    using alloc_inv_lookup(4,6) [OF inv] by (fastforce simp: word_less_nat_alt)
  have s: "snd (Allocate a big) = a\<lparr>da_allocations := da_allocations a @ [(?k, ?e)]\<rparr>"
    by (simp add: Allocate_oversized [OF bs over inv])
  have "da_allocations a' = da_allocations a @ [(?k, ?e)]" and off: "ga_offset addr = ?k"
    using next_ok below unfolding s
    by (auto simp: Allocate_def Let_def IsValid_def InvalidGlobalAddr_def map_emplace_present split: if_splits)
  then have "floor_entry (da_allocations a') (ga_offset addr) = Some ?e"
    using below by (simp add: floor_entry_last less_imp_le)
  then show ?thesis using off by (auto simp: ValidateRangeUnlocked_def word_gt_0)
qed

theorem oversized_request_poisons_next_witness:
  "\<not> ValidateRangeUnlocked (snd (Allocate (snd (Allocate wit_alloc (- 1))) 8))
       (fst (Allocate (snd (Allocate wit_alloc (- 1))) 8)) 8"
proof -
  have s: "snd (Allocate wit_alloc (- 1)) = wit_alloc\<lparr>da_allocations := [(0, \<lparr>am_offset = 0, am_size = 0\<rparr>)]\<rparr>"
    by (simp add: Allocate_oversized [OF _ _ wit_alloc_inv] unat_u64_max)
  show ?thesis
    by (rule oversized_request_poisons_next [OF wit_alloc_inv, of "- 1" 8])
       (simp_all add: s unat_u64_max, simp_all add: Allocate_def AlignUp_def region_size_def
          IsValid_def kInvalidNodeId_def no_wrap_def)
qed

end
