(* ===== verification/Cache_State.thy ===== *)
theory Cache_State
  imports Leo_Types
begin

text \<open>
  The state of \<^verbatim>\<open>CacheManager\<close> (\<^verbatim>\<open>src/memory/cache/cache_manager.{h,cc}\<close>) and
  its life cycle. The three jobs of the class are in the theories
  \<open>Cache_Profile\<close> (access profiling and coherence mode), \<open>Read_Cache\<close> (the LRU shadow
  cache of remote reads) and \<open>Write_Queue\<close> (destination queues of remote writes).

  \<^verbatim>\<open>std::unordered_map\<close> is an association list with distinct keys, read in iteration
  order; the results about it hold for every order. The list iterator \<^verbatim>\<open>lru_it\<close> of a
  cached value always points at the one list node that holds the value's own key, so it is
  identified with the key.
\<close>

record PendingRemoteWrite =
  pw_addr :: GlobalAddr
  pw_payload :: "byte list"
  pw_mode :: CoherenceMode
  pw_owner_biased :: bool
  pw_owner_handoff :: bool

record DrainedRemoteWriteBatch =
  db_writes :: "PendingRemoteWrite list"
  db_merged_writes :: u64
  db_total_bytes :: u64

record CacheKey =
  ck_addr :: GlobalAddr
  ck_size :: u64

record CacheStats =
  cs_evictions :: u64
  cs_resident_entries :: u64
  cs_resident_bytes :: u64

record CacheManager =
  cm_cfg :: Config
  cm_access_epoch :: u64
  cm_cached_bytes :: u64
  cm_eviction_count :: u64
  cm_lru :: "CacheKey list"
  cm_cached_reads :: "(CacheKey \<times> byte list) list"
  cm_write_queues :: "(NodeId \<times> PendingRemoteWrite list) list"

definition new_CacheManager :: "Config \<Rightarrow> CacheManager" where
  "new_CacheManager cfg = \<lparr>cm_cfg = cfg, cm_access_epoch = 0, cm_cached_bytes = 0,
     cm_eviction_count = 0, cm_lru = [], cm_cached_reads = [], cm_write_queues = []\<rparr>"

definition CacheManager_Init :: "CacheManager \<Rightarrow> Status \<times> CacheManager" where
  "CacheManager_Init cm =
     (kOk, cm\<lparr>cm_access_epoch := 0, cm_cached_bytes := 0, cm_eviction_count := 0,
              cm_lru := [], cm_cached_reads := [], cm_write_queues := []\<rparr>)"

definition CacheManager_Shutdown :: "CacheManager \<Rightarrow> Status \<times> CacheManager" where
  "CacheManager_Shutdown cm =
     (kOk, cm\<lparr>cm_cached_bytes := 0, cm_eviction_count := 0,
              cm_lru := [], cm_cached_reads := [], cm_write_queues := []\<rparr>)"

definition GetCacheStats :: "CacheManager \<Rightarrow> CacheStats" where
  "GetCacheStats cm = \<lparr>cs_evictions = cm_eviction_count cm,
     cs_resident_entries = of_nat (length (cm_cached_reads cm)),
     cs_resident_bytes = cm_cached_bytes cm\<rparr>"

unbundle bit_operations_syntax

definition CacheKeyHash :: "CacheKey \<Rightarrow> u64" where
  "CacheKeyHash key =
     (let seed = ucast (ga_home_node (ck_addr key));
          seed = seed XOR push_bit 8 (ucast (ga_region_id (ck_addr key)));
          seed = seed XOR push_bit 1 (ga_offset (ck_addr key))
      in seed XOR push_bit 3 (ck_size key))"

end
