(* ===== verification/Cache_Profile.thy ===== *)
theory Cache_Profile
  imports Cache_State Block_Table
begin

text \<open>
  Access profiling, the adaptive choice of the coherence mode and the admission test of
  \<^verbatim>\<open>CacheManager\<close>: \<^verbatim>\<open>ObserveAccess\<close>, \<^verbatim>\<open>DecideCoherenceMode\<close>,
  \<^verbatim>\<open>ShouldCache\<close> and \<^verbatim>\<open>EffectiveBatchThreshold\<close>.
\<close>

section \<open>Model\<close>

definition SafeWindowSize :: "u64 \<Rightarrow> u64" where
  "SafeWindowSize value' = max 1 value'"

definition DecideCoherenceMode :: "Config \<Rightarrow> BlockMeta \<Rightarrow> CoherenceMode" where
  "DecideCoherenceMode cfg meta =
     (if 0 \<le> cfg_coherence_mode_override cfg \<and> cfg_coherence_mode_override cfg \<le> mode_int kAdaptive
      then mode_of_int (cfg_coherence_mode_override cfg)
      else
        let window_reads = double_of_u64 (bm_window_reads meta);
            window_writes = double_of_u64 (bm_window_writes meta);
            total = double_add window_reads window_writes in
        if total = 0 then kWI
        else
          let write_ratio = double_div window_writes total;
              phase_change_ratio = double_div (double_of_u64 (bm_phase_change_count meta)) total in
          if double_ge write_ratio (cfg_coherence_write_dominant_ratio cfg) \<or>
             double_ge phase_change_ratio (cfg_coherence_phase_change_promote_ratio cfg)
          then kWI
          else if cfg_coherence_sharer_promote_threshold cfg \<le> ucast (bm_sharer_count meta) \<or>
                  cfg_coherence_invalidation_promote_threshold cfg \<le> bm_invalidation_cost meta
          then kAdaptive
          else kSI)"

text \<open>The numeric value an access type is stored as.\<close>

fun access_type_value :: "AccessType \<Rightarrow> u32" where
  "access_type_value kRead = 0"
| "access_type_value kWrite = 1"

text \<open>
  The part of \<^verbatim>\<open>ObserveAccess\<close> that runs on a non-null pointer, before the mode is
  decided: window turnover, reuse distance, phase change, access counters.
\<close>

definition observe_profile :: "u64 \<Rightarrow> u64 \<Rightarrow> AccessType \<Rightarrow> bool \<Rightarrow> BlockMeta \<Rightarrow> BlockMeta" where
  "observe_profile epoch window_size type is_local meta =
     (let last_epoch = bm_last_access_epoch meta;
          meta = meta\<lparr>bm_last_access_epoch := epoch\<rparr>;
          window_id = (epoch - 1) div window_size;
          meta = (if bm_window_id meta \<noteq> window_id
                  then meta\<lparr>bm_window_id := window_id, bm_window_reads := 0,
                            bm_window_writes := 0, bm_phase_change_count := 0\<rparr>
                  else meta);
          meta = meta\<lparr>bm_access_epoch := epoch\<rparr>;
          meta = (if last_epoch \<noteq> 0 then meta\<lparr>bm_last_reuse_distance := epoch - last_epoch\<rparr> else meta);
          meta = (if last_epoch \<noteq> 0 \<and> bm_last_access_type meta \<noteq> access_type_value type
                  then meta\<lparr>bm_phase_change_count := bm_phase_change_count meta + 1\<rparr> else meta);
          meta = meta\<lparr>bm_last_access_type := access_type_value type\<rparr>
      in case type of
           kRead \<Rightarrow>
             let meta = meta\<lparr>bm_read_count := bm_read_count meta + 1,
                             bm_window_reads := bm_window_reads meta + 1\<rparr>
             in if \<not> is_local then meta\<lparr>bm_sharer_count := bm_sharer_count meta + 1\<rparr> else meta
         | kWrite \<Rightarrow>
             let meta = meta\<lparr>bm_write_count := bm_write_count meta + 1,
                             bm_window_writes := bm_window_writes meta + 1\<rparr>
             in if \<not> is_local then meta\<lparr>bm_invalidation_cost := bm_invalidation_cost meta + 1\<rparr> else meta)"

definition ObserveAccess ::
    "CacheManager \<Rightarrow> BlockMeta option \<Rightarrow> AccessType \<Rightarrow> bool \<Rightarrow>
     CoherenceMode \<times> CacheManager \<times> BlockMeta option" where
  "ObserveAccess cm meta_ptr type is_local =
     (case meta_ptr of
        None \<Rightarrow> (kWI, cm, None)
      | Some meta \<Rightarrow>
          let epoch = cm_access_epoch cm + 1;
              cm = cm\<lparr>cm_access_epoch := epoch\<rparr>;
              window_size = SafeWindowSize (cfg_profiling_window_size (cm_cfg cm));
              meta = observe_profile epoch window_size type is_local meta;
              next_mode = DecideCoherenceMode (cm_cfg cm) meta;
              previous_mode = bm_mode meta;
              meta = meta\<lparr>bm_mode := next_mode\<rparr>;
              meta = (if previous_mode \<noteq> next_mode
                      then meta\<lparr>bm_coherence_switch_count := bm_coherence_switch_count meta + 1\<rparr>
                      else meta)
          in (next_mode, cm, Some meta))"

definition ShouldCache :: "Config \<Rightarrow> BlockMeta option \<Rightarrow> bool" where
  "ShouldCache cfg meta_ptr =
     (case meta_ptr of
        None \<Rightarrow> False
      | Some meta \<Rightarrow>
          if \<not> cfg_enable_cache cfg then False
          else if cfg_cache_admission_policy cfg = 1 then True
          else if cfg_cache_admission_policy cfg = 2 then False
          else
            let window_reads = double_of_u64 (bm_window_reads meta);
                window_writes = double_of_u64 (bm_window_writes meta);
                window_total = double_add window_reads window_writes in
            if window_total = 0 then False
            else
              let read_ratio = double_div window_reads window_total;
                  phase_change_ratio = double_div (double_of_u64 (bm_phase_change_count meta)) window_total
              in cfg_cache_admission_min_reads cfg \<le> bm_read_count meta \<and>
                 bm_write_count meta \<le> cfg_cache_admission_max_writes cfg \<and>
                 ucast (bm_sharer_count meta) \<le> cfg_cache_admission_max_sharers cfg \<and>
                 bm_last_reuse_distance meta \<le> cfg_cache_admission_max_reuse_distance cfg \<and>
                 double_ge read_ratio (cfg_cache_admission_min_read_ratio cfg) \<and>
                 double_le phase_change_ratio (cfg_cache_admission_max_phase_change_ratio cfg) \<and>
                 bm_mode meta \<noteq> kWI \<and>
                 bm_invalidation_cost meta \<le> bm_write_count meta + 1)"

definition EffectiveBatchThreshold :: "Config \<Rightarrow> CoherenceMode \<Rightarrow> u64" where
  "EffectiveBatchThreshold cfg mode =
     (case mode of
        kWI \<Rightarrow> 1
      | kAdaptive \<Rightarrow> max 1 (cfg_adaptive_mode_batch_threshold cfg)
      | kSI \<Rightarrow> max 1 (cfg_remote_write_batch_threshold cfg)
      | kModeValue v \<Rightarrow> 1)"

end
