(* ===== verification/Global_Memory.thy ===== *)
theory Global_Memory
  imports Leo_Types
begin

text \<open>
  The specification the data path is measured against: one flat byte memory per node and
  region, \<open>load\<close> and \<open>store\<close> on it, and the contract of a read-through cache in front of it.
  Nothing here models code; the components below are interpreted in the contract.
\<close>

section \<open>Abstract memory\<close>

type_synonym Memory = "NodeId \<Rightarrow> RegionId \<Rightarrow> nat \<Rightarrow> byte"

definition load :: "Memory \<Rightarrow> GlobalAddr \<Rightarrow> nat \<Rightarrow> byte list" where
  "load M addr n = map (\<lambda>i. M (ga_home_node addr) (ga_region_id addr) (unat (ga_offset addr) + i)) [0..<n]"

definition in_bytes :: "GlobalAddr \<Rightarrow> nat \<Rightarrow> NodeId \<Rightarrow> RegionId \<Rightarrow> nat \<Rightarrow> bool" where
  "in_bytes addr n node region i \<longleftrightarrow> node = ga_home_node addr \<and> region = ga_region_id addr \<and>
     unat (ga_offset addr) \<le> i \<and> i < unat (ga_offset addr) + n"

definition store :: "Memory \<Rightarrow> GlobalAddr \<Rightarrow> byte list \<Rightarrow> Memory" where
  "store M addr bs = (\<lambda>node region i.
     if in_bytes addr (length bs) node region i then bs ! (i - unat (ga_offset addr)) else M node region i)"

text \<open>A non-empty range that does not run past the end of the 64-bit address space.\<close>

definition in_space :: "GlobalAddr \<Rightarrow> u64 \<Rightarrow> bool" where
  "in_space addr n \<longleftrightarrow> n \<noteq> 0 \<and> no_wrap (ga_offset addr) n"

lemma load_length [simp]: "length (load M addr n) = n"
  by (simp add: load_def)

lemma load_nth [simp]:
  "i < n \<Longrightarrow> load M addr n ! i = M (ga_home_node addr) (ga_region_id addr) (unat (ga_offset addr) + i)"
  by (simp add: load_def)

lemma load_store_same [simp]: "load (store M addr bs) addr (length bs) = bs"
  by (intro nth_equalityI) (auto simp: store_def in_bytes_def)

lemma load_store_disjoint:
  "(\<And>node region i. \<not> (in_bytes a n node region i \<and> in_bytes b (length bs) node region i)) \<Longrightarrow>
   load (store M b bs) a n = load M a n"
  by (intro nth_equalityI) (auto simp: store_def in_bytes_def)

lemma load_sub:
  assumes "ga_home_node b = ga_home_node a" "ga_region_id b = ga_region_id a"
    and "unat (ga_offset b) = unat (ga_offset a) + d" "d + m \<le> n"
  shows "take m (drop d (load M a n)) = load M b m"
  using assms by (intro nth_equalityI) (auto simp: algebra_simps)

section \<open>The contract of a read-through cache\<close>

text \<open>
  A client reads and writes memory through a cache: a read that hits returns the cached bytes,
  a read that misses loads memory and inserts the bytes, a write changes memory and invalidates
  the range it wrote.
\<close>

datatype mem_event = ReadEv GlobalAddr u64 | WriteEv GlobalAddr "byte list"

fun event_in_space :: "mem_event \<Rightarrow> bool" where
  "event_in_space (ReadEv addr n) = in_space addr n"
| "event_in_space (WriteEv addr bs) = (in_space addr (of_nat (length bs)) \<and> length bs < 2 ^ 64)"

fun memory_run :: "Memory \<Rightarrow> mem_event list \<Rightarrow> byte list list \<times> Memory" where
  "memory_run M [] = ([], M)"
| "memory_run M (ReadEv addr n # evs) =
     (let (out, M') = memory_run M evs in (load M addr (unat n) # out, M'))"
| "memory_run M (WriteEv addr bs # evs) = memory_run (store M addr bs) evs"

fun cached_run ::
    "('c \<Rightarrow> GlobalAddr \<Rightarrow> u64 \<Rightarrow> (byte list option \<times> 'c) option) \<Rightarrow>
     ('c \<Rightarrow> GlobalAddr \<Rightarrow> byte list \<Rightarrow> u64 \<Rightarrow> 'c option) \<Rightarrow>
     ('c \<Rightarrow> GlobalAddr \<Rightarrow> u64 \<Rightarrow> 'c) \<Rightarrow>
     Memory \<Rightarrow> 'c \<Rightarrow> mem_event list \<Rightarrow> (byte list list \<times> Memory \<times> 'c) option" where
  "cached_run lookup ins inval M c [] = Some ([], M, c)"
| "cached_run lookup ins inval M c (ReadEv addr n # evs) =
     do { (hit, c) \<leftarrow> lookup c addr n;
          (bytes, c) \<leftarrow> (case hit of
                            Some bytes \<Rightarrow> Some (bytes, c)
                          | None \<Rightarrow> do { c \<leftarrow> ins c addr (load M addr (unat n)) n;
                                         Some (load M addr (unat n), c) });
          (out, M, c) \<leftarrow> cached_run lookup ins inval M c evs;
          Some (bytes # out, M, c) }"
| "cached_run lookup ins inval M c (WriteEv addr bs # evs) =
     cached_run lookup ins inval (store M addr bs) (inval c addr (of_nat (length bs))) evs"

locale read_through_cache =
  fixes lookup :: "'c \<Rightarrow> GlobalAddr \<Rightarrow> u64 \<Rightarrow> (byte list option \<times> 'c) option"
    and ins :: "'c \<Rightarrow> GlobalAddr \<Rightarrow> byte list \<Rightarrow> u64 \<Rightarrow> 'c option"
    and inval :: "'c \<Rightarrow> GlobalAddr \<Rightarrow> u64 \<Rightarrow> 'c"
    and good :: "Memory \<Rightarrow> 'c \<Rightarrow> bool"
  assumes lookup_good:
      "good M c \<Longrightarrow> in_space addr n \<Longrightarrow>
       \<exists>hit c'. lookup c addr n = Some (hit, c') \<and> good M c' \<and> hit \<in> {None, Some (load M addr (unat n))}"
    and ins_good:
      "good M c \<Longrightarrow> in_space addr n \<Longrightarrow> \<exists>c'. ins c addr (load M addr (unat n)) n = Some c' \<and> good M c'"
    and inval_good:
      "good M c \<Longrightarrow> in_space addr (of_nat (length bs)) \<Longrightarrow> length bs < 2 ^ 64 \<Longrightarrow>
       good (store M addr bs) (inval c addr (of_nat (length bs)))"
begin

lemma read_good:
  assumes "good M c" "in_space addr n"
  shows "\<exists>c' c''. good M c'' \<and>
    (lookup c addr n = Some (Some (load M addr (unat n)), c'') \<or>
     lookup c addr n = Some (None, c') \<and> ins c' addr (load M addr (unat n)) n = Some c'')"
  using lookup_good [OF assms] ins_good [OF _ assms(2)] by blast

lemma transparent:
  "good M c \<Longrightarrow> list_all event_in_space evs \<Longrightarrow>
   \<exists>c'. cached_run lookup ins inval M c evs =
          Some (fst (memory_run M evs), snd (memory_run M evs), c') \<and>
        good (snd (memory_run M evs)) c'"
proof (induction evs arbitrary: M c)
  case Nil
  then show ?case by simp
next
  case (Cons ev evs)
  show ?case
  proof (cases ev)
    case (ReadEv addr n)
    with Cons.prems have "in_space addr n" by simp
    from read_good [OF Cons.prems(1) this] obtain c' c'' where good: "good M c''"
      and run: "lookup c addr n = Some (Some (load M addr (unat n)), c'') \<or>
        lookup c addr n = Some (None, c') \<and> ins c' addr (load M addr (unat n)) n = Some c''"
      by blast
    have "list_all event_in_space evs" using Cons.prems by simp
    from Cons.IH [OF good this] run show ?thesis
      unfolding ReadEv by (auto simp: split_beta)
  next
    case (WriteEv addr bs)
    with Cons.prems inval_good have "good (store M addr bs) (inval c addr (of_nat (length bs)))" by simp
    with Cons.IH Cons.prems(2) show ?thesis unfolding WriteEv by simp
  qed
qed

end

section \<open>The contract of a memory\<close>

text \<open>
  A component that is read and written like a memory: a read of a usable range returns the bytes
  of the memory behind it, a write of one replaces them. \<open>kept\<close> says that the usable ranges stay
  the same.
\<close>

fun program_run ::
    "('p \<Rightarrow> GlobalAddr \<Rightarrow> u64 \<Rightarrow> (Status \<times> byte list \<times> 'p) option) \<Rightarrow>
     ('p \<Rightarrow> GlobalAddr \<Rightarrow> byte list \<Rightarrow> u64 \<Rightarrow> (Status \<times> 'p) option) \<Rightarrow>
     'p \<Rightarrow> mem_event list \<Rightarrow> (byte list list \<times> 'p) option" where
  "program_run rd wr p [] = Some ([], p)"
| "program_run rd wr p (ReadEv addr n # evs) =
     do { (s, bytes, p) \<leftarrow> rd p addr n;
          (out, p) \<leftarrow> program_run rd wr p evs;
          Some (bytes # out, p) }"
| "program_run rd wr p (WriteEv addr bs # evs) =
     do { (s, p) \<leftarrow> wr p addr bs (of_nat (length bs));
          program_run rd wr p evs }"

fun event_usable :: "(GlobalAddr \<Rightarrow> u64 \<Rightarrow> bool) \<Rightarrow> mem_event \<Rightarrow> bool" where
  "event_usable usable (ReadEv addr n) = usable addr n"
| "event_usable usable (WriteEv addr bs) = (usable addr (of_nat (length bs)) \<and> length bs < 2 ^ 64)"

locale byte_memory =
  fixes rd :: "'p \<Rightarrow> GlobalAddr \<Rightarrow> u64 \<Rightarrow> (Status \<times> byte list \<times> 'p) option"
    and wr :: "'p \<Rightarrow> GlobalAddr \<Rightarrow> byte list \<Rightarrow> u64 \<Rightarrow> (Status \<times> 'p) option"
    and mem :: "'p \<Rightarrow> Memory"
    and usable :: "'p \<Rightarrow> GlobalAddr \<Rightarrow> u64 \<Rightarrow> bool"
    and good :: "'p \<Rightarrow> bool"
    and kept :: "'p \<Rightarrow> 'p \<Rightarrow> bool"
  assumes read_usable:
      "good p \<Longrightarrow> usable p addr n \<Longrightarrow>
       \<exists>p'. rd p addr n = Some (kOk, load (mem p) addr (unat n), p') \<and> good p' \<and> mem p' = mem p \<and> kept p p'"
    and write_usable:
      "good p \<Longrightarrow> usable p addr n \<Longrightarrow> unat n \<le> length bs \<Longrightarrow>
       \<exists>p'. wr p addr bs n = Some (kOk, p') \<and> good p' \<and>
         mem p' = store (mem p) addr (take (unat n) bs) \<and> kept p p'"
    and kept_refl: "kept p p"
    and kept_trans: "kept p q \<Longrightarrow> kept q r \<Longrightarrow> kept p r"
    and kept_usable: "kept p q \<Longrightarrow> usable q = usable p"
begin

lemma write_read:
  assumes "good p" "usable p addr n" "unat n = length bs"
  shows "\<exists>p' p''. wr p addr bs n = Some (kOk, p') \<and> rd p' addr n = Some (kOk, bs, p'') \<and>
    mem p' = store (mem p) addr bs \<and> mem p'' = mem p' \<and> good p'' \<and> kept p p''"
proof -
  obtain p' where w: "wr p addr bs n = Some (kOk, p')" "good p'"
    "mem p' = store (mem p) addr (take (unat n) bs)" "kept p p'"
    using write_usable [OF assms(1,2), of bs] assms(3) by auto
  have "usable p' addr n" using kept_usable [OF w(4)] assms(2) by simp
  from read_usable [OF w(2) this] obtain p'' where
    "rd p' addr n = Some (kOk, load (mem p') addr (unat n), p'')" "good p''" "mem p'' = mem p'" "kept p' p''"
    by blast
  with w assms(3) kept_trans [OF w(4)] show ?thesis by auto
qed

lemma program_refines:
  assumes "good p" "list_all (event_usable (usable p)) evs"
  shows "\<exists>p'. program_run rd wr p evs = Some (fst (memory_run (mem p) evs), p') \<and>
    mem p' = snd (memory_run (mem p) evs) \<and> good p' \<and> kept p p'"
  using assms
proof (induction evs arbitrary: p)
  case Nil
  then show ?case using kept_refl by simp
next
  case (Cons ev evs)
  have step: ?case if "good q" "kept p q" and
    run: "\<And>out p'. program_run rd wr q evs = Some (out, p') \<Longrightarrow>
      program_run rd wr p (ev # evs) = Some (pre @ out, p')" and
    spec: "memory_run (mem p) (ev # evs) = (pre @ fst (memory_run (mem q) evs), snd (memory_run (mem q) evs))"
    for q pre
  proof -
    have "list_all (event_usable (usable q)) evs" using Cons.prems(2) kept_usable [OF that(2)] by simp
    from Cons.IH [OF that(1) this] obtain p' where "program_run rd wr q evs = Some (fst (memory_run (mem q) evs), p')"
      "mem p' = snd (memory_run (mem q) evs)" "good p'" "kept q p'" by blast
    with run spec kept_trans [OF that(2)] show ?thesis by auto
  qed
  show ?case
  proof (cases ev)
    case (ReadEv addr n)
    with Cons.prems have "usable p addr n" by simp
    from read_usable [OF Cons.prems(1) this] obtain q where
      q: "rd p addr n = Some (kOk, load (mem p) addr (unat n), q)" "good q" "mem q = mem p" "kept p q" by blast
    show ?thesis
      by (rule step [OF q(2,4), of "[load (mem p) addr (unat n)]"]) (simp_all add: ReadEv q(1,3) split_beta)
  next
    case (WriteEv addr bs)
    with Cons.prems have "usable p addr (of_nat (length bs))" "length bs < 2 ^ 64" by simp_all
    with write_usable [OF Cons.prems(1) this(1), of bs] obtain q where
      q: "wr p addr bs (of_nat (length bs)) = Some (kOk, q)" "good q" "mem q = store (mem p) addr bs" "kept p q"
      by (auto simp: unat_of_nat_u64)
    show ?thesis by (rule step [OF q(2,4), of "[]"]) (simp_all add: WriteEv q(1,3))
  qed
qed

end

end
