(* ===== verification/Read_Cache.thy ===== *)
theory Read_Cache
  imports Cache_State Global_Memory
begin

text \<open>
  The LRU shadow cache of remote reads: \<^verbatim>\<open>TryReadCached\<close>, \<^verbatim>\<open>InsertCached\<close>,
  \<^verbatim>\<open>Invalidate\<close>, \<^verbatim>\<open>InvalidateRange\<close>, \<^verbatim>\<open>TouchLocked\<close> and
  \<^verbatim>\<open>EvictIfNeededLocked\<close> of \<^verbatim>\<open>CacheManager\<close>.
\<close>

section \<open>Model\<close>

definition RangesOverlap :: "GlobalAddr \<Rightarrow> u64 \<Rightarrow> GlobalAddr \<Rightarrow> u64 \<Rightarrow> bool" where
  "RangesOverlap lhs_addr lhs_size rhs_addr rhs_size =
     (if ga_home_node lhs_addr \<noteq> ga_home_node rhs_addr then False
      else if ga_region_id lhs_addr \<noteq> ga_region_id rhs_addr then False
      else
        let lhs_begin = ga_offset lhs_addr;
            lhs_end = ga_offset lhs_addr + lhs_size;
            rhs_begin = ga_offset rhs_addr;
            rhs_end = ga_offset rhs_addr + rhs_size
        in \<not> (lhs_end \<le> rhs_begin \<or> rhs_end \<le> lhs_begin))"

definition TouchLocked :: "CacheManager \<Rightarrow> CacheKey \<Rightarrow> CacheManager" where
  "TouchLocked cm key = cm\<lparr>cm_lru := key # remove1 key (cm_lru cm)\<rparr>"

text \<open>The loop of \<^verbatim>\<open>EvictIfNeededLocked\<close>, for a non-zero capacity.\<close>

function evict_loop :: "u64 \<Rightarrow> CacheManager \<Rightarrow> CacheManager" where
  "evict_loop incoming_bytes cm =
     (if cm_lru cm \<noteq> [] \<and> cfg_cache_capacity_bytes (cm_cfg cm) < cm_cached_bytes cm + incoming_bytes
      then
        let victim = List.last (cm_lru cm) in
        case map_of (cm_cached_reads cm) victim of
          None \<Rightarrow> evict_loop incoming_bytes (cm\<lparr>cm_lru := butlast (cm_lru cm)\<rparr>)
        | Some payload \<Rightarrow>
            evict_loop incoming_bytes
              (cm\<lparr>cm_cached_bytes := cm_cached_bytes cm - of_nat (length payload),
                  cm_lru := butlast (cm_lru cm),
                  cm_cached_reads := AList.delete victim (cm_cached_reads cm),
                  cm_eviction_count := cm_eviction_count cm + 1\<rparr>)
      else cm)"
  by pat_completeness auto
termination
  by (relation "measure (\<lambda>(n, cm). length (cm_lru cm))") auto

declare evict_loop.simps [simp del]

definition EvictIfNeededLocked :: "CacheManager \<Rightarrow> u64 \<Rightarrow> CacheManager" where
  "EvictIfNeededLocked cm incoming_bytes =
     (if cfg_cache_capacity_bytes (cm_cfg cm) = 0 then cm else evict_loop incoming_bytes cm)"

text \<open>
  The test of the scan in \<^verbatim>\<open>TryReadCached\<close>: a cached entry serves the request when it
  starts no later and ends no earlier; both ends are computed in 64 bits.
\<close>

definition covers :: "CacheKey \<Rightarrow> GlobalAddr \<Rightarrow> u64 \<Rightarrow> bool" where
  "covers cached_key addr size' \<longleftrightarrow>
     ga_home_node (ck_addr cached_key) = ga_home_node addr \<and>
     ga_region_id (ck_addr cached_key) = ga_region_id addr \<and>
     ga_offset (ck_addr cached_key) \<le> ga_offset addr \<and>
     ga_offset addr + size' \<le> ga_offset (ck_addr cached_key) + ck_size cached_key"

text \<open>
  The result is \<open>Some (Some bytes, _)\<close> for a hit that copied \<open>bytes\<close>, \<open>Some (None, _)\<close> for a
  miss and \<open>None\<close> for a copy outside the cached payload.
\<close>

definition TryReadCached ::
    "CacheManager \<Rightarrow> GlobalAddr \<Rightarrow> bool \<Rightarrow> u64 \<Rightarrow> (byte list option \<times> CacheManager) option" where
  "TryReadCached cm addr buf_ok size' =
     (if \<not> buf_ok \<or> size' = 0 then Some (None, cm)
      else
        let key = \<lparr>ck_addr = addr, ck_size = size'\<rparr> in
        case map_of (cm_cached_reads cm) key of
          Some payload \<Rightarrow>
            do { bytes \<leftarrow> mem_read payload 0 size'; Some (Some bytes, TouchLocked cm key) }
        | None \<Rightarrow>
            (case find (\<lambda>(k, v). covers k addr size') (cm_cached_reads cm) of
               Some (cached_key, payload) \<Rightarrow>
                 do { bytes \<leftarrow> mem_read payload (ga_offset addr - ga_offset (ck_addr cached_key)) size';
                      Some (Some bytes, TouchLocked cm cached_key) }
             | None \<Rightarrow> Some (None, cm)))"

text \<open>\<open>buf\<close> is the caller's buffer, \<open>None\<close> for a null pointer.\<close>

definition InsertCached ::
    "CacheManager \<Rightarrow> GlobalAddr \<Rightarrow> byte list option \<Rightarrow> u64 \<Rightarrow> CacheManager option" where
  "InsertCached cm addr buf size' =
     (case buf of
        None \<Rightarrow> Some cm
      | Some src \<Rightarrow>
          if size' = 0 \<or> \<not> cfg_enable_cache (cm_cfg cm) then Some cm
          else if cfg_cache_capacity_bytes (cm_cfg cm) \<noteq> 0 \<and> cfg_cache_capacity_bytes (cm_cfg cm) < size'
          then Some cm
          else
            let key = \<lparr>ck_addr = addr, ck_size = size'\<rparr> in
            case map_of (cm_cached_reads cm) key of
              Some payload \<Rightarrow>
                do { bytes \<leftarrow> mem_read src 0 size';
                     let cm = (if length payload \<noteq> unat size'
                               then cm\<lparr>cm_cached_bytes := cm_cached_bytes cm - of_nat (length payload) + size'\<rparr>
                               else cm);
                         cm = cm\<lparr>cm_cached_reads := AList.update key bytes (cm_cached_reads cm)\<rparr>
                     in Some (EvictIfNeededLocked (TouchLocked cm key) 0) }
            | None \<Rightarrow>
                do { bytes \<leftarrow> mem_read src 0 size';
                     let cm = EvictIfNeededLocked cm size'
                     in Some (cm\<lparr>cm_lru := key # cm_lru cm,
                                 cm_cached_bytes := cm_cached_bytes cm + size',
                                 cm_cached_reads := AList.update key bytes (cm_cached_reads cm)\<rparr>) })"

definition Invalidate :: "CacheManager \<Rightarrow> GlobalAddr \<Rightarrow> u64 \<Rightarrow> u64 \<times> CacheManager" where
  "Invalidate cm addr size' =
     (let key = \<lparr>ck_addr = addr, ck_size = size'\<rparr> in
      case map_of (cm_cached_reads cm) key of
        None \<Rightarrow> (0, cm)
      | Some payload \<Rightarrow>
          (1, cm\<lparr>cm_cached_bytes := cm_cached_bytes cm - of_nat (length payload),
                 cm_lru := remove1 key (cm_lru cm),
                 cm_cached_reads := AList.delete key (cm_cached_reads cm)\<rparr>))"

text \<open>The iteration of \<^verbatim>\<open>InvalidateRange\<close> over the entries of the table.\<close>

fun invalidate_entries ::
    "GlobalAddr \<Rightarrow> u64 \<Rightarrow> (CacheKey \<times> byte list) list \<Rightarrow> u64 \<times> CacheManager \<Rightarrow> u64 \<times> CacheManager" where
  "invalidate_entries addr size' [] (removed, cm) = (removed, cm)"
| "invalidate_entries addr size' ((key, payload) # rest) (removed, cm) =
     (if RangesOverlap (ck_addr key) (ck_size key) addr size'
      then invalidate_entries addr size' rest
             (removed + 1,
              cm\<lparr>cm_cached_bytes := cm_cached_bytes cm - of_nat (length payload),
                 cm_lru := remove1 key (cm_lru cm),
                 cm_cached_reads := AList.delete key (cm_cached_reads cm)\<rparr>)
      else invalidate_entries addr size' rest (removed, cm))"

definition InvalidateRange :: "CacheManager \<Rightarrow> GlobalAddr \<Rightarrow> u64 \<Rightarrow> u64 \<times> CacheManager" where
  "InvalidateRange cm addr size' = invalidate_entries addr size' (cm_cached_reads cm) (0, cm)"

section \<open>Ranges\<close>

definition same_space :: "GlobalAddr \<Rightarrow> GlobalAddr \<Rightarrow> bool" where
  "same_space a b \<longleftrightarrow> ga_home_node a = ga_home_node b \<and> ga_region_id a = ga_region_id b"

lemma RangesOverlap_nat:
  assumes "no_wrap (ga_offset a) n" "no_wrap (ga_offset b) m"
  shows "RangesOverlap a n b m \<longleftrightarrow> same_space a b \<and>
    unat (ga_offset b) < unat (ga_offset a) + unat n \<and> unat (ga_offset a) < unat (ga_offset b) + unat m"
  using assms by (auto simp: RangesOverlap_def same_space_def Let_def word_le_nat_alt unat_plus_no_wrap)

lemma RangesOverlap_iff:
  assumes "in_space a n" "in_space b m"
  shows "RangesOverlap a n b m \<longleftrightarrow>
    (\<exists>node region i. in_bytes a (unat n) node region i \<and> in_bytes b (unat m) node region i)"
proof -
  have pos: "0 < unat n" "0 < unat m" using assms by (auto simp: in_space_def unat_gt_0)
  have nw: "no_wrap (ga_offset a) n" "no_wrap (ga_offset b) m" using assms by (auto simp: in_space_def)
  show ?thesis
  proof
    assume "RangesOverlap a n b m"
    then have "in_bytes a (unat n) (ga_home_node a) (ga_region_id a) (max (unat (ga_offset a)) (unat (ga_offset b)))
      \<and> in_bytes b (unat m) (ga_home_node a) (ga_region_id a) (max (unat (ga_offset a)) (unat (ga_offset b)))"
      using pos by (auto simp: RangesOverlap_nat [OF nw] in_bytes_def same_space_def)
    then show "\<exists>node region i. in_bytes a (unat n) node region i \<and> in_bytes b (unat m) node region i"
      by blast
  next
    assume "\<exists>node region i. in_bytes a (unat n) node region i \<and> in_bytes b (unat m) node region i"
    then show "RangesOverlap a n b m"
      by (auto simp: RangesOverlap_nat [OF nw] in_bytes_def same_space_def)
  qed
qed

lemma covers_nat:
  assumes "no_wrap (ga_offset (ck_addr k)) (ck_size k)" "no_wrap (ga_offset addr) n"
  shows "covers k addr n \<longleftrightarrow> same_space (ck_addr k) addr \<and>
    unat (ga_offset (ck_addr k)) \<le> unat (ga_offset addr) \<and>
    unat (ga_offset addr) + unat n \<le> unat (ga_offset (ck_addr k)) + unat (ck_size k)"
  using assms by (auto simp: covers_def same_space_def word_le_nat_alt unat_plus_no_wrap)

section \<open>Invariant\<close>

text \<open>
  The key list and the table hold the same keys, once each; every payload has the length its
  key says; the byte counter is the sum of the lengths, in 64 bits.
\<close>

definition resident_bytes :: "(CacheKey \<times> byte list) list \<Rightarrow> nat" where
  "resident_bytes entries = sum_list (map (\<lambda>(key, payload). length payload) entries)"

definition cache_inv :: "CacheManager \<Rightarrow> bool" where
  "cache_inv cm \<longleftrightarrow>
     distinct (map fst (cm_cached_reads cm)) \<and> distinct (cm_lru cm) \<and>
     set (cm_lru cm) = fst ` set (cm_cached_reads cm) \<and>
     (\<forall>(key, payload) \<in> set (cm_cached_reads cm). ck_size key \<noteq> 0 \<and> length payload = unat (ck_size key)) \<and>
     cm_cached_bytes cm = of_nat (resident_bytes (cm_cached_reads cm))"

text \<open>The bytes every entry holds are those of the memory it was read from.\<close>

definition coherent :: "Memory \<Rightarrow> CacheManager \<Rightarrow> bool" where
  "coherent M cm \<longleftrightarrow> (\<forall>(key, payload) \<in> set (cm_cached_reads cm).
     in_space (ck_addr key) (ck_size key) \<and> payload = load M (ck_addr key) (unat (ck_size key)))"

lemma cache_inv_entry:
  assumes "cache_inv cm" "(key, payload) \<in> set (cm_cached_reads cm)"
  shows "length payload = unat (ck_size key)" "ck_size key \<noteq> 0" "key \<in> set (cm_lru cm)"
  using assms by (auto simp: cache_inv_def intro: rev_image_eqI)

lemma cache_inv_lookup:
  assumes "cache_inv cm" "map_of (cm_cached_reads cm) key = Some payload"
  shows "length payload = unat (ck_size key)" "key \<in> set (cm_lru cm)"
  using cache_inv_entry [OF assms(1) map_of_SomeD [OF assms(2)]] by auto

lemma resident_bytes_delete:
  assumes "distinct (map fst entries)" "map_of entries key = Some payload"
  shows "resident_bytes entries = length payload + resident_bytes (AList.delete key entries)"
  using assms
proof (induction entries)
  case Nil
  then show ?case by simp
next
  case (Cons e entries)
  obtain k v where e: "e = (k, v)" by force
  show ?case
  proof (cases "k = key")
    case True
    with Cons.prems e have "key \<notin> fst ` set entries" "v = payload" by auto
    then have "AList.delete key entries = entries" by (simp add: AList.delete_id)
    with True e \<open>v = payload\<close> show ?thesis by (simp add: resident_bytes_def)
  next
    case False
    with Cons e show ?thesis by (simp add: resident_bytes_def)
  qed
qed

lemma resident_bytes_fresh:
  "key \<notin> fst ` set entries \<Longrightarrow>
   resident_bytes (AList.update key payload entries) = resident_bytes entries + length payload"
  by (induction entries) (auto simp: resident_bytes_def)

lemma resident_bytes_same:
  "map_of entries key = Some old \<Longrightarrow> length old = length payload \<Longrightarrow>
   resident_bytes (AList.update key payload entries) = resident_bytes entries"
  by (induction entries) (auto simp: resident_bytes_def)

section \<open>Operations preserve the invariant\<close>

lemma TouchLocked_inv: "cache_inv cm \<Longrightarrow> key \<in> set (cm_lru cm) \<Longrightarrow> cache_inv (TouchLocked cm key)"
  by (auto simp: cache_inv_def TouchLocked_def)

text \<open>Removing one resident entry, the step eviction and both invalidations share.\<close>

definition drop_entry :: "CacheKey \<Rightarrow> CacheManager \<Rightarrow> CacheManager" where
  "drop_entry key cm =
     (case map_of (cm_cached_reads cm) key of
        None \<Rightarrow> cm
      | Some payload \<Rightarrow> cm\<lparr>cm_cached_bytes := cm_cached_bytes cm - of_nat (length payload),
                            cm_lru := remove1 key (cm_lru cm),
                            cm_cached_reads := AList.delete key (cm_cached_reads cm)\<rparr>)"

lemma drop_entry_inv: "cache_inv cm \<Longrightarrow> cache_inv (drop_entry key cm)"
  by (auto simp: cache_inv_def drop_entry_def distinct_delete resident_bytes_delete set_alist_delete
        intro: rev_image_eqI split: option.split)

lemma drop_entry_reads:
  "cm_cached_reads (drop_entry key cm) = filter (\<lambda>e. fst e \<noteq> key) (cm_cached_reads cm)"
proof (cases "map_of (cm_cached_reads cm) key")
  case None
  then have "filter (\<lambda>e. fst e \<noteq> key) (cm_cached_reads cm) = cm_cached_reads cm"
    by (intro filter_True) (auto simp: map_of_eq_None_iff)
  with None show ?thesis by (simp add: drop_entry_def)
next
  case (Some payload)
  then show ?thesis by (auto simp: drop_entry_def AList.delete_eq split_beta' intro: filter_cong_set)
qed

lemma Invalidate_drop_entry: "snd (Invalidate cm addr n) = drop_entry \<lparr>ck_addr = addr, ck_size = n\<rparr> cm"
  by (auto simp: Invalidate_def drop_entry_def Let_def split: option.split)

subsection \<open>Eviction\<close>

text \<open>The state in which the \<open>n\<close> most recently used entries are left.\<close>

definition keep :: "nat \<Rightarrow> CacheManager \<Rightarrow> CacheManager" where
  "keep n cm = cm\<lparr>cm_lru := take n (cm_lru cm),
     cm_cached_reads := filter (\<lambda>e. fst e \<in> set (take n (cm_lru cm))) (cm_cached_reads cm),
     cm_cached_bytes :=
       of_nat (resident_bytes (filter (\<lambda>e. fst e \<in> set (take n (cm_lru cm))) (cm_cached_reads cm))),
     cm_eviction_count := cm_eviction_count cm + of_nat (length (cm_lru cm) - n)\<rparr>"

lemma keep_inv: "cache_inv cm \<Longrightarrow> cache_inv (keep n cm)"
  by (auto simp: cache_inv_def keep_def distinct_map_filter_fst image_iff dest: in_set_takeD)

lemma keep_all: "cache_inv cm \<Longrightarrow> keep (length (cm_lru cm)) cm = cm"
  by (auto simp: cache_inv_def keep_def filter_id_conv intro: rev_image_eqI)

lemma keep_Suc_drop:
  assumes inv: "cache_inv cm" and n: "n < length (cm_lru cm)"
  shows "(drop_entry (cm_lru cm ! n) (keep (Suc n) cm))\<lparr>cm_eviction_count :=
           cm_eviction_count (keep (Suc n) cm) + 1\<rparr> = keep n cm"
proof -
  define lru where "lru = cm_lru cm"
  define victim where "victim = lru ! n"
  have take: "take (Suc n) lru = take n lru @ [victim]"
    using n by (simp add: lru_def victim_def take_Suc_conv_app_nth)
  have "distinct (take (Suc n) lru)" using inv by (simp add: cache_inv_def lru_def)
  then have notin: "victim \<notin> set (take n lru)" unfolding take by simp
  let ?more = "filter (\<lambda>e. fst e \<in> set (take (Suc n) lru)) (cm_cached_reads cm)"
  let ?less = "filter (\<lambda>e. fst e \<in> set (take n lru)) (cm_cached_reads cm)"
  have less: "AList.delete victim ?more = ?less"
    unfolding alist_delete_filter using notin by (intro filter_cong_set) (auto simp: take)
  have "victim \<in> fst ` set (cm_cached_reads cm)"
    using inv nth_mem [OF n] by (auto simp: cache_inv_def lru_def victim_def)
  then have "victim \<in> fst ` set ?more" by (auto simp: take intro: rev_image_eqI)
  then obtain payload where found: "map_of ?more victim = Some payload"
    by (cases "map_of ?more victim") (auto simp: map_of_eq_None_iff)
  have "distinct (map fst ?more)" using inv by (simp add: cache_inv_def distinct_map_filter_fst)
  from resident_bytes_delete [OF this found] less
  have bytes: "resident_bytes ?more = length payload + resident_bytes ?less" by simp
  have count: "(of_nat (length lru - Suc n) + 1 :: u64) = of_nat (length lru - n)"
    using n by (metis Suc_diff_Suc lru_def of_nat_Suc add.commute)
  have "remove1 victim (take (Suc n) lru) = take n lru"
    unfolding take using notin by (simp add: remove1_append)
  with found less bytes count show ?thesis
    by (simp add: drop_entry_def keep_def flip: lru_def victim_def)
qed

lemma evict_loop_drop:
  assumes "cache_inv cm"
  shows "evict_loop inc cm =
    (if cm_lru cm \<noteq> [] \<and> cfg_cache_capacity_bytes (cm_cfg cm) < cm_cached_bytes cm + inc
     then evict_loop inc ((drop_entry (last (cm_lru cm)) cm)\<lparr>cm_eviction_count := cm_eviction_count cm + 1\<rparr>)
     else cm)"
proof (cases "cm_lru cm = []")
  case False
  then have "last (cm_lru cm) \<in> fst ` set (cm_cached_reads cm)"
    using assms by (auto simp: cache_inv_def)
  then obtain payload where "map_of (cm_cached_reads cm) (last (cm_lru cm)) = Some payload"
    by (cases "map_of (cm_cached_reads cm) (last (cm_lru cm))") (auto simp: map_of_eq_None_iff)
  moreover have "remove1 (last (cm_lru cm)) (cm_lru cm) = butlast (cm_lru cm)"
    using assms False by (simp add: cache_inv_def remove1_last_distinct)
  ultimately show ?thesis using False
    by (subst evict_loop.simps) (simp add: Let_def drop_entry_def)
qed (subst evict_loop.simps, simp)

text \<open>
  Eviction keeps the longest prefix of the recency list that leaves room, in 64-bit arithmetic.
\<close>

definition has_room :: "u64 \<Rightarrow> CacheManager \<Rightarrow> bool" where
  "has_room inc cm \<longleftrightarrow> cm_cached_bytes cm + inc \<le> cfg_cache_capacity_bytes (cm_cfg cm)"

lemma keep_sel [simp]:
  "cm_lru (keep n cm) = take n (cm_lru cm)" "cm_cfg (keep n cm) = cm_cfg cm"
  "cm_access_epoch (keep n cm) = cm_access_epoch cm" "cm_write_queues (keep n cm) = cm_write_queues cm"
  by (simp_all add: keep_def)

lemma evict_loop_keep:
  assumes inv: "cache_inv cm" and n: "n \<le> length (cm_lru cm)"
  shows "\<exists>k \<le> n. evict_loop inc (keep n cm) = keep k cm \<and> (k = 0 \<or> has_room inc (keep k cm)) \<and>
    (\<forall>m. k < m \<and> m \<le> n \<longrightarrow> \<not> has_room inc (keep m cm))"
  using n
proof (induction n)
  case 0
  show ?case by (subst evict_loop.simps) simp
next
  case (Suc n)
  then have lt: "n < length (cm_lru cm)" by simp
  have last: "last (cm_lru (keep (Suc n) cm)) = cm_lru cm ! n"
    using lt by (simp add: take_Suc_conv_app_nth)
  have nonempty: "cm_lru (keep (Suc n) cm) \<noteq> []" using lt by auto
  have step: "evict_loop inc (keep (Suc n) cm) =
      (if has_room inc (keep (Suc n) cm) then keep (Suc n) cm else evict_loop inc (keep n cm))"
    using nonempty unfolding evict_loop_drop [OF keep_inv [OF inv, of "Suc n"]] last keep_Suc_drop [OF inv lt]
    by (simp add: has_room_def not_le)
  show ?case
  proof (cases "has_room inc (keep (Suc n) cm)")
    case True
    with step show ?thesis by (intro exI [of _ "Suc n"]) auto
  next
    case False
    from Suc.IH lt obtain k where k: "k \<le> n" "evict_loop inc (keep n cm) = keep k cm"
      "k = 0 \<or> has_room inc (keep k cm)" "\<forall>m. k < m \<and> m \<le> n \<longrightarrow> \<not> has_room inc (keep m cm)"
      by auto
    have "\<forall>m. k < m \<and> m \<le> Suc n \<longrightarrow> \<not> has_room inc (keep m cm)"
      using k(4) False by (auto simp: le_Suc_eq)
    with k step False show ?thesis by (intro exI [of _ k]) auto
  qed
qed

lemma evict_loop_spec:
  assumes "cache_inv cm"
  obtains k where "k \<le> length (cm_lru cm)" "evict_loop inc cm = keep k cm"
    "k = 0 \<or> has_room inc (keep k cm)"
    "\<And>m. k < m \<Longrightarrow> m \<le> length (cm_lru cm) \<Longrightarrow> \<not> has_room inc (keep m cm)"
  using evict_loop_keep [OF assms order_refl, of inc] by (auto simp: keep_all [OF assms])

lemma Evict_keep:
  assumes "cache_inv cm"
  obtains k where "k \<le> length (cm_lru cm)" "EvictIfNeededLocked cm inc = keep k cm"
proof (cases "cfg_cache_capacity_bytes (cm_cfg cm) = 0")
  case True
  with keep_all [OF assms] that [of "length (cm_lru cm)"] show ?thesis
    by (simp add: EvictIfNeededLocked_def)
next
  case False
  with evict_loop_spec [OF assms, of inc] that show ?thesis
    by (auto simp: EvictIfNeededLocked_def)
qed

lemma Evict_inv: "cache_inv cm \<Longrightarrow> cache_inv (EvictIfNeededLocked cm inc)"
  using Evict_keep keep_inv by metis

lemma keep_reads_subset: "set (cm_cached_reads (keep n cm)) \<subseteq> set (cm_cached_reads cm)"
  by (auto simp: keep_def)

lemma Evict_reads_subset:
  "cache_inv cm \<Longrightarrow> set (cm_cached_reads (EvictIfNeededLocked cm inc)) \<subseteq> set (cm_cached_reads cm)"
  using Evict_keep keep_reads_subset by metis
subsection \<open>Range invalidation\<close>

lemma fold_drop_entry_inv: "cache_inv cm \<Longrightarrow> cache_inv (fold drop_entry keys cm)"
  by (induction keys arbitrary: cm) (auto intro: drop_entry_inv)

lemma fold_drop_entry_reads:
  "cm_cached_reads (fold drop_entry keys cm) = filter (\<lambda>e. fst e \<notin> set keys) (cm_cached_reads cm)"
  by (induction keys arbitrary: cm) (auto simp: drop_entry_reads intro: filter_cong_set)

lemma drop_entry_sel [simp]:
  "cm_cfg (drop_entry key cm) = cm_cfg cm" "cm_write_queues (drop_entry key cm) = cm_write_queues cm"
  "cm_access_epoch (drop_entry key cm) = cm_access_epoch cm"
  "cm_eviction_count (drop_entry key cm) = cm_eviction_count cm"
  by (auto simp: drop_entry_def split: option.split)

lemma fold_drop_entry_sel [simp]:
  "cm_cfg (fold drop_entry keys cm) = cm_cfg cm"
  "cm_write_queues (fold drop_entry keys cm) = cm_write_queues cm"
  "cm_access_epoch (fold drop_entry keys cm) = cm_access_epoch cm"
  "cm_eviction_count (fold drop_entry keys cm) = cm_eviction_count cm"
  by (induction keys arbitrary: cm) simp_all

definition overlapping :: "GlobalAddr \<Rightarrow> u64 \<Rightarrow> CacheKey \<times> byte list \<Rightarrow> bool" where
  "overlapping addr n e \<longleftrightarrow> RangesOverlap (ck_addr (fst e)) (ck_size (fst e)) addr n"

lemma invalidate_entries_fold:
  assumes "distinct (map fst entries)"
    and "\<And>key payload. (key, payload) \<in> set entries \<Longrightarrow> map_of (cm_cached_reads cm) key = Some payload"
  shows "invalidate_entries addr n entries (r, cm) =
    (r + of_nat (length (filter (overlapping addr n) entries)),
     fold drop_entry (map fst (filter (overlapping addr n) entries)) cm)"
  using assms
proof (induction entries arbitrary: r cm)
  case Nil
  then show ?case by simp
next
  case (Cons e entries)
  obtain key payload where e: "e = (key, payload)" by force
  have found: "map_of (cm_cached_reads cm) key = Some payload" using Cons.prems(2) e by simp
  have rest: "map_of (cm_cached_reads (drop_entry key cm)) k = Some v" if "(k, v) \<in> set entries" for k v
  proof -
    have "k \<noteq> key" using Cons.prems(1) e that by (auto intro: rev_image_eqI)
    moreover have "map_of (cm_cached_reads cm) k = Some v" using Cons.prems(2) that by simp
    ultimately show ?thesis using found by (simp add: drop_entry_def)
  qed
  have step: "cm\<lparr>cm_cached_bytes := cm_cached_bytes cm - of_nat (length payload),
      cm_lru := remove1 key (cm_lru cm),
      cm_cached_reads := AList.delete key (cm_cached_reads cm)\<rparr> = drop_entry key cm"
    using found by (simp add: drop_entry_def)
  have dist: "distinct (map fst entries)" using Cons.prems(1) by simp
  show ?case
  proof (cases "overlapping addr n e")
    case True
    with Cons.IH [OF dist rest] e step show ?thesis
      by (simp add: overlapping_def algebra_simps)
  next
    case False
    with Cons.IH [OF dist, of cm] Cons.prems(2) e show ?thesis by (simp add: overlapping_def)
  qed
qed

lemma InvalidateRange_fold:
  assumes "cache_inv cm"
  shows "InvalidateRange cm addr n =
    (of_nat (length (filter (overlapping addr n) (cm_cached_reads cm))),
     fold drop_entry (map fst (filter (overlapping addr n) (cm_cached_reads cm))) cm)"
  using assms unfolding InvalidateRange_def
  by (subst invalidate_entries_fold) (auto simp: cache_inv_def intro: map_of_is_SomeI)

lemma InvalidateRange_inv: "cache_inv cm \<Longrightarrow> cache_inv (snd (InvalidateRange cm addr n))"
  by (simp add: InvalidateRange_fold fold_drop_entry_inv)

lemma InvalidateRange_reads:
  assumes "cache_inv cm"
  shows "cm_cached_reads (snd (InvalidateRange cm addr n)) =
    filter (\<lambda>e. \<not> overlapping addr n e) (cm_cached_reads cm)"
  unfolding InvalidateRange_fold [OF assms] snd_conv fold_drop_entry_reads
  by (rule filter_cong_set) (auto simp: overlapping_def)

subsection \<open>Insertion and lookup\<close>

lemma mem_read_prefix: "unat n \<le> length src \<Longrightarrow> mem_read src 0 n = Some (take (unat n) src)"
  by (simp add: mem_read_def)

definition inserted :: "CacheKey \<Rightarrow> byte list \<Rightarrow> CacheManager \<Rightarrow> CacheManager" where
  "inserted key bytes cm =
     (case map_of (cm_cached_reads cm) key of
        Some payload \<Rightarrow>
          EvictIfNeededLocked
            (TouchLocked (cm\<lparr>cm_cached_reads := AList.update key bytes (cm_cached_reads cm)\<rparr>) key) 0
      | None \<Rightarrow>
          let cm = EvictIfNeededLocked cm (ck_size key)
          in cm\<lparr>cm_lru := key # cm_lru cm, cm_cached_bytes := cm_cached_bytes cm + ck_size key,
                cm_cached_reads := AList.update key bytes (cm_cached_reads cm)\<rparr>)"

definition admits :: "CacheManager \<Rightarrow> u64 \<Rightarrow> bool" where
  "admits cm n \<longleftrightarrow> n \<noteq> 0 \<and> cfg_enable_cache (cm_cfg cm) \<and>
     (cfg_cache_capacity_bytes (cm_cfg cm) = 0 \<or> n \<le> cfg_cache_capacity_bytes (cm_cfg cm))"

lemma InsertCached_inserted:
  assumes "cache_inv cm" "unat n \<le> length src"
  shows "InsertCached cm addr (Some src) n =
    Some (if admits cm n then inserted \<lparr>ck_addr = addr, ck_size = n\<rparr> (take (unat n) src) cm else cm)"
proof (cases "map_of (cm_cached_reads cm) \<lparr>ck_addr = addr, ck_size = n\<rparr>")
  case None
  with assms(2) show ?thesis
    by (auto simp: InsertCached_def admits_def inserted_def mem_read_prefix Let_def not_less)
next
  case (Some payload)
  then have "length payload = unat n" using cache_inv_lookup(1) [OF assms(1) Some] by simp
  with Some assms(2) show ?thesis
    by (auto simp: InsertCached_def admits_def inserted_def mem_read_prefix Let_def not_less)
qed

text \<open>Replacing the payload of a resident key by one of the same length, then touching it.\<close>

lemma replaced_inv:
  assumes inv: "cache_inv cm" and len: "length bytes = unat (ck_size key)"
    and found: "map_of (cm_cached_reads cm) key = Some payload"
  shows "cache_inv (TouchLocked (cm\<lparr>cm_cached_reads := AList.update key bytes (cm_cached_reads cm)\<rparr>) key)"
proof -
  have "length payload = length bytes" using cache_inv_lookup(1) [OF inv found] len by simp
  from resident_bytes_same [OF found this]
  have "cache_inv (cm\<lparr>cm_cached_reads := AList.update key bytes (cm_cached_reads cm)\<rparr>)"
    using inv len found
    by (auto simp: cache_inv_def distinct_update set_alist_update dest: map_of_SomeD intro: rev_image_eqI)
  then show ?thesis
    by (intro TouchLocked_inv) (use cache_inv_lookup(2) [OF inv found] in auto)
qed

lemma inserted_inv:
  assumes inv: "cache_inv cm" and len: "length bytes = unat (ck_size key)" and pos: "ck_size key \<noteq> 0"
  shows "cache_inv (inserted key bytes cm)"
proof (cases "map_of (cm_cached_reads cm) key")
  case None
  obtain k where evict: "EvictIfNeededLocked cm (ck_size key) = keep k cm" by (rule Evict_keep [OF inv])
  have notin: "key \<notin> fst ` set (cm_cached_reads cm)" using None by (simp add: map_of_eq_None_iff)
  then have notin': "key \<notin> fst ` set (cm_cached_reads (keep k cm))" using keep_reads_subset by blast
  have "cache_inv (keep k cm)" by (rule keep_inv [OF inv])
  with notin' len pos show ?thesis
    unfolding inserted_def evict None
    by (auto simp: cache_inv_def Let_def resident_bytes_fresh distinct_update set_alist_update
          simp del: keep_sel intro: rev_image_eqI)
next
  case (Some payload)
  from Evict_inv [OF replaced_inv [OF inv len Some]] show ?thesis by (simp add: inserted_def Some)
qed

lemma inserted_reads_subset:
  assumes inv: "cache_inv cm" and len: "length bytes = unat (ck_size key)"
  shows "set (cm_cached_reads (inserted key bytes cm)) \<subseteq> insert (key, bytes) (set (cm_cached_reads cm))"
proof (cases "map_of (cm_cached_reads cm) key")
  case None
  then have "set (cm_cached_reads (inserted key bytes cm)) =
      set (AList.update key bytes (cm_cached_reads (EvictIfNeededLocked cm (ck_size key))))"
    by (simp add: inserted_def Let_def)
  also have "\<dots> \<subseteq> insert (key, bytes) (set (cm_cached_reads (EvictIfNeededLocked cm (ck_size key))))"
    using Evict_inv [OF inv] by (auto simp: cache_inv_def set_alist_update)
  finally show ?thesis using Evict_reads_subset [OF inv, of "ck_size key"] by blast
next
  case (Some payload)
  let ?cm = "TouchLocked (cm\<lparr>cm_cached_reads := AList.update key bytes (cm_cached_reads cm)\<rparr>) key"
  have "set (cm_cached_reads (EvictIfNeededLocked ?cm 0)) \<subseteq> set (cm_cached_reads ?cm)"
    by (rule Evict_reads_subset [OF replaced_inv [OF inv len Some]])
  also have "\<dots> \<subseteq> insert (key, bytes) (set (cm_cached_reads cm))"
    using inv by (auto simp: TouchLocked_def cache_inv_def set_alist_update)
  finally show ?thesis by (simp add: inserted_def Some)
qed

lemma InsertCached_inv:
  assumes "cache_inv cm" "InsertCached cm addr buf n = Some cm'"
  shows "cache_inv cm'"
proof (cases buf)
  case None
  with assms show ?thesis by (simp add: InsertCached_def)
next
  case (Some src)
  show ?thesis
  proof (cases "unat n \<le> length src")
    case True
    with assms InsertCached_inserted [OF assms(1) True, of addr] Some show ?thesis
      by (auto simp: admits_def intro!: inserted_inv split: if_splits)
  next
    case False
    with assms Some show ?thesis
      by (auto simp: InsertCached_def Let_def mem_read_def split: if_splits option.splits)
  qed
qed

section \<open>Coherence with memory\<close>

lemma coherent_entry:
  assumes "coherent M cm" "(key, payload) \<in> set (cm_cached_reads cm)"
  shows "in_space (ck_addr key) (ck_size key)" "payload = load M (ck_addr key) (unat (ck_size key))"
  using assms by (auto simp: coherent_def)

lemma coherent_subset:
  "coherent M cm \<Longrightarrow> set (cm_cached_reads cm') \<subseteq> set (cm_cached_reads cm) \<Longrightarrow> coherent M cm'"
  by (auto simp: coherent_def)

lemma TouchLocked_reads [simp]: "cm_cached_reads (TouchLocked cm key) = cm_cached_reads cm"
  by (simp add: TouchLocked_def)

text \<open>A hit returns the bytes of memory, and never copies outside the payload.\<close>

lemma covered_load:
  assumes "coherent M cm" "(key, payload) \<in> set (cm_cached_reads cm)" "covers key addr n" "in_space addr n"
  shows "mem_read payload (ga_offset addr - ga_offset (ck_addr key)) n = Some (load M addr (unat n))"
proof -
  note entry = coherent_entry [OF assms(1,2)]
  have "no_wrap (ga_offset (ck_addr key)) (ck_size key)" "no_wrap (ga_offset addr) n"
    using entry(1) assms(4) by (auto simp: in_space_def)
  note c = covers_nat [OF this, THEN iffD1, OF assms(3)]
  have d: "unat (ga_offset addr - ga_offset (ck_addr key)) = unat (ga_offset addr) - unat (ga_offset (ck_addr key))"
    using c by (intro unat_minus_le) (simp add: word_le_nat_alt)
  have "take (unat n) (drop (unat (ga_offset addr - ga_offset (ck_addr key)))
      (load M (ck_addr key) (unat (ck_size key)))) = load M addr (unat n)"
    using c by (intro load_sub) (auto simp: d same_space_def)
  moreover have "unat (ga_offset addr) - unat (ga_offset (ck_addr key)) + unat n \<le> unat (ck_size key)"
    using c by arith
  ultimately show ?thesis using entry(2) by (simp add: mem_read_def d)
qed

lemma exact_load:
  assumes "coherent M cm" "map_of (cm_cached_reads cm) \<lparr>ck_addr = addr, ck_size = n\<rparr> = Some payload"
  shows "mem_read payload 0 n = Some (load M addr (unat n))"
  using coherent_entry(2) [OF assms(1) map_of_SomeD [OF assms(2)]] by (simp add: mem_read_def)

definition cached_covers :: "CacheManager \<Rightarrow> GlobalAddr \<Rightarrow> u64 \<Rightarrow> bool" where
  "cached_covers cm addr n \<longleftrightarrow> (\<exists>(key, payload) \<in> set (cm_cached_reads cm). covers key addr n)"

lemma exact_covers: "covers \<lparr>ck_addr = addr, ck_size = n\<rparr> addr n"
  by (simp add: covers_def)

lemma TryReadCached_coherent:
  assumes inv: "cache_inv cm" and coh: "coherent M cm" and sp: "in_space addr n"
  shows "\<exists>cm'. TryReadCached cm addr True n =
      Some (if cached_covers cm addr n then Some (load M addr (unat n)) else None, cm') \<and>
    cm_cached_reads cm' = cm_cached_reads cm \<and> cache_inv cm'"
proof -
  have n: "n \<noteq> 0" using sp by (simp add: in_space_def)
  let ?key = "\<lparr>ck_addr = addr, ck_size = n\<rparr>"
  show ?thesis
  proof (cases "map_of (cm_cached_reads cm) ?key")
    case (Some payload)
    then have "cached_covers cm addr n"
      using exact_covers by (auto simp: cached_covers_def dest!: map_of_SomeD)
    with Some n show ?thesis
      by (auto simp: TryReadCached_def exact_load [OF coh Some] intro!: TouchLocked_inv inv
            cache_inv_lookup(2) [OF inv Some])
  next
    case None
    show ?thesis
    proof (cases "find (\<lambda>(k, v). covers k addr n) (cm_cached_reads cm)")
      case None': None
      then have "\<not> cached_covers cm addr n" by (auto simp: find_None_iff cached_covers_def)
      with None None' n inv show ?thesis by (auto simp: TryReadCached_def)
    next
      case (Some e)
      obtain key payload where e: "e = (key, payload)" by force
      from Some e have mem: "(key, payload) \<in> set (cm_cached_reads cm)" and cov: "covers key addr n"
        by (auto simp: find_Some_iff in_set_conv_nth)
      then have "cached_covers cm addr n" by (auto simp: cached_covers_def)
      with None Some e n covered_load [OF coh mem cov sp] cache_inv_entry(3) [OF inv mem] show ?thesis
        by (auto simp: TryReadCached_def intro!: TouchLocked_inv inv)
    qed
  qed
qed

lemma InsertCached_coherent:
  assumes inv: "cache_inv cm" and coh: "coherent M cm" and sp: "in_space addr n"
  shows "\<exists>cm'. InsertCached cm addr (Some (load M addr (unat n))) n = Some cm' \<and> cache_inv cm' \<and> coherent M cm'"
proof -
  let ?key = "\<lparr>ck_addr = addr, ck_size = n\<rparr>"
  have n: "n \<noteq> 0" using sp by (simp add: in_space_def)
  have "cache_inv (inserted ?key (load M addr (unat n)) cm)"
    using n by (intro inserted_inv inv) simp_all
  moreover have "coherent M (inserted ?key (load M addr (unat n)) cm)"
    using inserted_reads_subset [OF inv, of "load M addr (unat n)" ?key] coh sp by (auto simp: coherent_def)
  ultimately show ?thesis using inv coh by (simp add: InsertCached_inserted)
qed

lemma InvalidateRange_coherent:
  assumes inv: "cache_inv cm" and coh: "coherent M cm" and sp: "in_space addr n" and len: "length bs = unat n"
  shows "coherent (store M addr bs) (snd (InvalidateRange cm addr n))"
proof -
  have "load (store M addr bs) (ck_addr key) (unat (ck_size key)) = load M (ck_addr key) (unat (ck_size key))"
    if "in_space (ck_addr key) (ck_size key)" "\<not> RangesOverlap (ck_addr key) (ck_size key) addr n" for key
    using that(2) unfolding RangesOverlap_iff [OF that(1) sp]
    by (intro load_store_disjoint) (auto simp: len)
  then show ?thesis
    using coh by (auto simp: coherent_def InvalidateRange_reads [OF inv] overlapping_def)
qed

interpretation shadow: read_through_cache
  "\<lambda>cm addr n. TryReadCached cm addr True n" "\<lambda>cm addr bytes n. InsertCached cm addr (Some bytes) n"
  "\<lambda>cm addr n. snd (InvalidateRange cm addr n)" "\<lambda>M cm. cache_inv cm \<and> coherent M cm"
proof (unfold_locales, goal_cases)
  case (1 M c addr n)
  with TryReadCached_coherent [of c M addr n] coherent_subset [of M c] show ?case by fastforce
next
  case (2 M c addr n)
  with InsertCached_coherent [of c M addr n] show ?case by blast
next
  case (3 M c addr bs)
  then have "unat (of_nat (length bs) :: u64) = length bs" by (simp add: unat_of_nat take_bit_nat_eq_self)
  with 3 InvalidateRange_coherent [of c M addr "of_nat (length bs)" bs] InvalidateRange_inv show ?case by simp
qed

subsection \<open>Lookups whose end wraps\<close>

lemma find_covering:
  assumes "cached_covers cm addr n"
  obtains key payload where "find (\<lambda>(k, v). covers k addr n) (cm_cached_reads cm) = Some (key, payload)"
    "(key, payload) \<in> set (cm_cached_reads cm)" "covers key addr n"
proof (cases "find (\<lambda>(k, v). covers k addr n) (cm_cached_reads cm)")
  case None
  with assms show ?thesis by (auto simp: find_None_iff cached_covers_def)
next
  case (Some e)
  then have "e \<in> set (cm_cached_reads cm)" "case e of (k, v) \<Rightarrow> covers k addr n"
    by (auto simp: find_Some_iff in_set_conv_nth)
  with Some that show ?thesis by (cases e) auto
qed

lemma wrapped_read_outside:
  assumes "cache_inv cm" "coherent M cm" "(key, payload) \<in> set (cm_cached_reads cm)"
    and "covers key addr n" "\<not> no_wrap (ga_offset addr) n"
  shows "mem_read payload (ga_offset addr - ga_offset (ck_addr key)) n = None"
proof -
  have le: "ga_offset (ck_addr key) \<le> ga_offset addr" using assms(4) by (simp add: covers_def)
  have "unat (ga_offset (ck_addr key)) + unat (ck_size key) < 2 ^ 64"
    using coherent_entry(1) [OF assms(2,3)] by (simp add: in_space_def no_wrap_def)
  moreover have "2 ^ 64 \<le> unat (ga_offset addr) + unat n" using assms(5) by (simp add: no_wrap_def)
  moreover have "length payload = unat (ck_size key)" by (rule cache_inv_entry(1) [OF assms(1,3)])
  moreover have "unat (ga_offset (ck_addr key)) \<le> unat (ga_offset addr)" using le by (simp add: word_le_nat_alt)
  ultimately have "\<not> unat (ga_offset addr) - unat (ga_offset (ck_addr key)) + unat n \<le> length payload"
    by linarith
  then show ?thesis by (simp add: mem_read_def unat_minus_le [OF le])
qed

subsection \<open>Capacity\<close>

definition within_capacity :: "CacheManager \<Rightarrow> bool" where
  "within_capacity cm \<longleftrightarrow> cfg_cache_capacity_bytes (cm_cfg cm) = 0 \<or>
     resident_bytes (cm_cached_reads cm) \<le> unat (cfg_cache_capacity_bytes (cm_cfg cm))"

lemma resident_bytes_filter: "resident_bytes (filter P entries) \<le> resident_bytes entries"
  by (induction entries) (auto simp: resident_bytes_def)

lemma within_capacity_keep: "within_capacity cm \<Longrightarrow> within_capacity (keep n cm)"
  using resident_bytes_filter by (fastforce simp: within_capacity_def keep_def intro: order_trans)

lemma Evict_room:
  assumes inv: "cache_inv cm" and wc: "within_capacity cm" and cap: "cfg_cache_capacity_bytes (cm_cfg cm) \<noteq> 0"
    and small: "unat (cfg_cache_capacity_bytes (cm_cfg cm)) < 2 ^ 63"
    and n: "n \<le> cfg_cache_capacity_bytes (cm_cfg cm)"
  shows "resident_bytes (cm_cached_reads (EvictIfNeededLocked cm n)) + unat n \<le>
    unat (cfg_cache_capacity_bytes (cm_cfg cm))"
proof -
  let ?cap = "cfg_cache_capacity_bytes (cm_cfg cm)"
  have le: "unat n \<le> unat ?cap" using n by (simp add: word_le_nat_alt)
  obtain k where evict: "evict_loop n cm = keep k cm" and k: "k = 0 \<or> has_room n (keep k cm)"
    by (rule evict_loop_spec [OF inv])
  let ?bytes = "resident_bytes (cm_cached_reads (keep k cm))"
  have "?bytes \<le> unat ?cap" using within_capacity_keep [OF wc, of k] cap by (simp add: within_capacity_def)
  with le small have no_ovf: "?bytes + unat n < 2 ^ 64" by simp
  have "?bytes + unat n \<le> unat ?cap"
  proof (cases "k = 0")
    case True
    then show ?thesis using le by (simp add: keep_def resident_bytes_def)
  next
    case False
    have "cm_cached_bytes (keep k cm) = of_nat ?bytes" by (simp add: keep_def)
    moreover have "unat (of_nat ?bytes + n) = ?bytes + unat n"
      using no_ovf by (simp add: unat_plus_mod unat_of_nat take_bit_eq_mod)
    ultimately show ?thesis using False k by (simp add: has_room_def word_le_nat_alt)
  qed
  with cap evict show ?thesis by (simp add: EvictIfNeededLocked_def)
qed

lemma Evict_sel [simp]:
  assumes "cache_inv cm"
  shows "cm_cfg (EvictIfNeededLocked cm n) = cm_cfg cm"
    "cm_write_queues (EvictIfNeededLocked cm n) = cm_write_queues cm"
    "cm_access_epoch (EvictIfNeededLocked cm n) = cm_access_epoch cm"
  by (rule Evict_keep [OF assms, of n]; simp)+

lemma Evict_nothing:
  assumes "cache_inv cm" "within_capacity cm"
  shows "EvictIfNeededLocked cm 0 = cm"
proof (cases "cfg_cache_capacity_bytes (cm_cfg cm) = 0")
  case False
  with assms have "resident_bytes (cm_cached_reads cm) \<le> unat (cfg_cache_capacity_bytes (cm_cfg cm))"
    by (simp add: within_capacity_def)
  moreover from this have "unat (of_nat (resident_bytes (cm_cached_reads cm)) :: u64) =
      resident_bytes (cm_cached_reads cm)"
    using unat_u64_lt [of "cfg_cache_capacity_bytes (cm_cfg cm)"]
    by (intro unat_of_nat_u64) simp
  ultimately have "\<not> cfg_cache_capacity_bytes (cm_cfg cm) < cm_cached_bytes cm + 0"
    using assms(1) by (simp add: cache_inv_def word_less_nat_alt)
  then have "evict_loop 0 cm = cm" by (subst evict_loop.simps) simp
  then show ?thesis by (simp add: EvictIfNeededLocked_def)
qed (simp add: EvictIfNeededLocked_def)

lemma replaced_capacity:
  assumes "cache_inv cm" "within_capacity cm" "length bytes = unat (ck_size key)"
    and "map_of (cm_cached_reads cm) key = Some payload"
  shows "within_capacity (TouchLocked (cm\<lparr>cm_cached_reads := AList.update key bytes (cm_cached_reads cm)\<rparr>) key)"
  using assms cache_inv_lookup(1) [OF assms(1,4)]
  by (simp add: within_capacity_def TouchLocked_def resident_bytes_same [OF assms(4)])

lemma inserted_present:
  assumes "cache_inv cm" "within_capacity cm" "length bytes = unat (ck_size key)"
  shows "hd (cm_lru (inserted key bytes cm)) = key \<and>
    map_of (cm_cached_reads (inserted key bytes cm)) key = Some bytes"
proof (cases "map_of (cm_cached_reads cm) key")
  case None
  then show ?thesis by (simp add: inserted_def Let_def update_conv')
next
  case (Some payload)
  then show ?thesis
    using Evict_nothing [OF replaced_inv [OF assms(1,3) Some] replaced_capacity [OF assms Some]]
    by (simp add: inserted_def TouchLocked_def update_conv')
qed

lemma inserted_capacity:
  assumes inv: "cache_inv cm" and wc: "within_capacity cm" and len: "length bytes = unat (ck_size key)"
    and small: "unat (cfg_cache_capacity_bytes (cm_cfg cm)) < 2 ^ 63" and ok: "admits cm (ck_size key)"
  shows "within_capacity (inserted key bytes cm)"
proof (cases "map_of (cm_cached_reads cm) key")
  case None
  then have "key \<notin> fst ` set (cm_cached_reads (EvictIfNeededLocked cm (ck_size key)))"
    using Evict_reads_subset [OF inv, of "ck_size key"] by (auto simp: map_of_eq_None_iff)
  with Evict_room [OF inv wc _ small, of "ck_size key"] ok len None show ?thesis
    by (auto simp: inserted_def Let_def within_capacity_def admits_def resident_bytes_fresh inv)
next
  case (Some payload)
  note replaced = replaced_inv [OF inv len Some] replaced_capacity [OF inv wc len Some]
  from replaced(2) Evict_nothing [OF replaced] show ?thesis by (simp add: inserted_def Some)
qed

section \<open>Properties\<close>

text \<open>A small cache for the witnesses: eight bytes of room, one entry of four bytes.\<close>

definition cache_cfg :: Config where
  "cache_cfg = default_config\<lparr>cfg_cache_capacity_bytes := 8\<rparr>"

lemma cache_cfg_sel [simp]: "cfg_cache_capacity_bytes cache_cfg = 8" "cfg_enable_cache cache_cfg"
  by (simp_all add: cache_cfg_def default_config_def)

definition remote_addr :: "u64 \<Rightarrow> GlobalAddr" where
  "remote_addr off = \<lparr>ga_home_node = 2, ga_region_id = 0, ga_offset = off\<rparr>"

definition entry_key :: CacheKey where
  "entry_key = \<lparr>ck_addr = remote_addr 16, ck_size = 4\<rparr>"

definition one_entry :: CacheManager where
  "one_entry = \<lparr>cm_cfg = cache_cfg, cm_access_epoch = 0, cm_cached_bytes = 4, cm_eviction_count = 0,
     cm_lru = [entry_key], cm_cached_reads = [(entry_key, [0, 0, 0, 0])], cm_write_queues = []\<rparr>"

lemma one_entry_inv: "cache_inv one_entry"
  by (simp add: cache_inv_def one_entry_def entry_key_def resident_bytes_def)

lemma one_entry_coherent: "coherent (\<lambda>node region i. 0) one_entry"
  by (simp add: coherent_def one_entry_def entry_key_def remote_addr_def in_space_def no_wrap_def load_def
        upt_rec)

text \<open>
  C6: Reads through the cache are transparent. For every sequence of reads and writes whose ranges
  do not wrap, started in a coherent cache, every read (a hit through
  \<^verbatim>\<open>TryReadCached\<close> or a miss followed by \<^verbatim>\<open>InsertCached\<close>) returns what memory
  holds at that moment, when every write invalidates its range with \<^verbatim>\<open>InvalidateRange\<close>;
  no copy leaves a payload.
\<close>

theorem cached_reads_transparent:
  assumes "cache_inv cm" and "coherent M cm" and "list_all event_in_space evs"
  shows "\<exists>cm'. cached_run (\<lambda>cm addr n. TryReadCached cm addr True n)
      (\<lambda>cm addr bytes n. InsertCached cm addr (Some bytes) n)
      (\<lambda>cm addr n. snd (InvalidateRange cm addr n)) M cm evs =
        Some (fst (memory_run M evs), snd (memory_run M evs), cm') \<and>
    cache_inv cm' \<and> coherent (snd (memory_run M evs)) cm'"
  using shadow.transparent [of cm M evs] assms by blast

theorem cached_reads_transparent_witness:
  "\<exists>M' cm'. cached_run (\<lambda>cm addr n. TryReadCached cm addr True n)
      (\<lambda>cm addr bytes n. InsertCached cm addr (Some bytes) n)
      (\<lambda>cm addr n. snd (InvalidateRange cm addr n)) (\<lambda>node region i. 0) one_entry
      [ReadEv (remote_addr 17) 2, WriteEv (remote_addr 18) [7], ReadEv (remote_addr 17) 2] =
        Some ([[0, 0], [0, 7]], M', cm')"
proof -
  let ?evs = "[ReadEv (remote_addr 17) 2, WriteEv (remote_addr 18) [7], ReadEv (remote_addr 17) 2]"
  have "list_all event_in_space ?evs" by (simp add: in_space_def remote_addr_def no_wrap_def)
  moreover have "fst (memory_run (\<lambda>node region i. 0) ?evs) = [[0, 0], [0, 7]]"
    by (simp add: load_def store_def in_bytes_def remote_addr_def upt_rec)
  ultimately show ?thesis
    using cached_reads_transparent [OF one_entry_inv one_entry_coherent, of ?evs] by auto
qed

text \<open>
  C16: \<^verbatim>\<open>TryReadCached\<close> is exact. In a coherent cache a request that does not wrap hits
  exactly when some cached entry covers it, a hit returns the bytes of memory, the copy stays
  inside the payload, and the table is left as it is.
\<close>

theorem TryReadCached_exact:
  assumes "cache_inv cm" and "coherent M cm" and "in_space addr n"
  shows "\<exists>cm'. TryReadCached cm addr True n =
      Some (if cached_covers cm addr n then Some (load M addr (unat n)) else None, cm') \<and>
    cm_cached_reads cm' = cm_cached_reads cm \<and> cache_inv cm'"
  by (rule TryReadCached_coherent [OF assms])

theorem TryReadCached_exact_witness:
  "\<exists>cm'. TryReadCached one_entry (remote_addr 17) True 2 = Some (Some [0, 0], cm')"
proof -
  have "in_space (remote_addr 17) 2" by (simp add: in_space_def remote_addr_def no_wrap_def)
  moreover have "cached_covers one_entry (remote_addr 17) 2"
    by (simp add: cached_covers_def one_entry_def entry_key_def covers_def remote_addr_def)
  ultimately show ?thesis
    using TryReadCached_exact [OF one_entry_inv one_entry_coherent, of "remote_addr 17" 2]
    by (auto simp: load_def upt_rec)
qed

text \<open>
  \<^verbatim>\<open>TryReadCached\<close> trusts a wrapped end. When the end of the request wraps past
  \<open>2\<^sup>64\<close> and the wrapped end passes the test of the scan, the copy leaves the cached payload: the
  call has no defined result.
\<close>

lemma TryReadCached_wraps:
  assumes "cache_inv cm" and "coherent M cm" and "\<not> no_wrap (ga_offset addr) n"
    and "cached_covers cm addr n"
  shows "TryReadCached cm addr True n = None"
proof -
  obtain key payload where found: "find (\<lambda>(k, v). covers k addr n) (cm_cached_reads cm) = Some (key, payload)"
    and mem: "(key, payload) \<in> set (cm_cached_reads cm)" and cov: "covers key addr n"
    by (rule find_covering [OF assms(4)])
  have "map_of (cm_cached_reads cm) \<lparr>ck_addr = addr, ck_size = n\<rparr> = None"
    using assms(2,3) by (fastforce simp: coherent_def in_space_def map_of_eq_None_iff)
  moreover have "n \<noteq> 0" using assms(3) unat_u64_lt [of "ga_offset addr"] by (auto simp: no_wrap_def)
  ultimately show ?thesis
    using found wrapped_read_outside [OF assms(1,2) mem cov assms(3)] by (simp add: TryReadCached_def)
qed

lemma TryReadCached_wraps_witness: "TryReadCached one_entry (remote_addr 17) True (- 1) = None"
proof -
  have "\<not> no_wrap (ga_offset (remote_addr 17)) (- 1)"
    by (simp add: no_wrap_def remote_addr_def unat_u64_max)
  moreover have "cached_covers one_entry (remote_addr 17) (- 1)"
    by (simp add: cached_covers_def one_entry_def entry_key_def covers_def remote_addr_def)
  ultimately show ?thesis
    using TryReadCached_wraps [OF one_entry_inv one_entry_coherent] by blast
qed

lemma one_entry_reads: "cm_cached_reads one_entry = [(\<lparr>ck_addr = remote_addr 16, ck_size = 4\<rparr>, [0, 0, 0, 0])]"
  by (simp add: one_entry_def entry_key_def)

text \<open>
  C17: \<^verbatim>\<open>InvalidateRange\<close> on a non-empty range whose end does not wrap, in a coherent
  cache, removes the entries that have a byte in common with the range and no other (an entry that
  only touches it stays), returns their number, and leaves a cache that is coherent with the memory
  in which the range has been overwritten, whatever was written.
\<close>

theorem InvalidateRange_exact:
  assumes "cache_inv cm" and "coherent M cm" and "in_space addr n" and "length bs = unat n"
  shows "cm_cached_reads (snd (InvalidateRange cm addr n)) =
      filter (\<lambda>(key, payload). \<nexists>node region i.
          in_bytes (ck_addr key) (unat (ck_size key)) node region i \<and> in_bytes addr (unat n) node region i)
        (cm_cached_reads cm) \<and>
    fst (InvalidateRange cm addr n) =
      of_nat (length (cm_cached_reads cm)
              - length (cm_cached_reads (snd (InvalidateRange cm addr n)))) \<and>
    cache_inv (snd (InvalidateRange cm addr n)) \<and>
    coherent (store M addr bs) (snd (InvalidateRange cm addr n))"
proof (intro conjI)
  let ?reads = "cm_cached_reads cm"
  show "cm_cached_reads (snd (InvalidateRange cm addr n)) =
      filter (\<lambda>(key, payload). \<nexists>node region i.
          in_bytes (ck_addr key) (unat (ck_size key)) node region i \<and> in_bytes addr (unat n) node region i) ?reads"
    unfolding InvalidateRange_reads [OF assms(1)]
  proof (rule filter_cong_set)
    fix e assume "e \<in> set ?reads"
    with coherent_entry(1) [OF assms(2)] have "in_space (ck_addr (fst e)) (ck_size (fst e))" by (cases e) simp
    from RangesOverlap_iff [OF this assms(3)]
    show "(\<not> overlapping addr n e) = (case e of (key, payload) \<Rightarrow> \<nexists>node region i.
        in_bytes (ck_addr key) (unat (ck_size key)) node region i \<and> in_bytes addr (unat n) node region i)"
      by (cases e) (simp add: overlapping_def)
  qed
  have "length (filter (overlapping addr n) ?reads) =
      length ?reads - length (filter (\<lambda>e. \<not> overlapping addr n e) ?reads)"
    using sum_length_filter_compl [of "overlapping addr n" ?reads] by simp
  then show "fst (InvalidateRange cm addr n) =
      of_nat (length ?reads - length (cm_cached_reads (snd (InvalidateRange cm addr n))))"
    unfolding InvalidateRange_reads [OF assms(1)] by (simp add: InvalidateRange_fold [OF assms(1)])
  show "cache_inv (snd (InvalidateRange cm addr n))" by (rule InvalidateRange_inv [OF assms(1)])
  show "coherent (store M addr bs) (snd (InvalidateRange cm addr n))"
    by (rule InvalidateRange_coherent [OF assms])
qed

theorem InvalidateRange_exact_witness:
  "cm_cached_reads (snd (InvalidateRange one_entry (remote_addr 19) 8)) = [] \<and>
   fst (InvalidateRange one_entry (remote_addr 19) 8) = 1 \<and>
   cm_cached_reads (snd (InvalidateRange one_entry (remote_addr 20) 8)) = cm_cached_reads one_entry"
proof -
  have sp: "in_space (remote_addr 19) 8" "in_space (remote_addr 20) 8"
    by (simp_all add: in_space_def remote_addr_def no_wrap_def)
  have "\<exists>node region i. in_bytes (remote_addr 16) 4 node region i \<and> in_bytes (remote_addr 19) 8 node region i"
    by (intro exI [of _ 2] exI [of _ 0] exI [of _ 19]) (simp add: in_bytes_def remote_addr_def)
  then have removed: "cm_cached_reads (snd (InvalidateRange one_entry (remote_addr 19) 8)) = []"
      "fst (InvalidateRange one_entry (remote_addr 19) 8) = 1"
    using InvalidateRange_exact [OF one_entry_inv one_entry_coherent sp(1), of "replicate 8 1"]
    by (simp_all add: one_entry_reads)
  have "\<nexists>node region i. in_bytes (remote_addr 16) 4 node region i \<and> in_bytes (remote_addr 20) 8 node region i"
    by (auto simp: in_bytes_def remote_addr_def)
  then have "cm_cached_reads (snd (InvalidateRange one_entry (remote_addr 20) 8)) = cm_cached_reads one_entry"
    using InvalidateRange_exact [OF one_entry_inv one_entry_coherent sp(2), of "replicate 8 1"]
    by (simp add: one_entry_reads)
  with removed show ?thesis by blast
qed

lemma covers_iff_bytes:
  assumes "in_space (ck_addr key) (ck_size key)" "in_space a k"
  shows "covers key a k \<longleftrightarrow> (\<forall>node region i. in_bytes a (unat k) node region i \<longrightarrow>
    in_bytes (ck_addr key) (unat (ck_size key)) node region i)" (is "_ \<longleftrightarrow> ?all")
proof -
  have pos: "0 < unat k" and nw: "no_wrap (ga_offset a) k" "no_wrap (ga_offset (ck_addr key)) (ck_size key)"
    using assms by (auto simp: in_space_def unat_gt_0)
  show ?thesis
  proof
    assume "covers key a k"
    then show ?all using nw by (auto simp: covers_def in_bytes_def word_le_nat_alt unat_plus_no_wrap)
  next
    assume all: ?all
    have "in_bytes a (unat k) (ga_home_node a) (ga_region_id a) i"
      if "i \<in> {unat (ga_offset a), unat (ga_offset a) + unat k - 1}" for i
      using that pos by (auto simp: in_bytes_def)
    with all have "in_bytes (ck_addr key) (unat (ck_size key)) (ga_home_node a) (ga_region_id a) i"
      if "i \<in> {unat (ga_offset a), unat (ga_offset a) + unat k - 1}" for i using that by blast
    from this [of "unat (ga_offset a)"] this [of "unat (ga_offset a) + unat k - 1"] show "covers key a k"
      using nw pos by (auto simp: covers_def in_bytes_def word_le_nat_alt unat_plus_no_wrap)
  qed
qed

text \<open>
  C32: \<^verbatim>\<open>Invalidate\<close> drops the entry with exactly the given address and size and no other, and
  returns 1 if there was one and 0 otherwise. So an entry that merely overlaps the range survives:
  a lookup of bytes that all lie in such an entry still hits, and returns what memory held when the
  cache was coherent with it, whatever is written to the range afterwards.
\<close>

theorem Invalidate_exact:
  assumes "cache_inv cm" and "coherent M cm"
  shows "cm_cached_reads (snd (Invalidate cm addr n)) =
      filter (\<lambda>(key, payload). ck_addr key \<noteq> addr \<or> ck_size key \<noteq> n) (cm_cached_reads cm) \<and>
    fst (Invalidate cm addr n) =
      (if \<exists>(key, payload) \<in> set (cm_cached_reads cm). ck_addr key = addr \<and> ck_size key = n then 1 else 0) \<and>
    cache_inv (snd (Invalidate cm addr n)) \<and>
    (\<forall>(key, payload) \<in> set (cm_cached_reads cm). \<forall>a k.
       (ck_addr key \<noteq> addr \<or> ck_size key \<noteq> n) \<and> in_space a k \<and>
       (\<forall>node region i. in_bytes a (unat k) node region i \<longrightarrow>
          in_bytes (ck_addr key) (unat (ck_size key)) node region i) \<longrightarrow>
       (\<exists>cm'. TryReadCached (snd (Invalidate cm addr n)) a True k = Some (Some (load M a (unat k)), cm')))"
proof (intro conjI)
  let ?cm = "snd (Invalidate cm addr n)"
  show reads: "cm_cached_reads ?cm = filter (\<lambda>(key, payload). ck_addr key \<noteq> addr \<or> ck_size key \<noteq> n) (cm_cached_reads cm)"
    unfolding Invalidate_drop_entry drop_entry_reads by (rule filter_cong_set) auto
  show "fst (Invalidate cm addr n) =
      (if \<exists>(key, payload) \<in> set (cm_cached_reads cm). ck_addr key = addr \<and> ck_size key = n then 1 else 0)"
    by (auto simp: Invalidate_def Let_def map_of_eq_None_iff image_iff split: option.split dest!: map_of_SomeD intro!: bexI)
  show inv: "cache_inv ?cm" unfolding Invalidate_drop_entry by (rule drop_entry_inv [OF assms(1)])
  have coh: "coherent M ?cm" using assms(2) by (auto simp: coherent_def reads)
  have "\<exists>cm'. TryReadCached ?cm a True k = Some (Some (load M a (unat k)), cm')"
    if "(key, payload) \<in> set (cm_cached_reads cm)" "ck_addr key \<noteq> addr \<or> ck_size key \<noteq> n" "in_space a k"
      "\<forall>node region i. in_bytes a (unat k) node region i \<longrightarrow> in_bytes (ck_addr key) (unat (ck_size key)) node region i"
    for key payload a k
  proof -
    have "covers key a k" using covers_iff_bytes [OF coherent_entry(1) [OF assms(2) that(1)] that(3)] that(4) by blast
    with that(1,2) have "cached_covers ?cm a k" by (auto simp: cached_covers_def reads)
    with TryReadCached_coherent [OF inv coh that(3)] show ?thesis by auto
  qed
  then show "\<forall>(key, payload) \<in> set (cm_cached_reads cm). \<forall>a k.
      (ck_addr key \<noteq> addr \<or> ck_size key \<noteq> n) \<and> in_space a k \<and>
      (\<forall>node region i. in_bytes a (unat k) node region i \<longrightarrow>
         in_bytes (ck_addr key) (unat (ck_size key)) node region i) \<longrightarrow>
      (\<exists>cm'. TryReadCached ?cm a True k = Some (Some (load M a (unat k)), cm'))" by blast
qed

theorem Invalidate_exact_witness:
  "fst (Invalidate one_entry (remote_addr 16) 2) = 0 \<and>
   (\<exists>cm'. TryReadCached (snd (Invalidate one_entry (remote_addr 16) 2)) (remote_addr 16) True 4 = Some (Some [0, 0, 0, 0], cm'))"
proof -
  have "in_space (remote_addr 16) 4" by (simp add: in_space_def remote_addr_def no_wrap_def)
  moreover have "load (\<lambda>node region i. 0) (remote_addr 16) 4 = [0, 0, 0, 0]" by (simp add: load_def upt_rec)
  moreover note run = Invalidate_exact [OF one_entry_inv one_entry_coherent, of "remote_addr 16" 2, unfolded one_entry_reads]
  moreover from run have "in_space a k \<and> (\<forall>node region i. in_bytes a (unat k) node region i \<longrightarrow>
      in_bytes (remote_addr 16) 4 node region i) \<longrightarrow>
      (\<exists>cm'. TryReadCached (snd (Invalidate one_entry (remote_addr 16) 2)) a True k =
         Some (Some (load (\<lambda>node region i. 0) a (unat k)), cm'))" for a k by simp
  from this [of "remote_addr 16" 4] have "in_space (remote_addr 16) 4 \<longrightarrow>
      (\<exists>cm'. TryReadCached (snd (Invalidate one_entry (remote_addr 16) 2)) (remote_addr 16) True 4 =
         Some (Some (load (\<lambda>node region i. 0) (remote_addr 16) 4), cm'))" by simp
  ultimately show ?thesis by simp
qed

text \<open>
  C18: Eviction is least-recently-used and minimal. \<^verbatim>\<open>EvictIfNeededLocked\<close> with a non-zero
  capacity keeps exactly the \<open>k\<close> most recently used entries for the largest \<open>k\<close> that leaves room
  for the incoming bytes (none when no \<open>k\<close> does), and counts the others as evictions.
\<close>

theorem EvictIfNeeded_lru:
  assumes "cache_inv cm" and "cfg_cache_capacity_bytes (cm_cfg cm) \<noteq> 0"
  shows "\<exists>k \<le> length (cm_lru cm).
    cm_lru (EvictIfNeededLocked cm inc) = take k (cm_lru cm) \<and>
    cm_cached_reads (EvictIfNeededLocked cm inc) =
      filter (\<lambda>e. fst e \<in> set (take k (cm_lru cm))) (cm_cached_reads cm) \<and>
    cm_eviction_count (EvictIfNeededLocked cm inc) = cm_eviction_count cm + of_nat (length (cm_lru cm) - k) \<and>
    (k = 0 \<or> has_room inc (EvictIfNeededLocked cm inc)) \<and>
    (\<forall>m. k < m \<and> m \<le> length (cm_lru cm) \<longrightarrow> \<not> has_room inc (keep m cm))"
proof -
  obtain k where k: "k \<le> length (cm_lru cm)" "evict_loop inc cm = keep k cm"
    "k = 0 \<or> has_room inc (keep k cm)"
    "\<And>m. k < m \<Longrightarrow> m \<le> length (cm_lru cm) \<Longrightarrow> \<not> has_room inc (keep m cm)"
    by (rule evict_loop_spec [OF assms(1)]) blast
  have "EvictIfNeededLocked cm inc = keep k cm" using k(2) assms(2) by (simp add: EvictIfNeededLocked_def)
  with k(1,3,4) show ?thesis by (intro exI [of _ k]) (auto simp: keep_def)
qed

theorem EvictIfNeeded_lru_witness:
  "\<exists>k \<le> length (cm_lru one_entry).
    cm_lru (EvictIfNeededLocked one_entry 6) = take k (cm_lru one_entry) \<and>
    cm_cached_reads (EvictIfNeededLocked one_entry 6) =
      filter (\<lambda>e. fst e \<in> set (take k (cm_lru one_entry))) (cm_cached_reads one_entry) \<and>
    cm_eviction_count (EvictIfNeededLocked one_entry 6) =
      cm_eviction_count one_entry + of_nat (length (cm_lru one_entry) - k) \<and>
    (k = 0 \<or> has_room 6 (EvictIfNeededLocked one_entry 6)) \<and>
    (\<forall>m. k < m \<and> m \<le> length (cm_lru one_entry) \<longrightarrow> \<not> has_room 6 (keep m one_entry))"
  by (rule EvictIfNeeded_lru [OF one_entry_inv]) (simp add: one_entry_def)

text \<open>
  C19: The cache stays within its capacity. With a capacity below \<open>2\<^sup>63\<close> bytes, inserting any
  payload into a cache within its capacity succeeds and leaves it within its capacity and
  well-formed; a payload of at most the capacity is resident afterwards.
\<close>

theorem InsertCached_capacity:
  assumes "cache_inv cm" and "within_capacity cm" and "unat (cfg_cache_capacity_bytes (cm_cfg cm)) < 2 ^ 63"
    and "unat n \<le> length src"
  shows "\<exists>cm'. InsertCached cm addr (Some src) n = Some cm' \<and> within_capacity cm' \<and> cache_inv cm' \<and>
    (admits cm n \<longrightarrow> hd (cm_lru cm') = \<lparr>ck_addr = addr, ck_size = n\<rparr> \<and>
       map_of (cm_cached_reads cm') \<lparr>ck_addr = addr, ck_size = n\<rparr> = Some (take (unat n) src))"
proof -
  let ?key = "\<lparr>ck_addr = addr, ck_size = n\<rparr>"
  have len: "length (take (unat n) src) = unat (ck_size ?key)" using assms(4) by simp
  show ?thesis
  proof (cases "admits cm n")
    case True
    then have "ck_size ?key \<noteq> 0" "admits cm (ck_size ?key)" by (simp_all add: admits_def)
    with inserted_capacity [OF assms(1,2) len assms(3)] inserted_inv [OF assms(1) len]
      inserted_present [OF assms(1,2) len] True
    show ?thesis by (simp add: InsertCached_inserted [OF assms(1,4)])
  next
    case False
    with assms show ?thesis by (simp add: InsertCached_inserted)
  qed
qed

theorem InsertCached_capacity_witness:
  "\<exists>cm'. InsertCached one_entry (remote_addr 40) (Some [1, 2, 3, 4, 5, 6]) 6 = Some cm' \<and>
     within_capacity cm' \<and> map_of (cm_cached_reads cm') \<lparr>ck_addr = remote_addr 40, ck_size = 6\<rparr> =
       Some [1, 2, 3, 4, 5, 6]"
proof -
  have "within_capacity one_entry"
    by (simp add: within_capacity_def one_entry_def resident_bytes_def)
  moreover have "unat (cfg_cache_capacity_bytes (cm_cfg one_entry)) < 2 ^ 63" by (simp add: one_entry_def)
  moreover have "admits one_entry 6" by (simp add: admits_def one_entry_def)
  ultimately show ?thesis
    using InsertCached_capacity [OF one_entry_inv, of 6 "[1, 2, 3, 4, 5, 6]" "remote_addr 40"] by auto
qed

end
