(* ===== verification/Write_Queue.thy ===== *)
theory Write_Queue
  imports Cache_State Global_Memory
begin

text \<open>
  The destination-aware queues of remote writes: \<^verbatim>\<open>QueueRemoteWrite\<close>,
  \<^verbatim>\<open>CanMergeWrites\<close>, \<^verbatim>\<open>MergeWrites\<close>, \<^verbatim>\<open>ShouldFlushDestination\<close>,
  \<^verbatim>\<open>DrainRemoteWrites\<close> and \<^verbatim>\<open>PendingDestinations\<close> of \<^verbatim>\<open>CacheManager\<close>.
\<close>

section \<open>Model\<close>

definition payload_size :: "PendingRemoteWrite \<Rightarrow> u64" where
  "payload_size w = of_nat (length (pw_payload w))"

definition CanMergeWrites :: "PendingRemoteWrite \<Rightarrow> PendingRemoteWrite \<Rightarrow> bool" where
  "CanMergeWrites current incoming =
     (if ga_home_node (pw_addr current) \<noteq> ga_home_node (pw_addr incoming) then False
      else if ga_region_id (pw_addr current) \<noteq> ga_region_id (pw_addr incoming) then False
      else
        let current_begin = ga_offset (pw_addr current);
            current_end = ga_offset (pw_addr current) + payload_size current;
            incoming_begin = ga_offset (pw_addr incoming);
            incoming_end = ga_offset (pw_addr incoming) + payload_size incoming
        in \<not> (incoming_end < current_begin \<or> current_end < incoming_begin) \<or>
           current_end = incoming_begin \<or> incoming_end = current_begin)"

text \<open>A copy that leaves the merged buffer has no defined result.\<close>

definition MergeWrites :: "PendingRemoteWrite \<Rightarrow> PendingRemoteWrite \<Rightarrow> PendingRemoteWrite option" where
  "MergeWrites current incoming =
     (let merged_begin = min (ga_offset (pw_addr current)) (ga_offset (pw_addr incoming));
          merged_end = max (ga_offset (pw_addr current) + payload_size current)
                           (ga_offset (pw_addr incoming) + payload_size incoming);
          merged_payload = replicate (unat (merged_end - merged_begin)) 0
      in do { merged_payload \<leftarrow>
                mem_write merged_payload (ga_offset (pw_addr current) - merged_begin) (pw_payload current);
              merged_payload \<leftarrow>
                mem_write merged_payload (ga_offset (pw_addr incoming) - merged_begin) (pw_payload incoming);
              Some (current\<lparr>pw_addr := (pw_addr current)\<lparr>ga_offset := merged_begin\<rparr>,
                            pw_payload := merged_payload\<rparr>) })"

text \<open>
  The loop of \<^verbatim>\<open>QueueRemoteWrite\<close>: the first queued write that can be merged absorbs
  the incoming one (result \<^term>\<open>True\<close>), otherwise the incoming one is appended.
\<close>

fun queue_insert ::
    "PendingRemoteWrite \<Rightarrow> PendingRemoteWrite list \<Rightarrow> (bool \<times> PendingRemoteWrite list) option" where
  "queue_insert incoming [] = Some (False, [incoming])"
| "queue_insert incoming (queued # rest) =
     (if CanMergeWrites queued incoming
      then do { merged \<leftarrow> MergeWrites queued incoming;
                let merged = merged\<lparr>pw_owner_biased := pw_owner_biased merged \<or> pw_owner_biased incoming,
                                     pw_owner_handoff := pw_owner_handoff merged \<or> pw_owner_handoff incoming\<rparr>;
                    merged = (if mode_int (pw_mode incoming) < mode_int (pw_mode merged)
                              then merged\<lparr>pw_mode := pw_mode incoming\<rparr> else merged)
                in Some (True, merged # rest) }
      else do { (merged, rest') \<leftarrow> queue_insert incoming rest; Some (merged, queued # rest') })"

definition queue_of :: "CacheManager \<Rightarrow> NodeId \<Rightarrow> PendingRemoteWrite list" where
  "queue_of cm node = (case map_of (cm_write_queues cm) node of None \<Rightarrow> [] | Some q \<Rightarrow> q)"

definition QueueRemoteWrite ::
    "CacheManager \<Rightarrow> GlobalAddr \<Rightarrow> byte list option \<Rightarrow> u64 \<Rightarrow> CoherenceMode \<Rightarrow> bool \<Rightarrow> bool \<Rightarrow>
     (bool \<times> CacheManager) option" where
  "QueueRemoteWrite cm addr buf size' mode owner_biased owner_handoff =
     (case buf of
        None \<Rightarrow> Some (False, cm)
      | Some src \<Rightarrow>
          if size' = 0 \<or> \<not> cfg_enable_write_batching (cm_cfg cm) then Some (False, cm)
          else
            do { bytes \<leftarrow> mem_read src 0 size';
                 let incoming = \<lparr>pw_addr = addr, pw_payload = bytes, pw_mode = mode,
                                 pw_owner_biased = owner_biased, pw_owner_handoff = owner_handoff\<rparr>
                 in do { (merged, queue) \<leftarrow> queue_insert incoming (queue_of cm (ga_home_node addr));
                         Some (merged,
                               cm\<lparr>cm_write_queues :=
                                    AList.update (ga_home_node addr) queue (cm_write_queues cm)\<rparr>) } })"

definition ShouldFlushDestination :: "CacheManager \<Rightarrow> NodeId \<Rightarrow> u64 \<Rightarrow> bool" where
  "ShouldFlushDestination cm node threshold =
     (case map_of (cm_write_queues cm) node of
        None \<Rightarrow> False
      | Some queue \<Rightarrow> max 1 threshold \<le> of_nat (length queue))"

definition DrainRemoteWrites :: "CacheManager \<Rightarrow> NodeId \<Rightarrow> DrainedRemoteWriteBatch \<times> CacheManager" where
  "DrainRemoteWrites cm node =
     (case map_of (cm_write_queues cm) node of
        None \<Rightarrow> (\<lparr>db_writes = [], db_merged_writes = 0, db_total_bytes = 0\<rparr>, cm)
      | Some queue \<Rightarrow>
          (\<lparr>db_writes = queue, db_merged_writes = 0,
            db_total_bytes = sum_list (map payload_size queue)\<rparr>,
           cm\<lparr>cm_write_queues := AList.delete node (cm_write_queues cm)\<rparr>))"

definition PendingDestinations :: "CacheManager \<Rightarrow> NodeId list" where
  "PendingDestinations cm = map fst (filter (\<lambda>(node, queued). queued \<noteq> []) (cm_write_queues cm))"

section \<open>Effect on memory\<close>

definition apply_write :: "PendingRemoteWrite \<Rightarrow> Memory \<Rightarrow> Memory" where
  "apply_write w M = store M (pw_addr w) (pw_payload w)"

abbreviation apply_writes :: "PendingRemoteWrite list \<Rightarrow> Memory \<Rightarrow> Memory" where
  "apply_writes ws M \<equiv> fold apply_write ws M"

definition writes_byte :: "PendingRemoteWrite \<Rightarrow> NodeId \<Rightarrow> RegionId \<Rightarrow> nat \<Rightarrow> bool" where
  "writes_byte w = in_bytes (pw_addr w) (length (pw_payload w))"

text \<open>A queued write is not empty and its end does not wrap.\<close>

definition write_ok :: "PendingRemoteWrite \<Rightarrow> bool" where
  "write_ok w \<longleftrightarrow> pw_payload w \<noteq> [] \<and> unat (ga_offset (pw_addr w)) + length (pw_payload w) < 2 ^ 64"

lemma write_ok_nat:
  assumes "write_ok w"
  shows "unat (payload_size w) = length (pw_payload w)"
    "unat (ga_offset (pw_addr w) + payload_size w) = unat (ga_offset (pw_addr w)) + length (pw_payload w)"
proof -
  show "unat (payload_size w) = length (pw_payload w)"
    using assms unfolding payload_size_def by (intro unat_of_nat_u64) (simp add: write_ok_def)
  with assms show "unat (ga_offset (pw_addr w) + payload_size w) =
      unat (ga_offset (pw_addr w)) + length (pw_payload w)"
    by (simp add: write_ok_def unat_plus_no_wrap no_wrap_def)
qed

lemma CanMergeWrites_nat:
  assumes "write_ok c" "write_ok i"
  shows "CanMergeWrites c i \<longleftrightarrow>
    ga_home_node (pw_addr c) = ga_home_node (pw_addr i) \<and> ga_region_id (pw_addr c) = ga_region_id (pw_addr i) \<and>
    unat (ga_offset (pw_addr c)) \<le> unat (ga_offset (pw_addr i)) + length (pw_payload i) \<and>
    unat (ga_offset (pw_addr i)) \<le> unat (ga_offset (pw_addr c)) + length (pw_payload c)"
  by (auto simp: CanMergeWrites_def Let_def word_less_nat_alt word_unat_eq_iff write_ok_nat [OF assms(1)]
        write_ok_nat [OF assms(2)])

lemma apply_write_other: "\<not> writes_byte w node region i \<Longrightarrow> apply_write w M node region i = M node region i"
  by (simp add: apply_write_def store_def writes_byte_def)

lemma apply_write_byte:
  "writes_byte w node region i \<Longrightarrow>
   apply_write w M node region i = pw_payload w ! (i - unat (ga_offset (pw_addr w)))"
  by (simp add: apply_write_def store_def writes_byte_def)

subsection \<open>Merging two writes\<close>

lemma unat_min: "unat (min a b :: 'a::len word) = min (unat a) (unat b)"
  by (simp add: min_def word_le_nat_alt)

lemma unat_max: "unat (max a b :: 'a::len word) = max (unat a) (unat b)"
  by (simp add: max_def word_le_nat_alt)

text \<open>Two copies into one buffer, the second over the first.\<close>

lemma overlay_two:
  assumes "unat a + length xs \<le> length m" "unat b + length ys \<le> length m"
  obtains m' where "Option.bind (mem_write m a xs) (\<lambda>m. mem_write m b ys) = Some m'" "length m' = length m"
    "\<And>k. k < length m \<Longrightarrow> m' ! k =
       (if unat b \<le> k \<and> k < unat b + length ys then ys ! (k - unat b)
        else if unat a \<le> k \<and> k < unat a + length xs then xs ! (k - unat a) else m ! k)"
proof -
  from assms(1) obtain one where one: "mem_write m a xs = Some one" by (auto simp: mem_write_def)
  note len = mem_write_length [OF one]
  from assms(2) len obtain two where two: "mem_write one b ys = Some two" by (auto simp: mem_write_def)
  have "two ! k = (if unat b \<le> k \<and> k < unat b + length ys then ys ! (k - unat b)
      else if unat a \<le> k \<and> k < unat a + length xs then xs ! (k - unat a) else m ! k)"
    if "k < length m" for k
    using that by (simp add: mem_write_nth [OF two] mem_write_nth [OF one] len)
  with that [of two] one two len mem_write_length [OF two] show ?thesis by simp
qed

text \<open>The offsets, in natural numbers, of two writes that can be merged.\<close>

lemma merge_offsets:
  assumes c: "write_ok c" and i: "write_ok i" and m: "CanMergeWrites c i"
  defines "co \<equiv> ga_offset (pw_addr c)" and "io \<equiv> ga_offset (pw_addr i)"
  shows "unat (co - min co io) = unat co - min (unat co) (unat io)"
    and "unat (io - min co io) = unat io - min (unat co) (unat io)"
    and "unat (max (co + payload_size c) (io + payload_size i) - min co io) =
      max (unat co + length (pw_payload c)) (unat io + length (pw_payload i)) - min (unat co) (unat io)"
    and "unat co \<le> unat io + length (pw_payload i)" and "unat io \<le> unat co + length (pw_payload c)"
proof -
  note nat = write_ok_nat [OF c, folded co_def] write_ok_nat [OF i, folded io_def]
  show "unat (co - min co io) = unat co - min (unat co) (unat io)"
    by (subst unat_minus_le) (auto simp: unat_min word_le_nat_alt)
  show "unat (io - min co io) = unat io - min (unat co) (unat io)"
    by (subst unat_minus_le) (auto simp: unat_min word_le_nat_alt)
  show "unat (max (co + payload_size c) (io + payload_size i) - min co io) =
      max (unat co + length (pw_payload c)) (unat io + length (pw_payload i)) - min (unat co) (unat io)"
    by (subst unat_minus_le) (auto simp: word_le_nat_alt unat_min unat_max nat)
  show "unat co \<le> unat io + length (pw_payload i)" "unat io \<le> unat co + length (pw_payload c)"
    using m unfolding CanMergeWrites_nat [OF c i] co_def io_def by auto
qed

lemma merged_interval:
  "co \<le> io + il \<Longrightarrow> io \<le> co + cl \<Longrightarrow>
   (min co io \<le> x \<and> x < max (co + cl) (io + il)) \<longleftrightarrow> (co \<le> x \<and> x < co + cl) \<or> (io \<le> x \<and> x < io + il)"
  for co io cl il x :: nat
  by (simp add: min_def max_def) linarith

lemma shifted_interval:
  "lo \<le> a \<Longrightarrow> lo \<le> x \<Longrightarrow> (a - lo \<le> x - lo \<and> x - lo < a - lo + n) \<longleftrightarrow> (a \<le> x \<and> x < a + n)"
  for lo a x n :: nat
  by linarith

lemma shifted_index: "lo \<le> a \<Longrightarrow> lo \<le> x \<Longrightarrow> x - lo - (a - lo) = x - a" for lo a x :: nat
  by simp

text \<open>The buffer \<^verbatim>\<open>MergeWrites\<close> fills, byte by byte at absolute offsets.\<close>

lemma merged_bytes:
  assumes c: "write_ok c" and i: "write_ok i" and m: "CanMergeWrites c i"
  defines "co \<equiv> unat (ga_offset (pw_addr c))" and "io \<equiv> unat (ga_offset (pw_addr i))"
  obtains bytes where
    "MergeWrites c i = Some (c\<lparr>pw_addr := (pw_addr c)\<lparr>ga_offset :=
       min (ga_offset (pw_addr c)) (ga_offset (pw_addr i))\<rparr>, pw_payload := bytes\<rparr>)"
    "length bytes = max (co + length (pw_payload c)) (io + length (pw_payload i)) - min co io"
    "\<And>x. min co io \<le> x \<Longrightarrow> x < max (co + length (pw_payload c)) (io + length (pw_payload i)) \<Longrightarrow>
       bytes ! (x - min co io) = (if io \<le> x \<and> x < io + length (pw_payload i) then pw_payload i ! (x - io)
                                  else pw_payload c ! (x - co))"
proof -
  let ?co = "ga_offset (pw_addr c)" and ?io = "ga_offset (pw_addr i)"
  let ?cl = "length (pw_payload c)" and ?il = "length (pw_payload i)"
  let ?zeros = "replicate (unat (max (?co + payload_size c) (?io + payload_size i) - min ?co ?io)) 0 :: byte list"
  note off = merge_offsets [OF c i m, folded co_def io_def]
  have zlen: "length ?zeros = max (co + ?cl) (io + ?il) - min co io" by (simp add: off)
  have fit: "unat (?co - min ?co ?io) + ?cl \<le> length ?zeros" "unat (?io - min ?co ?io) + ?il \<le> length ?zeros"
    by (simp_all only: off length_replicate)
  obtain bytes where merge: "Option.bind (mem_write ?zeros (?co - min ?co ?io) (pw_payload c))
        (\<lambda>m. mem_write m (?io - min ?co ?io) (pw_payload i)) = Some bytes"
    and len: "length bytes = length ?zeros"
    and nth: "\<And>k. k < length ?zeros \<Longrightarrow> bytes ! k =
       (if io - min co io \<le> k \<and> k < io - min co io + ?il then pw_payload i ! (k - (io - min co io))
        else if co - min co io \<le> k \<and> k < co - min co io + ?cl then pw_payload c ! (k - (co - min co io))
        else ?zeros ! k)"
    using overlay_two [OF fit] unfolding off by blast
  have "bytes ! (x - min co io) = (if io \<le> x \<and> x < io + ?il then pw_payload i ! (x - io) else pw_payload c ! (x - co))"
    if x: "min co io \<le> x" "x < max (co + ?cl) (io + ?il)" for x
  proof -
    have lo: "min co io \<le> co" "min co io \<le> io" by simp_all
    have "x - min co io < length ?zeros" unfolding zlen using x by linarith
    note eq = nth [OF this, unfolded shifted_interval [OF lo(1) x(1)] shifted_interval [OF lo(2) x(1)]
        shifted_index [OF lo(1) x(1)] shifted_index [OF lo(2) x(1)]]
    have "(co \<le> x \<and> x < co + ?cl) \<or> (io \<le> x \<and> x < io + ?il)"
      using x merged_interval [OF off(4,5)] by blast
    then show ?thesis unfolding eq by argo
  qed
  moreover have "length bytes = max (co + ?cl) (io + ?il) - min co io" using len zlen by simp
  ultimately show ?thesis using that merge by (auto simp: MergeWrites_def Let_def bind_eq_Some_conv)
qed

text \<open>
  The merged write covers the bytes of both, and applying it is applying the current write and
  then the incoming one.
\<close>

lemma store_merged:
  assumes same: "ga_home_node b = ga_home_node a" "ga_region_id b = ga_region_id a"
    "ga_home_node w = ga_home_node a" "ga_region_id w = ga_region_id a"
    and w: "unat (ga_offset w) = lo" "length bytes = hi - lo"
    and cover: "\<And>x. (lo \<le> x \<and> x < hi) \<longleftrightarrow>
      (unat (ga_offset a) \<le> x \<and> x < unat (ga_offset a) + length xs) \<or>
      (unat (ga_offset b) \<le> x \<and> x < unat (ga_offset b) + length ys)"
    and nth: "\<And>x. lo \<le> x \<Longrightarrow> x < hi \<Longrightarrow> bytes ! (x - lo) =
      (if unat (ga_offset b) \<le> x \<and> x < unat (ga_offset b) + length ys then ys ! (x - unat (ga_offset b))
       else xs ! (x - unat (ga_offset a)))"
  shows "in_bytes w (length bytes) node region x \<longleftrightarrow>
      in_bytes a (length xs) node region x \<or> in_bytes b (length ys) node region x"
    and "store M w bytes = store (store M a xs) b ys"
proof -
  have span: "lo \<le> x \<and> x < lo + (hi - lo) \<longleftrightarrow> lo \<le> x \<and> x < hi" for x by linarith
  show cov: "in_bytes w (length bytes) node region x \<longleftrightarrow>
      in_bytes a (length xs) node region x \<or> in_bytes b (length ys) node region x" for node region x
    using cover [of x] by (auto simp: in_bytes_def same w span)
  show "store M w bytes = store (store M a xs) b ys"
  proof (intro ext)
    fix node region x
    show "store M w bytes node region x = store (store M a xs) b ys node region x"
    proof (cases "in_bytes w (length bytes) node region x")
      case True
      then have "lo \<le> x" "x < hi" by (auto simp: in_bytes_def w span)
      from nth [OF this] cov [of node region x] True show ?thesis
        by (auto simp: store_def in_bytes_def same w)
    next
      case False
      with cov [of node region x] show ?thesis by (simp add: store_def)
    qed
  qed
qed

lemma MergeWrites_effect:
  assumes c: "write_ok c" and i: "write_ok i" and m: "CanMergeWrites c i"
  obtains w where "MergeWrites c i = Some w" "write_ok w"
    "w = c\<lparr>pw_addr := pw_addr w, pw_payload := pw_payload w\<rparr>"
    "ga_home_node (pw_addr w) = ga_home_node (pw_addr i)"
    "\<And>node region x. writes_byte w node region x \<longleftrightarrow> writes_byte c node region x \<or> writes_byte i node region x"
    "\<And>M. apply_write w M = apply_write i (apply_write c M)"
proof -
  let ?co = "unat (ga_offset (pw_addr c))" and ?io = "unat (ga_offset (pw_addr i))"
  let ?hi = "max (?co + length (pw_payload c)) (?io + length (pw_payload i))"
  obtain bytes where merge: "MergeWrites c i = Some (c\<lparr>pw_addr := (pw_addr c)\<lparr>ga_offset :=
       min (ga_offset (pw_addr c)) (ga_offset (pw_addr i))\<rparr>, pw_payload := bytes\<rparr>)"
    and len: "length bytes = ?hi - min ?co ?io"
    and nth: "\<And>x. min ?co ?io \<le> x \<Longrightarrow> x < ?hi \<Longrightarrow>
       bytes ! (x - min ?co ?io) = (if ?io \<le> x \<and> x < ?io + length (pw_payload i) then pw_payload i ! (x - ?io)
                                  else pw_payload c ! (x - ?co))"
    by (rule merged_bytes [OF assms]) blast
  define a where "a = (pw_addr c)\<lparr>ga_offset := min (ga_offset (pw_addr c)) (ga_offset (pw_addr i))\<rparr>"
  have same: "ga_home_node (pw_addr i) = ga_home_node (pw_addr c)"
    "ga_region_id (pw_addr i) = ga_region_id (pw_addr c)"
    using m unfolding CanMergeWrites_nat [OF c i] by auto
  note merged = store_merged [where a = "pw_addr c" and b = "pw_addr i" and w = a and bytes = bytes,
      OF same _ _ _ len merged_interval [OF merge_offsets(4,5) [OF assms]] nth]
  have "write_ok (c\<lparr>pw_addr := a, pw_payload := bytes\<rparr>)"
    using c i len by (auto simp: write_ok_def a_def unat_min)
  then show ?thesis
    using that [of "c\<lparr>pw_addr := a, pw_payload := bytes\<rparr>"] merge merged same
    by (simp add: a_def unat_min writes_byte_def apply_write_def)
qed

subsection \<open>Queueing\<close>

text \<open>The queued writes behind the one that absorbs the incoming write.\<close>

definition later :: "PendingRemoteWrite \<Rightarrow> PendingRemoteWrite list \<Rightarrow> PendingRemoteWrite list" where
  "later incoming queue = tl (dropWhile (\<lambda>w. \<not> CanMergeWrites w incoming) queue)"

lemma later_simps [simp]:
  "later incoming [] = []"
  "CanMergeWrites w incoming \<Longrightarrow> later incoming (w # queue) = queue"
  "\<not> CanMergeWrites w incoming \<Longrightarrow> later incoming (w # queue) = later incoming queue"
  by (simp_all add: later_def)

lemma apply_writes_uncovered:
  "(\<And>w. w \<in> set ws \<Longrightarrow> \<not> writes_byte w node region x) \<Longrightarrow>
   apply_writes ws M node region x = M node region x"
  by (induction ws arbitrary: M) (auto simp: apply_write_other)

lemma apply_writes_cong: "A node region x = B node region x \<Longrightarrow>
   apply_writes ws A node region x = apply_writes ws B node region x"
proof (induction ws arbitrary: A B)
  case (Cons w ws)
  have "apply_write w A node region x = apply_write w B node region x"
    using Cons.prems by (cases "writes_byte w node region x") (simp_all add: apply_write_other apply_write_byte)
  with Cons.IH [of "apply_write w A" "apply_write w B"] show ?case by simp
qed simp

lemma apply_writes_covered:
  "\<exists>w \<in> set ws. writes_byte w node region x \<Longrightarrow>
   apply_writes ws A node region x = apply_writes ws B node region x"
proof (induction ws arbitrary: A B)
  case (Cons w ws)
  show ?case
  proof (cases "writes_byte w node region x")
    case True
    then have "apply_write w A node region x = apply_write w B node region x" by (simp add: apply_write_byte)
    then show ?thesis using apply_writes_cong [of "apply_write w A" node region x "apply_write w B" ws] by simp
  next
    case False
    with Cons.prems Cons.IH [of "apply_write w A" "apply_write w B"] show ?thesis by simp
  qed
qed simp

text \<open>
  An incoming write that takes effect everywhere except on the bytes the given later writes
  overwrite.
\<close>

definition apply_behind :: "PendingRemoteWrite list \<Rightarrow> PendingRemoteWrite \<Rightarrow> Memory \<Rightarrow> Memory" where
  "apply_behind behind incoming M = (\<lambda>node region x.
     if \<exists>w \<in> set behind. writes_byte w node region x then M node region x
     else apply_write incoming M node region x)"

lemma apply_writes_behind:
  "apply_writes behind (apply_write incoming M) = apply_behind behind incoming (apply_writes behind M)"
proof (intro ext)
  fix node region x
  show "apply_writes behind (apply_write incoming M) node region x =
      apply_behind behind incoming (apply_writes behind M) node region x"
  proof (cases "\<exists>w \<in> set behind. writes_byte w node region x")
    case True
    from apply_writes_covered [OF this, of "apply_write incoming M" M] True show ?thesis
      by (simp add: apply_behind_def)
  next
    case False
    then have "apply_writes behind N node region x = N node region x" for N
      by (intro apply_writes_uncovered) auto
    with False show ?thesis
      by (cases "writes_byte incoming node region x")
         (auto simp: apply_behind_def apply_write_byte apply_write_other)
  qed
qed

lemma apply_behind_disjoint:
  "(\<And>w node region x. w \<in> set behind \<Longrightarrow> \<not> (writes_byte w node region x \<and> writes_byte incoming node region x)) \<Longrightarrow>
   apply_behind behind incoming M = apply_write incoming M"
  by (intro ext) (auto simp: apply_behind_def apply_write_other)

lemma queue_insert_behind:
  assumes "write_ok incoming" "list_all write_ok queue"
  shows "\<exists>merged queue'. queue_insert incoming queue = Some (merged, queue') \<and> list_all write_ok queue' \<and>
    (merged \<longleftrightarrow> list_ex (\<lambda>w. CanMergeWrites w incoming) queue) \<and>
    length queue' = length queue + (if merged then 0 else 1) \<and>
    (\<forall>M. apply_writes queue' M = apply_behind (later incoming queue) incoming (apply_writes queue M))"
  using assms(2)
proof (induction queue)
  case Nil
  then show ?case using assms(1) by (auto simp: apply_behind_def)
next
  case (Cons w queue)
  show ?case
  proof (cases "CanMergeWrites w incoming")
    case True
    have "write_ok w" using Cons.prems by simp
    from MergeWrites_effect [OF this assms(1) True] obtain m where
      m: "MergeWrites w incoming = Some m" "write_ok m" "\<And>M. apply_write m M = apply_write incoming (apply_write w M)"
      by metis
    obtain m' where ins: "queue_insert incoming (w # queue) = Some (True, m' # queue)"
      and m': "pw_addr m' = pw_addr m" "pw_payload m' = pw_payload m"
      using True m(1) by (auto simp: Let_def)
    have "write_ok m'" using m(2) m' by (simp add: write_ok_def)
    moreover have "apply_writes (m' # queue) M =
        apply_behind (later incoming (w # queue)) incoming (apply_writes (w # queue) M)" for M
    proof -
      have "apply_write m' M = apply_write incoming (apply_write w M)"
        using m(3) [of M] m' by (simp add: apply_write_def)
      with apply_writes_behind [of queue incoming "apply_write w M"] True show ?thesis by simp
    qed
    ultimately show ?thesis
      using True Cons.prems by (intro exI [of _ True] exI [of _ "m' # queue"]) (simp add: ins del: queue_insert.simps)
  next
    case False
    with Cons show ?thesis by auto
  qed
qed

lemma queue_insert_bytes:
  assumes "write_ok incoming" "list_all write_ok queue" "queue_insert incoming queue = Some (merged, queue')"
  shows "list_ex (\<lambda>w. writes_byte w node region x) queue' \<longleftrightarrow>
    list_ex (\<lambda>w. writes_byte w node region x) queue \<or> writes_byte incoming node region x"
  using assms(2,3)
proof (induction queue arbitrary: queue')
  case Nil
  then show ?case by auto
next
  case (Cons w queue)
  show ?case
  proof (cases "CanMergeWrites w incoming")
    case True
    have "write_ok w" using Cons.prems by simp
    from MergeWrites_effect [OF this assms(1) True] obtain m where m: "MergeWrites w incoming = Some m"
      "\<And>node region x. writes_byte m node region x \<longleftrightarrow> writes_byte w node region x \<or> writes_byte incoming node region x"
      by metis
    obtain m' where "queue' = m' # queue" "pw_addr m' = pw_addr m" "pw_payload m' = pw_payload m"
      using Cons.prems(2) True m(1) by (auto simp: Let_def)
    with m(2) show ?thesis by (auto simp: writes_byte_def)
  next
    case False
    with Cons show ?thesis by (auto simp: bind_eq_Some_conv)
  qed
qed

lemma later_subset: "set (later incoming queue) \<subseteq> set queue"
  by (induction queue) (auto simp: later_def)

section \<open>The contract of a write buffer\<close>

text \<open>
  A buffer takes writes one at a time and is drained as a list. Pushing a write has the effect of
  the write, except on the bytes of the buffered writes it is put behind of. A client that writes
  every byte at most once between two drains therefore sees its writes in program order.
\<close>

locale write_buffer =
  fixes push :: "PendingRemoteWrite \<Rightarrow> 'q \<Rightarrow> 'q option"
    and content :: "'q \<Rightarrow> PendingRemoteWrite list"
    and behind :: "PendingRemoteWrite \<Rightarrow> 'q \<Rightarrow> PendingRemoteWrite list"
    and good :: "'q \<Rightarrow> bool"
  assumes push_effect:
      "good q \<Longrightarrow> write_ok w \<Longrightarrow>
       \<exists>q'. push w q = Some q' \<and> good q' \<and>
         (\<forall>M. apply_writes (content q') M = apply_behind (behind w q) w (apply_writes (content q) M))"
    and push_bytes:
      "good q \<Longrightarrow> write_ok w \<Longrightarrow> push w q = Some q' \<Longrightarrow>
       list_ex (\<lambda>w. writes_byte w node region x) (content q') \<longleftrightarrow>
       list_ex (\<lambda>w. writes_byte w node region x) (content q) \<or> writes_byte w node region x"
    and behind_content: "set (behind w q) \<subseteq> set (content q)"
begin

lemma push_disjoint:
  assumes "good q" "write_ok w"
    and "\<And>v node region x. v \<in> set (content q) \<Longrightarrow> \<not> (writes_byte v node region x \<and> writes_byte w node region x)"
  shows "\<exists>q'. push w q = Some q' \<and> good q' \<and>
    (\<forall>M. apply_writes (content q') M = apply_write w (apply_writes (content q) M))"
proof -
  have "apply_behind (behind w q) w M = apply_write w M" for M
    using assms(3) behind_content by (intro apply_behind_disjoint) blast
  with push_effect [OF assms(1,2)] show ?thesis by auto
qed

lemma disjoint_in_order:
  assumes "good q" "list_all write_ok ws"
    and "\<And>v w node region x. v \<in> set (content q) \<Longrightarrow> w \<in> set ws \<Longrightarrow>
      \<not> (writes_byte v node region x \<and> writes_byte w node region x)"
    and "pairwise (\<lambda>v w. \<forall>node region x. \<not> (writes_byte v node region x \<and> writes_byte w node region x)) (set ws)"
    and "distinct ws"
  shows "\<exists>q'. foldO push ws q = Some q' \<and> good q' \<and>
    (\<forall>M. apply_writes (content q') M = apply_writes (content q @ ws) M)"
  using assms
proof (induction ws arbitrary: q)
  case Nil
  then show ?case by simp
next
  case (Cons w ws)
  have ok: "write_ok w" using Cons.prems(2) by simp
  have "\<not> (writes_byte v node region x \<and> writes_byte w node region x)"
    if "v \<in> set (content q)" for v node region x
    by (rule Cons.prems(3) [OF that]) simp
  from push_disjoint [OF Cons.prems(1) ok this] obtain q' where q': "push w q = Some q'" "good q'"
    "\<And>M. apply_writes (content q') M = apply_write w (apply_writes (content q) M)" by blast
  have apart: "\<not> (writes_byte v node region x \<and> writes_byte u node region x)"
    if "v \<in> set (content q')" "u \<in> set ws" for v u node region x
  proof
    assume both: "writes_byte v node region x \<and> writes_byte u node region x"
    then have "list_ex (\<lambda>w. writes_byte w node region x) (content q')"
      using that(1) by (auto simp: list_ex_iff)
    then have "list_ex (\<lambda>w. writes_byte w node region x) (content q) \<or> writes_byte w node region x"
      using push_bytes [OF Cons.prems(1) ok q'(1)] by simp
    then show False
    proof
      assume "list_ex (\<lambda>w. writes_byte w node region x) (content q)"
      then obtain v' where "v' \<in> set (content q)" "writes_byte v' node region x" by (auto simp: list_ex_iff)
      with Cons.prems(3) [of v' u node region x] that(2) both show False by simp
    next
      assume "writes_byte w node region x"
      moreover have "w \<noteq> u" using Cons.prems(5) that(2) by auto
      ultimately show False using Cons.prems(4) that(2) both by (simp add: pairwise_insert)
    qed
  qed
  have rest: "list_all write_ok ws" "distinct ws"
    "pairwise (\<lambda>v w. \<forall>node region x. \<not> (writes_byte v node region x \<and> writes_byte w node region x)) (set ws)"
    using Cons.prems(2,4,5) by (simp_all add: pairwise_insert)
  from Cons.IH [OF q'(2) rest(1) apart rest(3,2)] q' show ?case by auto
qed

end

interpretation remote_queue: write_buffer
  "\<lambda>w q. map_option snd (queue_insert w q)" "\<lambda>q. q" later "list_all write_ok"
proof (unfold_locales, goal_cases)
  case (1 q w)
  from queue_insert_behind [OF 1(2,1)] show ?case by auto
next
  case (2 q w q' node region x)
  from 2(3) obtain merged where "queue_insert w q = Some (merged, q')" by auto
  from queue_insert_bytes [OF 2(2,1) this] show ?case .
next
  case (3 w q)
  show ?case by (rule later_subset)
qed

section \<open>Invariant of the queues\<close>

text \<open>
  Every destination has one queue, and a queue holds well-formed writes to its destination.
\<close>

definition queues_inv :: "CacheManager \<Rightarrow> bool" where
  "queues_inv cm \<longleftrightarrow> distinct (map fst (cm_write_queues cm)) \<and>
     (\<forall>(node, queue) \<in> set (cm_write_queues cm).
        list_all (\<lambda>w. write_ok w \<and> ga_home_node (pw_addr w) = node) queue)"

lemma queues_inv_queue:
  "queues_inv cm \<Longrightarrow> list_all (\<lambda>w. write_ok w \<and> ga_home_node (pw_addr w) = node) (queue_of cm node)"
  by (auto simp: queues_inv_def queue_of_def split: option.split dest!: map_of_SomeD)

lemma queues_inv_ok: "queues_inv cm \<Longrightarrow> list_all write_ok (queue_of cm node)"
  using queues_inv_queue [of cm node] by (auto simp: list_all_iff)

lemma queue_insert_home:
  assumes "queue_insert incoming queue = Some (merged, queue')"
    and "list_all (\<lambda>w. write_ok w \<and> ga_home_node (pw_addr w) = node) queue"
    and "write_ok incoming" "ga_home_node (pw_addr incoming) = node"
  shows "list_all (\<lambda>w. write_ok w \<and> ga_home_node (pw_addr w) = node) queue'"
  using assms(1,2)
proof (induction queue arbitrary: queue')
  case Nil
  then show ?case using assms(3,4) by auto
next
  case (Cons w queue)
  show ?case
  proof (cases "CanMergeWrites w incoming")
    case True
    have "write_ok w" using Cons.prems by simp
    from MergeWrites_effect [OF this assms(3) True] obtain m where m: "MergeWrites w incoming = Some m"
      "write_ok m" "ga_home_node (pw_addr m) = ga_home_node (pw_addr incoming)" by metis
    obtain m' where "queue' = m' # queue" "pw_addr m' = pw_addr m" "pw_payload m' = pw_payload m"
      using Cons.prems(1) True m(1) by (auto simp: Let_def)
    with m(2,3) Cons.prems(2) assms(4) show ?thesis by (auto simp: write_ok_def)
  next
    case False
    with Cons show ?thesis by (auto simp: bind_eq_Some_conv)
  qed
qed

text \<open>The write \<^verbatim>\<open>QueueRemoteWrite\<close> builds from its arguments.\<close>

definition incoming_write ::
    "GlobalAddr \<Rightarrow> byte list \<Rightarrow> CoherenceMode \<Rightarrow> bool \<Rightarrow> bool \<Rightarrow> PendingRemoteWrite" where
  "incoming_write addr bytes mode owner_biased owner_handoff =
     \<lparr>pw_addr = addr, pw_payload = bytes, pw_mode = mode,
      pw_owner_biased = owner_biased, pw_owner_handoff = owner_handoff\<rparr>"

lemma incoming_write_ok:
  "in_space addr n \<Longrightarrow> length bytes = unat n \<Longrightarrow> write_ok (incoming_write addr bytes mode ob oh)"
  by (auto simp: incoming_write_def write_ok_def in_space_def no_wrap_def unat_gt_0 simp flip: length_greater_0_conv)

lemma QueueRemoteWrite_insert:
  assumes "n \<noteq> 0" "unat n \<le> length src" "cfg_enable_write_batching (cm_cfg cm)"
  shows "QueueRemoteWrite cm addr (Some src) n mode ob oh =
    map_option (\<lambda>(merged, queue). (merged,
        cm\<lparr>cm_write_queues := AList.update (ga_home_node addr) queue (cm_write_queues cm)\<rparr>))
      (queue_insert (incoming_write addr (take (unat n) src) mode ob oh) (queue_of cm (ga_home_node addr)))"
  using assms
  by (cases "queue_insert (incoming_write addr (take (unat n) src) mode ob oh) (queue_of cm (ga_home_node addr))")
     (auto simp: QueueRemoteWrite_def mem_read_def incoming_write_def split_beta)

lemma queue_of_update:
  "queue_of (cm\<lparr>cm_write_queues := AList.update node queue (cm_write_queues cm)\<rparr>) node' =
   (if node' = node then queue else queue_of cm node')"
  by (simp add: queue_of_def update_conv')

lemma QueueRemoteWrite_inv:
  assumes inv: "queues_inv cm" and ok: "write_ok (incoming_write addr (take (unat n) src) mode ob oh)"
    and run: "QueueRemoteWrite cm addr (Some src) n mode ob oh = Some (merged, cm')"
  shows "queues_inv cm'"
proof (cases "n = 0 \<or> \<not> cfg_enable_write_batching (cm_cfg cm)")
  case True
  with run inv show ?thesis by (auto simp: QueueRemoteWrite_def)
next
  case False
  then have "unat n \<le> length src"
    using run by (auto simp: QueueRemoteWrite_def mem_read_def split: if_splits)
  with False run obtain queue where
    ins: "queue_insert (incoming_write addr (take (unat n) src) mode ob oh)
        (queue_of cm (ga_home_node addr)) = Some (merged, queue)"
    and cm': "cm' = cm\<lparr>cm_write_queues := AList.update (ga_home_node addr) queue (cm_write_queues cm)\<rparr>"
    by (auto simp: QueueRemoteWrite_insert)
  have "list_all (\<lambda>w. write_ok w \<and> ga_home_node (pw_addr w) = ga_home_node addr) queue"
    by (rule queue_insert_home [OF ins queues_inv_queue [OF inv] ok]) (simp add: incoming_write_def)
  with inv cm' show ?thesis by (auto simp: queues_inv_def set_alist_update distinct_update)
qed

lemma Drain_queue_of:
  "db_writes (fst (DrainRemoteWrites cm node)) = queue_of cm node"
  "queue_of (snd (DrainRemoteWrites cm node)) node' = (if node' = node then [] else queue_of cm node')"
  by (auto simp: DrainRemoteWrites_def queue_of_def AList.delete_conv' split: option.split)

lemma Drain_inv: "queues_inv cm \<Longrightarrow> queues_inv (snd (DrainRemoteWrites cm node))"
  by (auto simp: queues_inv_def DrainRemoteWrites_def distinct_delete set_alist_delete split: option.split)

lemma PendingDestinations_iff:
  assumes "queues_inv cm"
  shows "node \<in> set (PendingDestinations cm) \<longleftrightarrow> queue_of cm node \<noteq> []"
proof -
  have "node \<in> set (PendingDestinations cm) \<longleftrightarrow> (\<exists>q. (node, q) \<in> set (cm_write_queues cm) \<and> q \<noteq> [])"
    by (force simp: PendingDestinations_def)
  also have "\<dots> \<longleftrightarrow> (\<exists>q. map_of (cm_write_queues cm) node = Some q \<and> q \<noteq> [])"
    using assms by (simp add: queues_inv_def map_of_eq_Some_iff)
  finally show ?thesis by (auto simp: queue_of_def split: option.split)
qed

text \<open>
  Queueing a write that shares no byte with the writes behind the one that absorbs it, as one step
  on the memory behind the queue.
\<close>

lemma QueueRemoteWrite_store:
  assumes inv: "queues_inv cm" and on: "cfg_enable_write_batching (cm_cfg cm)" and addr: "in_space addr n" "unat n \<le> length src"
    and w: "w = incoming_write addr (take (unat n) src) mode ob oh"
    and clean: "\<And>v node region x. v \<in> set (later w (queue_of cm (ga_home_node addr))) \<Longrightarrow>
      \<not> (writes_byte v node region x \<and> in_bytes addr (unat n) node region x)"
  obtains merged queue cm' where "QueueRemoteWrite cm addr (Some src) n mode ob oh = Some (merged, cm')"
    "queue_insert w (queue_of cm (ga_home_node addr)) = Some (merged, queue)" "queue_of cm' (ga_home_node addr) = queue" "queues_inv cm'"
    "\<And>M. apply_writes queue M = store (apply_writes (queue_of cm (ga_home_node addr)) M) addr (take (unat n) src)"
    "\<And>node. node \<noteq> ga_home_node addr \<Longrightarrow> queue_of cm' node = queue_of cm node"
    "\<And>node region x. list_ex (\<lambda>w. writes_byte w node region x) queue \<longleftrightarrow>
       list_ex (\<lambda>w. writes_byte w node region x) (queue_of cm (ga_home_node addr)) \<or> in_bytes addr (unat n) node region x"
proof -
  let ?queue = "queue_of cm (ga_home_node addr)"
  have ok: "write_ok w" unfolding w using addr by (intro incoming_write_ok) simp_all
  have bytes: "writes_byte w = in_bytes addr (unat n)" using addr(2) by (simp add: writes_byte_def w incoming_write_def)
  from remote_queue.push_effect [OF queues_inv_ok [OF inv, of "ga_home_node addr"] ok]
  obtain merged queue where ins: "queue_insert w ?queue = Some (merged, queue)"
    and effect: "\<And>M. apply_writes queue M = apply_behind (later w ?queue) w (apply_writes ?queue M)" by auto
  have "apply_behind (later w ?queue) w M = apply_write w M" for M
    using clean by (intro apply_behind_disjoint) (simp add: bytes)
  then have stores: "apply_writes queue M = store (apply_writes ?queue M) addr (take (unat n) src)" for M
    by (simp add: effect apply_write_def w incoming_write_def)
  let ?cm' = "cm\<lparr>cm_write_queues := AList.update (ga_home_node addr) queue (cm_write_queues cm)\<rparr>"
  have "n \<noteq> 0" using addr(1) by (simp add: in_space_def)
  then have run: "QueueRemoteWrite cm addr (Some src) n mode ob oh = Some (merged, ?cm')"
    using ins on addr(2) by (simp add: QueueRemoteWrite_insert flip: w)
  have "queues_inv ?cm'" by (rule QueueRemoteWrite_inv [OF inv _ run]) (use ok w in simp)
  with that [OF run ins _ _ stores] queue_insert_bytes [OF ok queues_inv_ok [OF inv] ins] show ?thesis
    by (simp add: queue_of_update bytes)
qed

subsection \<open>Queues of spaced objects\<close>

text \<open>
  Ranges that are equal or do not even touch. Queued writes to such ranges are only merged with
  writes to the same range, so a range can be rewritten before it is flushed.
\<close>

definition spaced_objects :: "(GlobalAddr \<times> u64) set \<Rightarrow> bool" where
  "spaced_objects objs \<longleftrightarrow> (\<forall>(a, m) \<in> objs. \<forall>(b, n) \<in> objs. (a, m) = (b, n) \<or>
     \<not> (ga_home_node a = ga_home_node b \<and> ga_region_id a = ga_region_id b \<and>
        unat (ga_offset a) \<le> unat (ga_offset b) + unat n \<and> unat (ga_offset b) \<le> unat (ga_offset a) + unat m))"

definition write_key :: "PendingRemoteWrite \<Rightarrow> GlobalAddr \<times> u64" where
  "write_key w = (pw_addr w, payload_size w)"

definition keyed :: "(GlobalAddr \<times> u64) set \<Rightarrow> PendingRemoteWrite list \<Rightarrow> bool" where
  "keyed objs ws \<longleftrightarrow> write_key ` set ws \<subseteq> objs \<and> distinct (map write_key ws)"

lemma spaced_objectsD:
  assumes "spaced_objects objs" "(a, m) \<in> objs" "(b, n) \<in> objs" "ga_home_node a = ga_home_node b" "ga_region_id a = ga_region_id b"
    and "unat (ga_offset a) \<le> unat (ga_offset b) + unat n" "unat (ga_offset b) \<le> unat (ga_offset a) + unat m"
  shows "(a, m) = (b, n)"
  using assms(4-7) bspec [OF bspec [OF assms(1) [unfolded spaced_objects_def] assms(2), unfolded prod.case] assms(3), unfolded prod.case]
  by simp

lemma spaced_merge:
  assumes "spaced_objects objs" "write_ok v" "write_ok w" "write_key v \<in> objs" "write_key w \<in> objs"
  shows "CanMergeWrites v w \<longleftrightarrow> write_key v = write_key w"
proof
  assume "CanMergeWrites v w"
  then show "write_key v = write_key w"
    using assms(4,5) unfolding CanMergeWrites_nat [OF assms(2,3)] write_key_def
    by (intro spaced_objectsD [OF assms(1)]) (simp_all only: write_ok_nat(1) [OF assms(2)] write_ok_nat(1) [OF assms(3)])
next
  assume same: "write_key v = write_key w"
  then have "length (pw_payload v) = length (pw_payload w)"
    using write_ok_nat(1) [OF assms(2)] write_ok_nat(1) [OF assms(3)] by (simp add: write_key_def)
  with same show "CanMergeWrites v w" unfolding CanMergeWrites_nat [OF assms(2,3)] by (simp add: write_key_def)
qed

lemma merged_key:
  assumes "write_ok v" "write_ok w" "CanMergeWrites v w" "write_key v = write_key w"
  obtains m where "MergeWrites v w = Some m" "write_key m = write_key v"
proof -
  have same: "pw_addr v = pw_addr w" "length (pw_payload v) = length (pw_payload w)"
    using assms(4) write_ok_nat(1) [OF assms(1)] write_ok_nat(1) [OF assms(2)] by (simp_all add: write_key_def)
  from merged_bytes [OF assms(1-3)] obtain bytes where
    "MergeWrites v w = Some (v\<lparr>pw_addr := (pw_addr v)\<lparr>ga_offset := min (ga_offset (pw_addr v)) (ga_offset (pw_addr w))\<rparr>, pw_payload := bytes\<rparr>)"
    "length bytes = length (pw_payload v)" by (auto simp: same)
  then show ?thesis using that by (simp add: write_key_def payload_size_def same)
qed

lemma keyed_insert:
  assumes "spaced_objects objs" "write_ok w" "write_key w \<in> objs" "list_all write_ok queue" "keyed objs queue"
    and "queue_insert w queue = Some (merged, queue')"
  shows "keyed objs queue' \<and> write_key ` set queue' = insert (write_key w) (write_key ` set queue)"
  using assms(4-6)
proof (induction queue arbitrary: queue')
  case Nil
  then show ?case using assms(3) by (auto simp: keyed_def)
next
  case (Cons v queue)
  have v: "write_ok v" "write_key v \<in> objs" using Cons.prems by (simp_all add: keyed_def)
  note merge = spaced_merge [OF assms(1) v(1) assms(2) v(2) assms(3)]
  show ?case
  proof (cases "CanMergeWrites v w")
    case True
    from merged_key [OF v(1) assms(2) True] merge True obtain m where
      m: "MergeWrites v w = Some m" "write_key m = write_key w" by auto
    then obtain m' where "queue' = m' # queue" "write_key m' = write_key w"
      using Cons.prems(3) True by (auto simp: Let_def write_key_def payload_size_def split: if_splits)
    with Cons.prems(2) True merge show ?thesis by (auto simp: keyed_def)
  next
    case False
    with Cons.prems(3) obtain rest where rest: "queue_insert w queue = Some (merged, rest)" "queue' = v # rest"
      by (auto simp: bind_eq_Some_conv)
    have queue: "list_all write_ok queue" "keyed objs queue" "write_key v \<notin> write_key ` set queue"
      using Cons.prems(1,2) by (simp_all add: keyed_def)
    from Cons.IH [OF queue(1,2) rest(1)] have IH: "keyed objs rest" "write_key ` set rest = insert (write_key w) (write_key ` set queue)"
      by simp_all
    with queue(3) False merge v(2) have "keyed objs (v # rest)" unfolding keyed_def by simp
    with IH(2) rest(2) show ?thesis by (simp add: insert_commute)
  qed
qed

lemma spaced_later:
  assumes "spaced_objects objs" "write_ok w" "write_key w \<in> objs" "list_all write_ok queue" "keyed objs queue"
    and "v \<in> set (later w queue)"
  shows "\<not> (writes_byte v node region x \<and> writes_byte w node region x)"
  using assms(4-6)
proof (induction queue)
  case (Cons u queue)
  have u: "write_ok u" "write_key u \<in> objs" using Cons.prems by (simp_all add: keyed_def)
  show ?case
  proof (cases "CanMergeWrites u w")
    case True
    then have "v \<in> set queue" "write_key u = write_key w"
      using Cons.prems(3) spaced_merge [OF assms(1) u(1) assms(2) u(2) assms(3)] by simp_all
    then have "write_key v \<in> write_key ` set queue" "write_key w \<notin> write_key ` set queue" "write_ok v"
      using Cons.prems(1,2) by (simp_all add: keyed_def list_all_iff)
    then have "write_key v \<noteq> write_key w" "write_ok v" "write_key v \<in> objs"
      using Cons.prems(2) by (auto simp: keyed_def)
    then have "\<not> CanMergeWrites v w" using spaced_merge [OF assms(1) _ assms(2) _ assms(3)] by simp
    then show ?thesis
      using \<open>write_ok v\<close> assms(2) by (auto simp: CanMergeWrites_nat writes_byte_def in_bytes_def)
  next
    case False
    with Cons.prems have "list_all write_ok queue" "keyed objs queue" "v \<in> set (later w queue)"
      by (simp_all add: keyed_def)
    then show ?thesis by (rule Cons.IH)
  qed
qed simp

section \<open>Properties\<close>

text \<open>One-byte writes to node 2, for the witnesses.\<close>

definition cell :: "u64 \<Rightarrow> byte \<Rightarrow> PendingRemoteWrite" where
  "cell off v = incoming_write \<lparr>ga_home_node = 2, ga_region_id = 0, ga_offset = off\<rparr> [v] kSI False False"

lemma cell_ok: "unat off + 1 < 2 ^ 64 \<Longrightarrow> write_ok (cell off v)"
  by (simp add: cell_def incoming_write_def write_ok_def)

lemmas cell_defs = cell_def incoming_write_def CanMergeWrites_def MergeWrites_def payload_size_def
  mem_write_def

text \<open>
  C8: Merging two writes loses nothing. For two non-empty writes that do not wrap and that
  \<^verbatim>\<open>CanMergeWrites\<close> accepts, \<^verbatim>\<open>MergeWrites\<close> stays inside its buffer and yields
  one write that covers exactly the bytes of both and whose effect on any memory is that of the
  queued write followed by the incoming one.
\<close>

theorem MergeWrites_correct:
  assumes "write_ok current" and "write_ok incoming" and "CanMergeWrites current incoming"
  shows "\<exists>w. MergeWrites current incoming = Some w \<and> write_ok w \<and>
    (\<forall>node region x. writes_byte w node region x \<longleftrightarrow>
       writes_byte current node region x \<or> writes_byte incoming node region x) \<and>
    (\<forall>M. apply_write w M = apply_write incoming (apply_write current M))"
  by (rule MergeWrites_effect [OF assms]) blast

theorem MergeWrites_correct_witness:
  "\<exists>w. MergeWrites (cell 4 1) (cell 5 2) = Some w \<and>
     apply_write w (\<lambda>node region x. 0) = apply_write (cell 5 2) (apply_write (cell 4 1) (\<lambda>node region x. 0))"
proof -
  have "CanMergeWrites (cell 4 1) (cell 5 2)" by (simp add: cell_defs)
  from MergeWrites_correct [OF cell_ok cell_ok this] show ?thesis by auto
qed

text \<open>
  C22: What queueing a write does, exactly. On a queue of well-formed writes the loop of
  \<^verbatim>\<open>QueueRemoteWrite\<close> succeeds, merges when and only when some queued write can be
  merged, and flushing the new queue has the effect of flushing the old one and then the incoming
  write, except on the bytes of the writes queued behind the one that absorbed it: there the
  older bytes win.
\<close>

theorem queue_insert_exact:
  assumes "write_ok incoming" and "list_all write_ok queue"
  shows "\<exists>merged queue'. queue_insert incoming queue = Some (merged, queue') \<and> list_all write_ok queue' \<and>
    (merged \<longleftrightarrow> list_ex (\<lambda>w. CanMergeWrites w incoming) queue) \<and>
    (\<forall>M. apply_writes queue' M = (\<lambda>node region x.
       if list_ex (\<lambda>w. writes_byte w node region x) (later incoming queue)
       then apply_writes queue M node region x
       else apply_write incoming (apply_writes queue M) node region x))"
  using queue_insert_behind [OF assms] unfolding apply_behind_def list_ex_iff by blast

theorem queue_insert_exact_witness:
  "\<exists>queue'. queue_insert (cell 1 7) [cell 0 5, cell 9 6] = Some (True, queue')"
  using queue_insert_exact [of "cell 1 7" "[cell 0 5, cell 9 6]"]
  by (auto simp: cell_ok) (simp add: cell_defs)

text \<open>
  C23: Writes that touch different bytes are never lost. Queueing a well-formed write that shares
  no byte with the writes already queued for its destination changes what draining that
  destination writes by exactly the new write, leaves the queues of the other destinations alone
  and keeps the queues well-formed.
\<close>

theorem QueueRemoteWrite_disjoint:
  assumes "queues_inv cm" and "cfg_enable_write_batching (cm_cfg cm)" and "in_space addr n" and "unat n \<le> length src"
    and "list_all (\<lambda>w. \<forall>node region x. \<not> (writes_byte w node region x \<and> in_bytes addr (unat n) node region x))
           (queue_of cm (ga_home_node addr))"
  shows "\<exists>merged cm'. QueueRemoteWrite cm addr (Some src) n mode ob oh = Some (merged, cm') \<and> queues_inv cm' \<and>
    (\<forall>M. apply_writes (db_writes (fst (DrainRemoteWrites cm' (ga_home_node addr)))) M =
         store (apply_writes (db_writes (fst (DrainRemoteWrites cm (ga_home_node addr)))) M)
           addr (take (unat n) src)) \<and>
    (\<forall>node. node \<noteq> ga_home_node addr \<longrightarrow> queue_of cm' node = queue_of cm node)"
proof -
  have "\<not> (writes_byte v node region x \<and> in_bytes addr (unat n) node region x)"
    if "v \<in> set (later w (queue_of cm (ga_home_node addr)))" for v w node region x
    using that later_subset [of w "queue_of cm (ga_home_node addr)"] assms(5) by (auto simp: list_all_iff)
  then show ?thesis unfolding Drain_queue_of by (rule QueueRemoteWrite_store [OF assms(1-4) refl]) auto
qed

definition queue_cm :: CacheManager where
  "queue_cm = (new_CacheManager default_config)\<lparr>cm_write_queues := [(2, [cell 0 5])]\<rparr>"

theorem QueueRemoteWrite_disjoint_witness:
  "\<exists>merged cm'. QueueRemoteWrite queue_cm \<lparr>ga_home_node = 2, ga_region_id = 0, ga_offset = 4\<rparr>
     (Some [1, 2]) 2 kSI False False = Some (merged, cm') \<and> queues_inv cm'"
proof -
  let ?addr = "\<lparr>ga_home_node = 2, ga_region_id = 0, ga_offset = 4\<rparr> :: GlobalAddr"
  have "queues_inv queue_cm"
    by (simp add: queues_inv_def queue_cm_def cell_ok) (simp add: cell_def incoming_write_def)
  moreover have "cfg_enable_write_batching (cm_cfg queue_cm)"
    by (simp add: queue_cm_def new_CacheManager_def default_config_def)
  moreover have "in_space ?addr 2" by (simp add: in_space_def no_wrap_def)
  moreover have "list_all (\<lambda>w. \<forall>node region x. \<not> (writes_byte w node region x \<and> in_bytes ?addr (unat (2 :: u64)) node region x))
      (queue_of queue_cm (ga_home_node ?addr))"
    by (simp add: queue_of_def queue_cm_def writes_byte_def in_bytes_def cell_def incoming_write_def)
  ultimately show ?thesis
    using QueueRemoteWrite_disjoint [of queue_cm ?addr 2 "[1, 2]" kSI False False] by auto
qed

text \<open>
  Rewriting a queued byte can lose the newer value. One-byte writes to offsets 0, 2, 1 and
  2 again, queued in this order, leave a queue whose flush stores the first value at offset 2
  although the last write in program order stored the second: the write to offset 1 is merged
  into the entry of offset 0, the last write then touches that entry and is merged there, and the
  older entry of offset 2 is applied after it.
\<close>

lemma queue_loses_update:
  "\<exists>queue. foldO (\<lambda>w q. map_option snd (queue_insert w q)) [cell 0 a, cell 2 old, cell 1 b, cell 2 new] [] = Some queue \<and>
     apply_writes queue M 2 0 2 = old \<and>
     apply_writes [cell 0 a, cell 2 old, cell 1 b, cell 2 new] M 2 0 2 = new"
  by (simp add: cell_defs Let_def apply_write_def store_def in_bytes_def min_def max_def)

end
