(* ===== verification/Runtime_State.thy ===== *)
theory Runtime_State
  imports Block_Table Stats_Counters Dsm_Allocator Cache_Profile Read_Cache Write_Queue
begin

text \<open>
  The state one LeoMem process keeps: the transport's message and capability types
  (\<^verbatim>\<open>src/transport/transport.h\<close>), the transport objects, and the runtime context
  (\<^verbatim>\<open>src/runtime/context.h\<close>) extended with the one global of the stub transport.
\<close>

section \<open>transport.h\<close>

text \<open>The buffer pointer of a request is the bytes it points at.\<close>

record RemoteWriteRequest =
  rr_addr :: GlobalAddr
  rr_buf :: "byte list"
  rr_size :: u64
  rr_mode :: CoherenceMode
  rr_owner_biased :: bool
  rr_owner_handoff :: bool

text \<open>As for \<^typ>\<open>CoherenceMode\<close>, a parsed message can hold a value without an enumerator.\<close>

datatype ControlOpcode =
    kInvalidateRange | kOwnerTransfer | kInvalidateAck | kOwnerTransferAck | kOpcodeValue int

record ControlMessage =
  cmsg_opcode :: ControlOpcode
  cmsg_source_node :: NodeId
  cmsg_target_node :: NodeId
  cmsg_request_id :: u64
  cmsg_first_block :: BlockId
  cmsg_last_block :: BlockId
  cmsg_version :: Version
  cmsg_mode :: CoherenceMode

definition default_BlockId :: BlockId where
  "default_BlockId = \<lparr>bi_region_id = kDefaultRegionId, bi_block_index = 0\<rparr>"

definition new_ControlMessage :: ControlMessage where
  "new_ControlMessage = \<lparr>cmsg_opcode = kInvalidateRange, cmsg_source_node = kInvalidNodeId,
     cmsg_target_node = kInvalidNodeId, cmsg_request_id = 0, cmsg_first_block = default_BlockId,
     cmsg_last_block = default_BlockId, cmsg_version = 0, cmsg_mode = kSI\<rparr>"

record TransportCapabilities =
  tc_supports_one_sided_read :: bool
  tc_supports_one_sided_write :: bool
  tc_supports_batched_write :: bool
  tc_supports_control_path :: bool

record RdmaMemoryRegion =
  mr_local_addr :: "u64 option"
  mr_remote_addr :: u64
  mr_rkey :: u32
  mr_length :: u64

section \<open>Transport objects\<close>

record StubTransport =
  st_cfg :: Config
  st_remote_regions :: "NodeId \<rightharpoonup> byte list"

text \<open>
  The object behind \<^verbatim>\<open>Transport*\<close>: the stub, or the \<^verbatim>\<open>RdmaTransport\<close> of a
  build without \<^verbatim>\<open>libibverbs\<close> (the \<^verbatim>\<open>#else\<close> branch of
  \<^verbatim>\<open>rdma_transport.cc\<close>), which keeps its configuration only.
\<close>

datatype Transport = StubT StubTransport | RdmaT Config

section \<open>context.h\<close>

record PendingControlAck =
  pa_message :: ControlMessage
  pa_polls_remaining :: u64
  pa_retries_remaining :: u64

text \<open>
  The five component pointers are set together by \<^verbatim>\<open>Init\<close> and reset together by
  \<^verbatim>\<open>Shutdown\<close>; \<open>rc_components_set\<close> says that they are set.
\<close>

record RuntimeContext =
  rc_initialized :: bool
  rc_config :: Config
  rc_components_set :: bool
  rc_transport :: Transport
  rc_allocator :: DsmAllocator
  rc_cache_manager :: CacheManager
  rc_block_table :: BlockTable
  rc_stats :: StatsCollector
  rc_next_control_request_id :: u64
  rc_pending_control_acks :: "(u64 \<times> PendingControlAck) list"

text \<open>
  \<^verbatim>\<open>g_control_inboxes\<close> is only reached through \<^verbatim>\<open>operator[]\<close>, which creates an
  empty queue for a new node: a total function.
\<close>

record Process = RuntimeContext +
  g_control_inboxes :: "NodeId \<Rightarrow> ControlMessage list"

definition initial_process :: Process where
  "initial_process = \<lparr>rc_initialized = False, rc_config = default_config, rc_components_set = False,
     rc_transport = RdmaT default_config, rc_allocator = new_DsmAllocator default_config,
     rc_cache_manager = new_CacheManager default_config, rc_block_table = Map.empty,
     rc_stats = new_StatsCollector, rc_next_control_request_id = 1, rc_pending_control_acks = [],
     g_control_inboxes = (\<lambda>node. [])\<rparr>"

abbreviation update_stats :: "(StatsCollector \<Rightarrow> StatsCollector) \<Rightarrow> 'a RuntimeContext_scheme \<Rightarrow> 'a RuntimeContext_scheme" where
  "update_stats f p \<equiv> p\<lparr>rc_stats := f (rc_stats p)\<rparr>"

section \<open>Control-message opcodes\<close>

text \<open>
  \<^verbatim>\<open>IsAckOpcode\<close> and \<^verbatim>\<open>AckOpcodeFor\<close> are repeated word for word in
  \<^verbatim>\<open>access_api.cc\<close>, \<^verbatim>\<open>sync_api.cc\<close> and \<^verbatim>\<open>transport_stub.cc\<close>.
\<close>

definition IsAckOpcode :: "ControlOpcode \<Rightarrow> bool" where
  "IsAckOpcode opcode \<longleftrightarrow> opcode = kInvalidateAck \<or> opcode = kOwnerTransferAck"

definition AckOpcodeFor :: "ControlOpcode \<Rightarrow> ControlOpcode" where
  "AckOpcodeFor opcode =
     (case opcode of
        kInvalidateRange \<Rightarrow> kInvalidateAck
      | kOwnerTransfer \<Rightarrow> kOwnerTransferAck
      | kInvalidateAck \<Rightarrow> kInvalidateAck
      | kOwnerTransferAck \<Rightarrow> kOwnerTransferAck
      | kOpcodeValue v \<Rightarrow> kInvalidateAck)"

lemma IsAckOpcode_AckOpcodeFor [simp]: "IsAckOpcode (AckOpcodeFor opcode)"
  by (cases opcode) (auto simp: IsAckOpcode_def AckOpcodeFor_def)

end
