(* ===== verification/Transport_Stub.thy ===== *)
theory Transport_Stub
  imports Runtime_State
begin

text \<open>
  The stub transport (\<^verbatim>\<open>src/transport/transport_stub.cc\<close>), the transport of a build
  without verbs (\<^verbatim>\<open>#else\<close> branch of \<^verbatim>\<open>src/transport/rdma_transport.cc\<close>) and the
  virtual calls through \<^verbatim>\<open>Transport*\<close>. Reads and writes of the local node go to the
  allocator's region; the region of every other node is simulated by a byte vector that is
  created, zero-filled, on first use.
\<close>

section \<open>StubTransport\<close>

definition Stub_Init :: "StubTransport \<Rightarrow> Status \<times> StubTransport" where
  "Stub_Init t = (kOk, t\<lparr>st_remote_regions := Map.empty\<rparr>)"

definition Stub_Shutdown :: "StubTransport \<Rightarrow> Status \<times> StubTransport" where
  "Stub_Shutdown t = (kOk, t\<lparr>st_remote_regions := Map.empty\<rparr>)"

text \<open>\<^verbatim>\<open>remote_regions_[node]\<close>, sized on first use.\<close>

definition remote_region :: "StubTransport \<Rightarrow> NodeId \<Rightarrow> byte list" where
  "remote_region t node =
     (let region = (case st_remote_regions t node of None \<Rightarrow> [] | Some r \<Rightarrow> r)
      in if region = [] then replicate (unat (cfg_local_region_size (st_cfg t))) 0 else region)"

definition touch_region :: "StubTransport \<Rightarrow> NodeId \<Rightarrow> StubTransport" where
  "touch_region t node = t\<lparr>st_remote_regions := (st_remote_regions t)(node \<mapsto> remote_region t node)\<rparr>"

definition Stub_Read ::
    "StubTransport \<Rightarrow> Process \<Rightarrow> GlobalAddr \<Rightarrow> u64 \<Rightarrow> (Status \<times> byte list \<times> Process) option" where
  "Stub_Read t p addr size' =
     (if ga_home_node addr = cfg_node_id (rc_config p) then
        (case TranslateLocal (rc_allocator p) addr size' of
           None \<Rightarrow> Some (kOutOfRange, [], p)
         | Some src \<Rightarrow> do { bytes \<leftarrow> mem_read (da_region (rc_allocator p)) src size'; Some (kOk, bytes, p) })
      else
        let region = remote_region t (ga_home_node addr);
            p = p\<lparr>rc_transport := StubT (touch_region t (ga_home_node addr))\<rparr> in
        if of_nat (length region) < ga_offset addr + size' then Some (kOutOfRange, [], p)
        else do { bytes \<leftarrow> mem_read region (ga_offset addr) size'; Some (kOk, bytes, p) })"

definition Stub_Write ::
    "StubTransport \<Rightarrow> Process \<Rightarrow> GlobalAddr \<Rightarrow> byte list \<Rightarrow> u64 \<Rightarrow> (Status \<times> Process) option" where
  "Stub_Write t p addr buf size' =
     (if ga_home_node addr = cfg_node_id (rc_config p) then
        (case TranslateLocal (rc_allocator p) addr size' of
           None \<Rightarrow> Some (kOutOfRange, p)
         | Some dst \<Rightarrow>
             do { bytes \<leftarrow> mem_read buf 0 size';
                  region \<leftarrow> mem_write (da_region (rc_allocator p)) dst bytes;
                  Some (kOk, p\<lparr>rc_allocator := (rc_allocator p)\<lparr>da_region := region\<rparr>\<rparr>) })
      else
        let region = remote_region t (ga_home_node addr);
            t = touch_region t (ga_home_node addr) in
        if of_nat (length region) < ga_offset addr + size' then Some (kOutOfRange, p\<lparr>rc_transport := StubT t\<rparr>)
        else do { bytes \<leftarrow> mem_read buf 0 size';
                  region \<leftarrow> mem_write region (ga_offset addr) bytes;
                  Some (kOk, p\<lparr>rc_transport :=
                    StubT (t\<lparr>st_remote_regions := (st_remote_regions t)(ga_home_node addr \<mapsto> region)\<rparr>)\<rparr>) })"

definition Stub_GetCapabilities :: TransportCapabilities where
  "Stub_GetCapabilities = \<lparr>tc_supports_one_sided_read = True, tc_supports_one_sided_write = True,
     tc_supports_batched_write = True, tc_supports_control_path = True\<rparr>"

definition Stub_RegisterMemoryRegion :: "u64 option \<Rightarrow> u64 \<Rightarrow> bool \<Rightarrow> Status \<times> RdmaMemoryRegion option" where
  "Stub_RegisterMemoryRegion addr length' out_ok =
     (case addr of
        None \<Rightarrow> (kInvalidArg, None)
      | Some a \<Rightarrow>
          if length' = 0 \<or> \<not> out_ok then (kInvalidArg, None)
          else (kOk, Some \<lparr>mr_local_addr = Some a, mr_remote_addr = a, mr_rkey = 0, mr_length = length'\<rparr>))"

definition post_inbox :: "NodeId \<Rightarrow> ControlMessage \<Rightarrow> Process \<Rightarrow> Process" where
  "post_inbox node msg p =
     p\<lparr>g_control_inboxes := (g_control_inboxes p)(node := g_control_inboxes p node @ [msg])\<rparr>"

definition Stub_PostControlMessage :: "StubTransport \<Rightarrow> Process \<Rightarrow> ControlMessage \<Rightarrow> Status \<times> Process" where
  "Stub_PostControlMessage t p message =
     (if cmsg_target_node message \<noteq> cfg_node_id (st_cfg t) \<and> \<not> IsAckOpcode (cmsg_opcode message) then
        let ack = message\<lparr>cmsg_opcode := AckOpcodeFor (cmsg_opcode message),
                          cmsg_source_node := cmsg_target_node message,
                          cmsg_target_node := cmsg_source_node message\<rparr>
        in (kOk, post_inbox (cmsg_target_node ack) ack p)
      else (kOk, post_inbox (cmsg_target_node message) message p))"

definition Stub_DrainControlMessages ::
    "StubTransport \<Rightarrow> Process \<Rightarrow> u64 \<Rightarrow> bool \<Rightarrow> Status \<times> ControlMessage list \<times> Process" where
  "Stub_DrainControlMessages t p max_messages messages_ok =
     (if \<not> messages_ok then (kInvalidArg, [], p)
      else
        let inbox = g_control_inboxes p (cfg_node_id (st_cfg t));
            limit = unat (max 1 max_messages)
        in (kOk, take limit inbox,
            p\<lparr>g_control_inboxes := (g_control_inboxes p)(cfg_node_id (st_cfg t) := drop limit inbox)\<rparr>))"

section \<open>Virtual calls\<close>

text \<open>
  \<^verbatim>\<open>ctx.transport()->Op(...)\<close>. Every operation of the transport without verbs reports
  \<^verbatim>\<open>kUnimplemented\<close>, except \<^verbatim>\<open>Shutdown\<close>.
\<close>

definition CreateTransport :: "Config \<Rightarrow> Transport" where
  "CreateTransport cfg =
     (if cfg_enable_rdma cfg then RdmaT cfg
      else StubT \<lparr>st_cfg = cfg, st_remote_regions = Map.empty\<rparr>)"

definition Transport_Init :: "Process \<Rightarrow> Status \<times> Process" where
  "Transport_Init p =
     (case rc_transport p of
        StubT t \<Rightarrow> (let (s, t) = Stub_Init t in (s, p\<lparr>rc_transport := StubT t\<rparr>))
      | RdmaT cfg \<Rightarrow> (kUnimplemented, p))"

definition Transport_Shutdown :: "Process \<Rightarrow> Status \<times> Process" where
  "Transport_Shutdown p =
     (case rc_transport p of
        StubT t \<Rightarrow> (let (s, t) = Stub_Shutdown t in (s, p\<lparr>rc_transport := StubT t\<rparr>))
      | RdmaT cfg \<Rightarrow> (kOk, p))"

definition Transport_Read :: "Process \<Rightarrow> GlobalAddr \<Rightarrow> u64 \<Rightarrow> (Status \<times> byte list \<times> Process) option" where
  "Transport_Read p addr size' =
     (case rc_transport p of
        StubT t \<Rightarrow> Stub_Read t p addr size'
      | RdmaT cfg \<Rightarrow> Some (kUnimplemented, [], p))"

definition Transport_Write :: "Process \<Rightarrow> GlobalAddr \<Rightarrow> byte list \<Rightarrow> u64 \<Rightarrow> (Status \<times> Process) option" where
  "Transport_Write p addr buf size' =
     (case rc_transport p of
        StubT t \<Rightarrow> Stub_Write t p addr buf size'
      | RdmaT cfg \<Rightarrow> Some (kUnimplemented, p))"

fun Stub_BatchWrite :: "Process \<Rightarrow> RemoteWriteRequest list \<Rightarrow> (Status \<times> Process) option" where
  "Stub_BatchWrite p [] = Some (kOk, p)"
| "Stub_BatchWrite p (req # requests) =
     do { (s, p) \<leftarrow> Transport_Write p (rr_addr req) (rr_buf req) (rr_size req);
          if s \<noteq> kOk then Some (s, p) else Stub_BatchWrite p requests }"

definition Transport_BatchWrite :: "Process \<Rightarrow> RemoteWriteRequest list \<Rightarrow> (Status \<times> Process) option" where
  "Transport_BatchWrite p requests =
     (case rc_transport p of
        StubT t \<Rightarrow> Stub_BatchWrite p requests
      | RdmaT cfg \<Rightarrow> Some (kUnimplemented, p))"

definition Transport_Fence :: "Process \<Rightarrow> Status" where
  "Transport_Fence p = (case rc_transport p of StubT t \<Rightarrow> kOk | RdmaT cfg \<Rightarrow> kUnimplemented)"

text \<open>The number of completions is reported through a pointer, null when \<open>completed_ok\<close> is false.\<close>

definition Transport_PollCompletions :: "Process \<Rightarrow> u64 \<Rightarrow> bool \<Rightarrow> Status \<times> u64 option" where
  "Transport_PollCompletions p max_completions completed_ok =
     (case rc_transport p of
        StubT t \<Rightarrow> (kOk, if completed_ok then Some 0 else None)
      | RdmaT cfg \<Rightarrow> (kUnimplemented, if completed_ok then Some 0 else None))"

definition Transport_GetCapabilities :: "Process \<Rightarrow> TransportCapabilities" where
  "Transport_GetCapabilities p =
     (case rc_transport p of
        StubT t \<Rightarrow> Stub_GetCapabilities
      | RdmaT cfg \<Rightarrow> \<lparr>tc_supports_one_sided_read = False, tc_supports_one_sided_write = False,
                       tc_supports_batched_write = False, tc_supports_control_path = False\<rparr>)"

definition Transport_RegisterMemoryRegion ::
    "Process \<Rightarrow> u64 option \<Rightarrow> u64 \<Rightarrow> bool \<Rightarrow> Status \<times> RdmaMemoryRegion option" where
  "Transport_RegisterMemoryRegion p addr length' out_ok =
     (case rc_transport p of
        StubT t \<Rightarrow> Stub_RegisterMemoryRegion addr length' out_ok
      | RdmaT cfg \<Rightarrow> (kUnimplemented, None))"

definition Transport_PostControlMessage :: "Process \<Rightarrow> ControlMessage \<Rightarrow> Status \<times> Process" where
  "Transport_PostControlMessage p message =
     (case rc_transport p of
        StubT t \<Rightarrow> Stub_PostControlMessage t p message
      | RdmaT cfg \<Rightarrow> (kUnimplemented, p))"

definition Transport_DrainControlMessages ::
    "Process \<Rightarrow> u64 \<Rightarrow> bool \<Rightarrow> Status \<times> ControlMessage list \<times> Process" where
  "Transport_DrainControlMessages p max_messages messages_ok =
     (case rc_transport p of
        StubT t \<Rightarrow> Stub_DrainControlMessages t p max_messages messages_ok
      | RdmaT cfg \<Rightarrow> (kUnimplemented, [], p))"

section \<open>Memory behind the transport\<close>

text \<open>
  The bytes a process reaches: its own region through the allocator, the simulated regions of the
  other nodes through the stub. The transport and the allocator ignore the region of an address,
  so the contract is stated for the default region, the only one the allocator hands out.
\<close>

definition node_bytes :: "Process \<Rightarrow> NodeId \<Rightarrow> byte list" where
  "node_bytes p node =
     (if node = cfg_node_id (rc_config p) then da_region (rc_allocator p)
      else case rc_transport p of StubT t \<Rightarrow> remote_region t node | RdmaT cfg \<Rightarrow> [])"

definition view :: "Process \<Rightarrow> Memory" where
  "view p = (\<lambda>node region x.
     if region = kDefaultRegionId \<and> x < length (node_bytes p node) then node_bytes p node ! x else 0)"

text \<open>A process brought up on the stub transport: all regions have the configured size.\<close>

definition stub_inv :: "Process \<Rightarrow> bool" where
  "stub_inv p \<longleftrightarrow>
     (\<exists>t. rc_transport p = StubT t \<and> st_cfg t = rc_config p \<and>
        (\<forall>node r. st_remote_regions t node = Some r \<longrightarrow> length r = unat (cfg_local_region_size (rc_config p)))) \<and>
     da_cfg (rc_allocator p) = rc_config p \<and> alloc_inv (rc_allocator p) \<and>
     length (da_region (rc_allocator p)) = unat (cfg_local_region_size (rc_config p)) \<and>
     cfg_local_region_size (rc_config p) \<noteq> 0"

definition addressable :: "Process \<Rightarrow> GlobalAddr \<Rightarrow> u64 \<Rightarrow> bool" where
  "addressable p addr n \<longleftrightarrow> in_space addr n \<and> ga_region_id addr = kDefaultRegionId \<and>
     (if ga_home_node addr = cfg_node_id (rc_config p) then ValidateRangeUnlocked (rc_allocator p) addr n
      else unat (ga_offset addr) + unat n \<le> unat (cfg_local_region_size (rc_config p)))"

lemma stub_inv_stub:
  assumes "stub_inv p"
  obtains t where "rc_transport p = StubT t" "st_cfg t = rc_config p"
    "\<And>node. length (remote_region t node) = unat (cfg_local_region_size (rc_config p))"
proof -
  from assms obtain t where t: "rc_transport p = StubT t" "st_cfg t = rc_config p"
    "\<forall>node r. st_remote_regions t node = Some r \<longrightarrow> length r = unat (cfg_local_region_size (rc_config p))"
    by (auto simp: stub_inv_def)
  then have "length (remote_region t node) = unat (cfg_local_region_size (rc_config p))" for node
    by (auto simp: remote_region_def Let_def split: option.split)
  with t that show ?thesis by blast
qed

lemma stub_inv_small: "stub_inv p \<Longrightarrow> unat (cfg_local_region_size (rc_config p)) < 2 ^ 63"
  by (auto simp: stub_inv_def alloc_inv_def)

lemma touch_region_remote [simp]: "remote_region (touch_region t node) node' = remote_region t node'"
  by (auto simp: remote_region_def touch_region_def Let_def)

lemma touch_region_cfg [simp]: "st_cfg (touch_region t node) = st_cfg t"
  by (simp add: touch_region_def)

lemma node_bytes_length: "stub_inv p \<Longrightarrow> length (node_bytes p node) = unat (cfg_local_region_size (rc_config p))"
  by (auto simp: node_bytes_def stub_inv_def elim: stub_inv_stub split: Transport.split)
     (auto simp: remote_region_def Let_def split: option.split)

lemma ValidateRange_local:
  assumes "alloc_inv a" "no_wrap (ga_offset addr) n" "ValidateRangeUnlocked a addr n"
  shows "ga_home_node addr = cfg_node_id (da_cfg a)" "unat (ga_offset addr) + unat n \<le> length (da_region a)"
    "n \<noteq> 0"
proof -
  note v = assms(3) [unfolded validate_iff_in_allocation [OF assms(1,2)]]
  show "ga_home_node addr = cfg_node_id (da_cfg a)" "n \<noteq> 0" using v by auto
  from v obtain k m where "(k, m) \<in> set (da_allocations a)"
    "unat (ga_offset addr) + unat n \<le> unat (am_offset m) + unat (am_size m)" by (auto simp: in_allocation_def)
  with alloc_inv_lookup(1,2) [OF assms(1) this(1)] show "unat (ga_offset addr) + unat n \<le> length (da_region a)"
    by simp
qed

lemma addressable_bounds:
  assumes "stub_inv p" "addressable p addr n"
  shows "unat (ga_offset addr) + unat n \<le> length (node_bytes p (ga_home_node addr))"
  using assms ValidateRange_local(2) [of "rc_allocator p" addr n]
  by (auto simp: addressable_def node_bytes_length stub_inv_def in_space_def split: if_splits)

lemma load_view:
  assumes "stub_inv p" "addressable p addr n"
  shows "mem_read (node_bytes p (ga_home_node addr)) (ga_offset addr) n = Some (load (view p) addr (unat n))"
proof -
  note b = addressable_bounds [OF assms]
  have "take (unat n) (drop (unat (ga_offset addr)) (node_bytes p (ga_home_node addr))) = load (view p) addr (unat n)"
    using b assms(2) by (intro nth_equalityI) (auto simp: view_def addressable_def)
  with b show ?thesis by (simp add: mem_read_def)
qed

text \<open>Writing the bytes of one node changes the view as \<^const>\<open>store\<close> does.\<close>

lemma view_update:
  assumes "mem_write (node_bytes p node) off bs = Some region"
    and "\<And>node'. node_bytes p' node' = (if node' = node then region else node_bytes p node')"
  shows "view p' = store (view p) \<lparr>ga_home_node = node, ga_region_id = kDefaultRegionId, ga_offset = off\<rparr> bs"
proof (intro ext)
  fix node' r x
  have len: "length region = length (node_bytes p node)" by (rule mem_write_length [OF assms(1)])
  have "unat off + length bs \<le> length (node_bytes p node)" using assms(1) by (auto simp: mem_write_def split: if_splits)
  then show "view p' node' r x =
      store (view p) \<lparr>ga_home_node = node, ga_region_id = kDefaultRegionId, ga_offset = off\<rparr> bs node' r x"
    by (auto simp: view_def store_def in_bytes_def assms(2) len mem_write_nth [OF assms(1)])
qed

lemma addr_default: "ga_region_id addr = kDefaultRegionId \<Longrightarrow>
   \<lparr>ga_home_node = ga_home_node addr, ga_region_id = kDefaultRegionId, ga_offset = ga_offset addr\<rparr> = addr"
  by (cases addr) simp

lemma region_bound_test:
  assumes "stub_inv p" "in_space addr n"
  shows "of_nat (unat (cfg_local_region_size (rc_config p))) < ga_offset addr + n \<longleftrightarrow>
    unat (cfg_local_region_size (rc_config p)) < unat (ga_offset addr) + unat n"
  using assms(2) by (simp add: in_space_def unat_plus_no_wrap word_less_nat_alt)

subsection \<open>Reads\<close>

lemma Transport_Read_addressable:
  assumes inv: "stub_inv p" and ok: "addressable p addr n"
  shows "\<exists>t. Transport_Read p addr n = Some (kOk, load (view p) addr (unat n), p\<lparr>rc_transport := t\<rparr>) \<and>
    stub_inv (p\<lparr>rc_transport := t\<rparr>) \<and> view (p\<lparr>rc_transport := t\<rparr>) = view p"
proof -
  obtain t where t: "rc_transport p = StubT t" "st_cfg t = rc_config p"
    "\<And>node. length (remote_region t node) = unat (cfg_local_region_size (rc_config p))"
    by (rule stub_inv_stub [OF inv]) blast
  note rd = load_view [OF inv ok]
  show ?thesis
  proof (cases "ga_home_node addr = cfg_node_id (rc_config p)")
    case True
    then have "Transport_Read p addr n = Some (kOk, load (view p) addr (unat n), p)"
      using t rd ok
      by (simp add: Transport_Read_def Stub_Read_def TranslateLocal_def addressable_def node_bytes_def)
    moreover have "p\<lparr>rc_transport := rc_transport p\<rparr> = p" by simp
    ultimately show ?thesis using inv by metis
  next
    case False
    have sp: "in_space addr n" using ok by (simp add: addressable_def)
    let ?t = "StubT (touch_region t (ga_home_node addr))"
    have "stub_inv (p\<lparr>rc_transport := ?t\<rparr>)"
      using inv t by (auto simp: stub_inv_def touch_region_def)
    moreover have "view (p\<lparr>rc_transport := ?t\<rparr>) = view p"
      using t by (auto simp: view_def node_bytes_def fun_eq_iff)
    moreover have "Transport_Read p addr n = Some (kOk, load (view p) addr (unat n), p\<lparr>rc_transport := ?t\<rparr>)"
      using t rd ok False region_bound_test [OF inv sp]
      by (simp add: Transport_Read_def Stub_Read_def node_bytes_def addressable_def Let_def)
    ultimately show ?thesis by blast
  qed
qed

subsection \<open>Writes\<close>

text \<open>A write changes the transport's regions and the bytes of the local region, nothing else.\<close>

definition memory_update :: "Process \<Rightarrow> Process \<Rightarrow> bool" where
  "memory_update p p' \<longleftrightarrow> (\<exists>t r. p' = p\<lparr>rc_transport := t, rc_allocator := (rc_allocator p)\<lparr>da_region := r\<rparr>\<rparr> \<and>
     length r = length (da_region (rc_allocator p)))"

lemma memory_update_refl: "memory_update p p"
  unfolding memory_update_def by (rule exI [of _ "rc_transport p"], rule exI [of _ "da_region (rc_allocator p)"]) simp

lemma memory_update_trans:
  assumes "memory_update p q" "memory_update q r"
  shows "memory_update p r"
proof -
  from assms(1) obtain t b where q: "q = p\<lparr>rc_transport := t, rc_allocator := (rc_allocator p)\<lparr>da_region := b\<rparr>\<rparr>"
    "length b = length (da_region (rc_allocator p))" unfolding memory_update_def by blast
  from assms(2) obtain t' b' where r: "r = q\<lparr>rc_transport := t', rc_allocator := (rc_allocator q)\<lparr>da_region := b'\<rparr>\<rparr>"
    "length b' = length (da_region (rc_allocator q))" unfolding memory_update_def by blast
  from q r show ?thesis unfolding memory_update_def by (intro exI [of _ t'] exI [of _ b']) simp
qed

lemma memory_update_sel:
  assumes "memory_update p p'"
  shows "rc_config p' = rc_config p" "rc_initialized p' = rc_initialized p"
    "rc_components_set p' = rc_components_set p" "rc_cache_manager p' = rc_cache_manager p"
    "rc_block_table p' = rc_block_table p" "rc_stats p' = rc_stats p"
    "rc_pending_control_acks p' = rc_pending_control_acks p" "g_control_inboxes p' = g_control_inboxes p"
    "rc_next_control_request_id p' = rc_next_control_request_id p"
    "da_allocations (rc_allocator p') = da_allocations (rc_allocator p)"
    "da_next_offset (rc_allocator p') = da_next_offset (rc_allocator p)"
    "da_cfg (rc_allocator p') = da_cfg (rc_allocator p)"
    "length (da_region (rc_allocator p')) = length (da_region (rc_allocator p))"
  using assms by (auto simp: memory_update_def)

lemma ValidateRange_region:
  "length (da_region a') = length (da_region a) \<Longrightarrow> da_allocations a' = da_allocations a \<Longrightarrow> da_cfg a' = da_cfg a \<Longrightarrow>
   ValidateRangeUnlocked a' addr n = ValidateRangeUnlocked a addr n"
  by (simp add: ValidateRangeUnlocked_def region_size_def)

lemma addressable_update: "memory_update p p' \<Longrightarrow> addressable p' = addressable p"
  using ValidateRange_region [of "rc_allocator p'" "rc_allocator p"]
  by (auto simp: addressable_def memory_update_sel fun_eq_iff)

lemma Transport_Write_addressable:
  assumes inv: "stub_inv p" and ok: "addressable p addr n" and len: "unat n \<le> length bs"
  shows "\<exists>p'. Transport_Write p addr bs n = Some (kOk, p') \<and> stub_inv p' \<and>
    view p' = store (view p) addr (take (unat n) bs) \<and> memory_update p p'"
proof -
  obtain t where t: "rc_transport p = StubT t" "st_cfg t = rc_config p"
    "\<And>node. length (remote_region t node) = unat (cfg_local_region_size (rc_config p))"
    by (rule stub_inv_stub [OF inv]) blast
  let ?home = "ga_home_node addr" and ?bytes = "take (unat n) bs"
  have "unat (ga_offset addr) + length ?bytes \<le> length (node_bytes p ?home)"
    using addressable_bounds [OF inv ok] len by simp
  then obtain region where wr: "mem_write (node_bytes p ?home) (ga_offset addr) ?bytes = Some region"
    by (auto simp: mem_write_def)
  have rlen: "length region = unat (cfg_local_region_size (rc_config p))"
    using mem_write_length [OF wr] node_bytes_length [OF inv] by simp
  have rd: "mem_read bs 0 n = Some ?bytes" using len by (simp add: mem_read_def)
  have reg: "ga_region_id addr = kDefaultRegionId" and sp: "in_space addr n"
    using ok by (simp_all add: addressable_def)
  show ?thesis
  proof (cases "?home = cfg_node_id (rc_config p)")
    case True
    let ?p' = "p\<lparr>rc_allocator := (rc_allocator p)\<lparr>da_region := region\<rparr>\<rparr>"
    have "node_bytes ?p' node = (if node = ?home then region else node_bytes p node)" for node
      using True by (simp add: node_bytes_def)
    then have "view ?p' = store (view p) addr ?bytes"
      using view_update [OF wr, of ?p'] by (simp add: addr_default [OF reg])
    moreover have "stub_inv ?p'" using inv rlen by (auto simp: stub_inv_def alloc_inv_def)
    moreover have "Transport_Write p addr bs n = Some (kOk, ?p')"
      using t wr rd ok True
      by (simp add: Transport_Write_def Stub_Write_def TranslateLocal_def addressable_def node_bytes_def)
    moreover have "memory_update p ?p'"
      unfolding memory_update_def using rlen inv
      by (intro exI [of _ "rc_transport p"] exI [of _ region]) (simp add: stub_inv_def)
    ultimately show ?thesis by blast
  next
    case False
    let ?t = "touch_region t ?home"
    let ?p' = "p\<lparr>rc_transport := StubT (?t\<lparr>st_remote_regions := (st_remote_regions ?t)(?home \<mapsto> region)\<rparr>)\<rparr>"
    have ne: "region \<noteq> []" using rlen inv by (auto simp: stub_inv_def unat_eq_0)
    have "node_bytes ?p' node = (if node = ?home then region else node_bytes p node)" for node
      using t ne False by (auto simp: node_bytes_def remote_region_def touch_region_def Let_def)
    then have "view ?p' = store (view p) addr ?bytes"
      using view_update [OF wr, of ?p'] by (simp add: addr_default [OF reg])
    moreover have "stub_inv ?p'" using inv t rlen by (auto simp: stub_inv_def touch_region_def)
    moreover have "Transport_Write p addr bs n = Some (kOk, ?p')"
      using t wr rd ok False region_bound_test [OF inv sp]
      by (simp add: Transport_Write_def Stub_Write_def node_bytes_def addressable_def Let_def)
    moreover have "memory_update p ?p'"
      unfolding memory_update_def by (rule exI, rule exI [of _ "da_region (rc_allocator p)"]) simp
    ultimately show ?thesis by blast
  qed
qed

section \<open>The contract of a transport\<close>

text \<open>What the data path relies on: a memory, and batches that are their writes in order.\<close>

locale memory_transport = byte_memory t_read t_write mem usable good kept
  for t_read :: "'p \<Rightarrow> GlobalAddr \<Rightarrow> u64 \<Rightarrow> (Status \<times> byte list \<times> 'p) option"
    and t_write :: "'p \<Rightarrow> GlobalAddr \<Rightarrow> byte list \<Rightarrow> u64 \<Rightarrow> (Status \<times> 'p) option"
    and mem :: "'p \<Rightarrow> Memory"
    and usable :: "'p \<Rightarrow> GlobalAddr \<Rightarrow> u64 \<Rightarrow> bool"
    and good :: "'p \<Rightarrow> bool"
    and kept :: "'p \<Rightarrow> 'p \<Rightarrow> bool" +
  fixes t_batch :: "'p \<Rightarrow> RemoteWriteRequest list \<Rightarrow> (Status \<times> 'p) option"
  assumes batch_Nil: "good p \<Longrightarrow> t_batch p [] = Some (kOk, p)"
    and batch_Cons:
      "good p \<Longrightarrow> t_batch p (req # reqs) =
         Option.bind (t_write p (rr_addr req) (rr_buf req) (rr_size req))
           (\<lambda>(s, p). if s \<noteq> kOk then Some (s, p) else t_batch p reqs)"
begin

lemma batch_effect:
  assumes "good p" "list_all (\<lambda>req. usable p (rr_addr req) (rr_size req) \<and> unat (rr_size req) \<le> length (rr_buf req)) reqs"
  shows "\<exists>p'. t_batch p reqs = Some (kOk, p') \<and> good p' \<and> kept p p' \<and>
    mem p' = fold (\<lambda>req M. store M (rr_addr req) (take (unat (rr_size req)) (rr_buf req))) reqs (mem p)"
  using assms
proof (induction reqs arbitrary: p)
  case Nil
  then show ?case by (auto simp: batch_Nil intro: kept_refl)
next
  case (Cons req reqs)
  obtain q where q: "t_write p (rr_addr req) (rr_buf req) (rr_size req) = Some (kOk, q)" "good q" "kept p q"
    "mem q = store (mem p) (rr_addr req) (take (unat (rr_size req)) (rr_buf req))"
    using write_usable [OF Cons.prems(1), of "rr_addr req" "rr_size req" "rr_buf req"] Cons.prems(2) by auto
  have "list_all (\<lambda>req. usable q (rr_addr req) (rr_size req) \<and> unat (rr_size req) \<le> length (rr_buf req)) reqs"
    using Cons.prems(2) kept_usable [OF q(3)] by simp
  from Cons.IH [OF q(2) this] obtain p' where p': "t_batch q reqs = Some (kOk, p')" "good p'" "kept q p'"
    "mem p' = fold (\<lambda>req M. store M (rr_addr req) (take (unat (rr_size req)) (rr_buf req))) reqs (mem q)"
    by blast
  from kept_trans [OF q(3) p'(3)] p' q show ?case by (simp add: batch_Cons [OF Cons.prems(1)])
qed

end

lemma stub_kept_read: "memory_update p (p\<lparr>rc_transport := t\<rparr>)"
  unfolding memory_update_def by (rule exI [of _ t], rule exI [of _ "da_region (rc_allocator p)"]) simp

lemma Transport_Write_stub:
  assumes "rc_transport p = StubT t" "Transport_Write p addr bs n = Some (s, p')"
  shows "\<exists>t'. rc_transport p' = StubT t'"
  using assms
  by (auto simp: Transport_Write_def Stub_Write_def Let_def bind_eq_Some_conv split: if_splits option.splits)

interpretation stub: memory_transport
  Transport_Read Transport_Write view addressable stub_inv memory_update Transport_BatchWrite
proof (unfold_locales, goal_cases)
  case (1 p addr n)
  with Transport_Read_addressable [of p addr n] stub_kept_read show ?case by blast
next
  case (2 p addr n bs)
  with Transport_Write_addressable show ?case by blast
next
  case (3 p)
  show ?case by (rule memory_update_refl)
next
  case (4 p q r)
  then show ?case by (rule memory_update_trans)
next
  case (5 p q)
  then show ?case by (rule addressable_update)
next
  case (6 p)
  then show ?case by (auto simp: Transport_BatchWrite_def elim: stub_inv_stub)
next
  case (7 p req reqs)
  then obtain t where t: "rc_transport p = StubT t" by (rule stub_inv_stub)
  show ?case
  proof (cases "Transport_Write p (rr_addr req) (rr_buf req) (rr_size req)")
    case None
    with t show ?thesis by (simp add: Transport_BatchWrite_def)
  next
    case (Some r)
    with Transport_Write_stub [OF t] t show ?thesis by (cases r) (fastforce simp: Transport_BatchWrite_def)
  qed
qed

section \<open>Properties\<close>

definition stub_process :: Process where
  "stub_process = initial_process\<lparr>rc_initialized := True, rc_components_set := True, rc_config := wit_cfg,
     rc_transport := StubT \<lparr>st_cfg = wit_cfg, st_remote_regions = Map.empty\<rparr>, rc_allocator := wit_alloc1,
     rc_cache_manager := new_CacheManager wit_cfg\<rparr>"

lemma stub_process_inv: "stub_inv stub_process"
  using wit_alloc1_inv by (simp add: stub_inv_def stub_process_def wit_alloc1_def)

lemma stub_process_remote: "unat off + unat n \<le> 64 \<Longrightarrow> n \<noteq> 0 \<Longrightarrow>
   addressable stub_process \<lparr>ga_home_node = 2, ga_region_id = 0, ga_offset = off\<rparr> n"
  by (simp add: addressable_def stub_process_def in_space_def no_wrap_def kDefaultRegionId_def)

text \<open>
  C11: The stub transport is a memory. A write to an addressable range, local or remote, succeeds
  and reading the range back returns the bytes written; every other byte of every node keeps its
  value, and nothing but the regions changes.
\<close>

theorem Transport_write_read:
  assumes "stub_inv p" and "addressable p addr n" and "unat n = length bs"
  shows "\<exists>p' p''. Transport_Write p addr bs n = Some (kOk, p') \<and> Transport_Read p' addr n = Some (kOk, bs, p'') \<and>
    view p' = store (view p) addr bs \<and> view p'' = view p' \<and> stub_inv p'' \<and> memory_update p p''"
  by (rule stub.write_read [OF assms])

theorem Transport_write_read_witness:
  "\<exists>p' p''. Transport_Write stub_process \<lparr>ga_home_node = 2, ga_region_id = 0, ga_offset = 60\<rparr> [1, 2, 3, 4] 4 = Some (kOk, p') \<and>
     Transport_Read p' \<lparr>ga_home_node = 2, ga_region_id = 0, ga_offset = 60\<rparr> 4 = Some (kOk, [1, 2, 3, 4], p'')"
  using Transport_write_read [OF stub_process_inv stub_process_remote, of 60 4 "[1, 2, 3, 4]"] by auto

text \<open>
  C33: A batch is its writes in order. On addressable requests \<^verbatim>\<open>BatchWrite\<close> succeeds and
  leaves the memory in which the requests have been stored one after the other.
\<close>

theorem BatchWrite_in_order:
  assumes "stub_inv p"
    and "list_all (\<lambda>req. addressable p (rr_addr req) (rr_size req) \<and> unat (rr_size req) \<le> length (rr_buf req)) reqs"
  shows "\<exists>p'. Transport_BatchWrite p reqs = Some (kOk, p') \<and> stub_inv p' \<and> memory_update p p' \<and>
    view p' = fold (\<lambda>req M. store M (rr_addr req) (take (unat (rr_size req)) (rr_buf req))) reqs (view p)"
  using stub.batch_effect [OF assms] by blast

definition wit_request :: "u64 \<Rightarrow> byte list \<Rightarrow> RemoteWriteRequest" where
  "wit_request off bs = \<lparr>rr_addr = \<lparr>ga_home_node = 2, ga_region_id = 0, ga_offset = off\<rparr>, rr_buf = bs,
     rr_size = of_nat (length bs), rr_mode = kSI, rr_owner_biased = False, rr_owner_handoff = False\<rparr>"

theorem BatchWrite_in_order_witness:
  "\<exists>p'. Transport_BatchWrite stub_process [wit_request 0 [1, 2], wit_request 1 [3]] = Some (kOk, p') \<and>
     view p' 2 0 1 = 3"
  using BatchWrite_in_order [OF stub_process_inv, of "[wit_request 0 [1, 2], wit_request 1 [3]]"]
  by (auto simp: wit_request_def stub_process_remote store_def in_bytes_def)

text \<open>
  C38: The bounds test of the stub wraps. For a remote range whose end wraps past \<open>2\<^sup>64\<close> to at
  most the region size, the test \<^verbatim>\<open>addr.offset + size > region.size()\<close> passes and both
  \<^verbatim>\<open>Read\<close> and \<^verbatim>\<open>Write\<close> copy outside the region, whatever the buffer.
\<close>

theorem stub_bounds_wrap:
  assumes "stub_inv p" and "ga_home_node addr \<noteq> cfg_node_id (rc_config p)"
    and "\<not> no_wrap (ga_offset addr) n" and "ga_offset addr + n \<le> cfg_local_region_size (rc_config p)"
  shows "Transport_Read p addr n = None \<and> Transport_Write p addr bs n = None"
proof -
  obtain t where t: "rc_transport p = StubT t" "st_cfg t = rc_config p"
    "\<And>node. length (remote_region t node) = unat (cfg_local_region_size (rc_config p))"
    by (rule stub_inv_stub [OF assms(1)]) blast
  have far: "\<not> unat (ga_offset addr) + unat n \<le> unat (cfg_local_region_size (rc_config p))"
    using assms(3) stub_inv_small [OF assms(1)] by (simp add: no_wrap_def)
  have rd: "mem_read (remote_region t (ga_home_node addr)) (ga_offset addr) n = None"
    using far t(3) by (simp add: mem_read_def)
  have wr: "Option.bind (mem_read bs 0 n) (\<lambda>bytes. Option.bind
      (mem_write (remote_region t (ga_home_node addr)) (ga_offset addr) bytes) f) = None" for f
    using far t(3) by (auto simp: mem_read_def mem_write_def)
  have "\<not> cfg_local_region_size (rc_config p) < ga_offset addr + n" using assms(4) by (simp add: not_less)
  then show ?thesis
    using t assms(2) by (simp add: Transport_Read_def Transport_Write_def Stub_Read_def Stub_Write_def Let_def rd wr)
qed

theorem stub_bounds_wrap_witness:
  "Transport_Read stub_process \<lparr>ga_home_node = 2, ga_region_id = 0, ga_offset = 17\<rparr> (- 1) = None"
  using stub_bounds_wrap [OF stub_process_inv, of "\<lparr>ga_home_node = 2, ga_region_id = 0, ga_offset = 17\<rparr>" "- 1"]
  by (simp add: stub_process_def no_wrap_def unat_u64_max)

end
