(* ===== verification/Runtime_Context.thy ===== *)
theory Runtime_Context
  imports Transport_Stub
begin

text \<open>
  The runtime context (\<^verbatim>\<open>src/runtime/context.cc\<close>): bring-up and shutdown of the
  components, and the bookkeeping of control messages that wait for an acknowledgement.
\<close>

section \<open>Life cycle\<close>

definition RuntimeContext_Init :: "Process \<Rightarrow> Config \<Rightarrow> Status \<times> Process" where
  "RuntimeContext_Init p cfg =
     (if rc_initialized p then (kAlreadyInitialized, p)
      else
        let p = p\<lparr>rc_config := cfg, rc_next_control_request_id := 1, rc_pending_control_acks := [],
                  rc_components_set := True, rc_stats := new_StatsCollector,
                  rc_allocator := new_DsmAllocator cfg, rc_cache_manager := new_CacheManager cfg,
                  rc_block_table := Map.empty, rc_transport := CreateTransport cfg\<rparr>;
            (s, a) = Allocator_Init (rc_allocator p);
            p = p\<lparr>rc_allocator := a\<rparr> in
        if s \<noteq> kOk then (s, p)
        else
          let (s, cm) = CacheManager_Init (rc_cache_manager p);
              p = p\<lparr>rc_cache_manager := cm\<rparr> in
          if s \<noteq> kOk then (s, p)
          else
            let (s, p) = Transport_Init p in
            if s \<noteq> kOk then (s, p)
            else
              let caps = Transport_GetCapabilities p;
                  s = (if tc_supports_one_sided_read caps \<or> tc_supports_one_sided_write caps
                       then fst (Transport_RegisterMemoryRegion p (LocalBase (rc_allocator p))
                                   (LocalRegionSize (rc_allocator p)) True)
                       else kOk) in
              if s \<noteq> kOk then (s, p) else (kOk, p\<lparr>rc_initialized := True\<rparr>))"

definition RuntimeContext_Shutdown :: "Process \<Rightarrow> Status \<times> Process" where
  "RuntimeContext_Shutdown p =
     (if \<not> rc_initialized p then (kNotInitialized, p)
      else
        let p = snd (Transport_Shutdown p);
            p = p\<lparr>rc_cache_manager := snd (CacheManager_Shutdown (rc_cache_manager p))\<rparr>;
            p = p\<lparr>rc_allocator := snd (Allocator_Shutdown (rc_allocator p))\<rparr>
        in (kOk, p\<lparr>rc_components_set := False, rc_block_table := Map.empty,
                   rc_next_control_request_id := 1, rc_pending_control_acks := [],
                   rc_initialized := False\<rparr>))"

section \<open>Pending acknowledgements\<close>

definition NextControlRequestId :: "'a RuntimeContext_scheme \<Rightarrow> u64 \<times> 'a RuntimeContext_scheme" where
  "NextControlRequestId p =
     (rc_next_control_request_id p, p\<lparr>rc_next_control_request_id := rc_next_control_request_id p + 1\<rparr>)"

text \<open>The two overloads of \<^verbatim>\<open>TrackPendingControlAck\<close>.\<close>

definition TrackPendingControlAckId :: "'a RuntimeContext_scheme \<Rightarrow> u64 \<Rightarrow> 'a RuntimeContext_scheme" where
  "TrackPendingControlAckId p request_id =
     (if request_id = 0 then p
      else
        let pending = \<lparr>pa_message = new_ControlMessage\<lparr>cmsg_request_id := request_id,
                          cmsg_source_node := cfg_node_id (rc_config p),
                          cmsg_target_node := cfg_node_id (rc_config p)\<rparr>,
                       pa_polls_remaining = cfg_control_ack_timeout_polls (rc_config p),
                       pa_retries_remaining = 0\<rparr>
        in p\<lparr>rc_pending_control_acks := AList.update request_id pending (rc_pending_control_acks p)\<rparr>)"

definition TrackPendingControlAck :: "'a RuntimeContext_scheme \<Rightarrow> ControlMessage \<Rightarrow> 'a RuntimeContext_scheme" where
  "TrackPendingControlAck p message =
     (if cmsg_request_id message = 0 then p
      else
        let pending = \<lparr>pa_message = message,
                       pa_polls_remaining = cfg_control_ack_timeout_polls (rc_config p),
                       pa_retries_remaining = cfg_control_ack_max_retries (rc_config p)\<rparr>
        in p\<lparr>rc_pending_control_acks :=
               AList.update (cmsg_request_id message) pending (rc_pending_control_acks p)\<rparr>)"

definition CompleteControlAck :: "'a RuntimeContext_scheme \<Rightarrow> u64 \<Rightarrow> 'a RuntimeContext_scheme" where
  "CompleteControlAck p request_id =
     (if request_id = 0 then p
      else p\<lparr>rc_pending_control_acks := AList.delete request_id (rc_pending_control_acks p)\<rparr>)"

definition HasPendingControlAck :: "'a RuntimeContext_scheme \<Rightarrow> u64 \<Rightarrow> bool" where
  "HasPendingControlAck p request_id \<longleftrightarrow> map_of (rc_pending_control_acks p) request_id \<noteq> None"

definition PendingControlAcks :: "'a RuntimeContext_scheme \<Rightarrow> u64" where
  "PendingControlAcks p = of_nat (length (rc_pending_control_acks p))"

text \<open>
  The iteration of \<^verbatim>\<open>AdvanceControlAckTimeouts\<close>: an entry with polls left loses one;
  an entry without polls or retries ends the loop with a timeout; otherwise the message is
  scheduled again and the poll budget renewed.
\<close>

fun advance_entries ::
    "u64 \<Rightarrow> (u64 \<times> PendingControlAck) list \<Rightarrow> ControlMessage list \<Rightarrow>
     Status \<times> ControlMessage list \<times> (u64 \<times> PendingControlAck) list" where
  "advance_entries timeout_polls [] retries = (kOk, retries, [])"
| "advance_entries timeout_polls ((request_id, pending) # rest) retries =
     (if 0 < pa_polls_remaining pending then
        let pending = pending\<lparr>pa_polls_remaining := pa_polls_remaining pending - 1\<rparr>;
            (s, retries, rest) = advance_entries timeout_polls rest retries
        in (s, retries, (request_id, pending) # rest)
      else if pa_retries_remaining pending = 0 then (kTimedOut, retries, (request_id, pending) # rest)
      else
        let pending' = pending\<lparr>pa_retries_remaining := pa_retries_remaining pending - 1,
                               pa_polls_remaining := timeout_polls\<rparr>;
            (s, retries, rest) = advance_entries timeout_polls rest (retries @ [pa_message pending])
        in (s, retries, (request_id, pending') # rest))"

definition AdvanceControlAckTimeouts ::
    "'a RuntimeContext_scheme \<Rightarrow> bool \<Rightarrow> Status \<times> ControlMessage list \<times> 'a RuntimeContext_scheme" where
  "AdvanceControlAckTimeouts p retries_ok =
     (if \<not> retries_ok then (kInvalidArg, [], p)
      else
        let (s, retries, acks) =
              advance_entries (cfg_control_ack_timeout_polls (rc_config p)) (rc_pending_control_acks p) []
        in (s, retries, p\<lparr>rc_pending_control_acks := acks\<rparr>))"

section \<open>Acknowledgement budgets\<close>

text \<open>
  The number of further polls an entry survives: its polls, and one more plus a full poll period
  for every retry it has left.
\<close>

definition ack_budget :: "u64 \<Rightarrow> PendingControlAck \<Rightarrow> nat" where
  "ack_budget timeout_polls pending =
     unat (pa_retries_remaining pending) * (unat timeout_polls + 1) + unat (pa_polls_remaining pending)"

lemma ack_budget_0: "ack_budget P e = 0 \<longleftrightarrow> pa_polls_remaining e = 0 \<and> pa_retries_remaining e = 0"
  by (auto simp: ack_budget_def unat_eq_0)

definition budgets :: "u64 \<Rightarrow> (u64 \<times> PendingControlAck) list \<Rightarrow> nat list" where
  "budgets P = map (\<lambda>e. ack_budget P (snd e))"

lemma budget_poll:
  assumes "0 < pa_polls_remaining e"
  shows "ack_budget P (e\<lparr>pa_polls_remaining := pa_polls_remaining e - 1\<rparr>) = ack_budget P e - 1"
proof -
  have "0 < unat (pa_polls_remaining e)" using assms by (simp add: unat_gt_0 word_gt_0)
  with assms show ?thesis by (simp add: ack_budget_def unat_minus_one word_gt_0)
qed

lemma budget_retry:
  assumes "pa_polls_remaining e = 0" "pa_retries_remaining e \<noteq> 0"
  shows "ack_budget P (e\<lparr>pa_retries_remaining := pa_retries_remaining e - 1, pa_polls_remaining := P\<rparr>) = ack_budget P e - 1"
proof -
  obtain r where "unat (pa_retries_remaining e) = Suc r"
    using assms(2) by (cases "unat (pa_retries_remaining e)") (auto simp: unat_eq_0)
  with assms show ?thesis by (simp add: ack_budget_def unat_minus_one)
qed

text \<open>One poll: it times out exactly when some budget is used up, otherwise every budget loses one.\<close>

lemma advance_entries_exact:
  "fst (advance_entries P entries rs) = (if 0 \<in> set (budgets P entries) then kTimedOut else kOk) \<and>
   (0 \<notin> set (budgets P entries) \<longrightarrow>
      budgets P (snd (snd (advance_entries P entries rs))) = map (\<lambda>b. b - 1) (budgets P entries) \<and>
      map fst (snd (snd (advance_entries P entries rs))) = map fst entries \<and>
      fst (snd (advance_entries P entries rs)) =
        rs @ map (\<lambda>e. pa_message (snd e)) (filter (\<lambda>e. pa_polls_remaining (snd e) = 0) entries))"
proof (induction P entries rs rule: advance_entries.induct)
  case (1 P rs)
  then show ?case by (simp add: budgets_def)
next
  case (2 P id e rest rs)
  consider "0 < pa_polls_remaining e" | "pa_polls_remaining e = 0" "pa_retries_remaining e = 0"
    | "pa_polls_remaining e = 0" "pa_retries_remaining e \<noteq> 0" by (auto simp: word_gt_0)
  then show ?case
  proof cases
    case 1
    with 2(1) show ?thesis by (simp add: budgets_def budget_poll ack_budget_0 word_gt_0 split_beta Let_def)
  next
    case 2
    then show ?thesis by (simp add: budgets_def ack_budget_0)
  next
    case 3
    with 2(2) show ?thesis by (simp add: budgets_def budget_retry ack_budget_0 split_beta Let_def)
  qed
qed

text \<open>Once a budget is used up it stays so: the entry that timed out is not removed.\<close>

lemma advance_entries_stuck:
  "0 \<in> set (budgets P entries) \<Longrightarrow> 0 \<in> set (budgets P (snd (snd (advance_entries P entries rs))))"
proof (induction P entries rs rule: advance_entries.induct)
  case (2 P id e rest rs)
  consider "0 < pa_polls_remaining e" | "pa_polls_remaining e = 0" "pa_retries_remaining e = 0"
    | "pa_polls_remaining e = 0" "pa_retries_remaining e \<noteq> 0" by (auto simp: word_gt_0)
  then show ?case
  proof cases
    case 1
    with 2(1,3) show ?thesis by (auto simp: budgets_def ack_budget_0 word_gt_0 split_beta Let_def)
  next
    case 2
    then show ?thesis by (simp add: budgets_def ack_budget_0)
  next
    case 3
    with 2(2,3) show ?thesis by (auto simp: budgets_def ack_budget_0 split_beta Let_def)
  qed
qed (simp add: budgets_def)

text \<open>
  The results of \<open>n\<close> polls without an acknowledgement in between; the caller polls on after an error.
\<close>

fun poll_results :: "nat \<Rightarrow> Process \<Rightarrow> Status list" where
  "poll_results 0 p = []"
| "poll_results (Suc n) p = (let (s, retries, p) = AdvanceControlAckTimeouts p True in s # poll_results n p)"

abbreviation pending_budgets :: "Process \<Rightarrow> nat list" where
  "pending_budgets p \<equiv> budgets (cfg_control_ack_timeout_polls (rc_config p)) (rc_pending_control_acks p)"

lemma Advance_exact:
  "fst (AdvanceControlAckTimeouts p True) = (if 0 \<in> set (pending_budgets p) then kTimedOut else kOk)"
  "0 \<notin> set (pending_budgets p) \<Longrightarrow>
   pending_budgets (snd (snd (AdvanceControlAckTimeouts p True))) = map (\<lambda>b. b - 1) (pending_budgets p)"
  "0 \<in> set (pending_budgets p) \<Longrightarrow> 0 \<in> set (pending_budgets (snd (snd (AdvanceControlAckTimeouts p True))))"
  using advance_entries_exact [of "cfg_control_ack_timeout_polls (rc_config p)" "rc_pending_control_acks p" "[]"]
    advance_entries_stuck [of "cfg_control_ack_timeout_polls (rc_config p)" "rc_pending_control_acks p" "[]"]
  by (simp_all add: AdvanceControlAckTimeouts_def split_beta)

lemma Advance_config: "rc_config (snd (snd (AdvanceControlAckTimeouts p True))) = rc_config p"
  by (simp add: AdvanceControlAckTimeouts_def split_beta)

lemma Min_pred:
  assumes "xs \<noteq> []"
  shows "Min (set (map (\<lambda>b. b - 1) xs)) = Min (set xs) - (1 :: nat)"
proof -
  have "mono (\<lambda>b :: nat. b - 1)" by (simp add: mono_def diff_le_mono)
  from mono_Min_commute [OF this, of "set xs"] assms show ?thesis by simp
qed

lemma poll_results_stuck: "0 \<in> set (pending_budgets p) \<Longrightarrow> poll_results n p = replicate n kTimedOut"
  using Advance_exact(1,3) by (induction n arbitrary: p) (simp_all add: split_beta)

lemma poll_results_exact:
  assumes "rc_pending_control_acks p \<noteq> []"
  shows "poll_results n p =
    replicate (min n (Min (set (pending_budgets p)))) kOk @ replicate (n - Min (set (pending_budgets p))) kTimedOut"
  using assms
proof (induction n arbitrary: p)
  case (Suc n)
  let ?p = "snd (snd (AdvanceControlAckTimeouts p True))"
  have ne: "pending_budgets p \<noteq> []" using Suc.prems by (simp add: budgets_def)
  show ?case
  proof (cases "0 \<in> set (pending_budgets p)")
    case True
    then have "Min (set (pending_budgets p)) = 0" by (metis List.finite_set Min_le le_zero_eq)
    with poll_results_stuck [OF True, of "Suc n"] show ?thesis by simp
  next
    case False
    have "pending_budgets ?p \<noteq> []" using Advance_exact(2) [OF False] ne by simp
    then have "rc_pending_control_acks ?p \<noteq> []" by (auto simp: budgets_def)
    from Suc.IH [OF this] have IH: "poll_results n ?p =
        replicate (min n (Min (set (pending_budgets p)) - 1)) kOk @ replicate (n - (Min (set (pending_budgets p)) - 1)) kTimedOut"
      unfolding Advance_exact(2) [OF False] Min_pred [OF ne] .
    have "0 < Min (set (pending_budgets p))"
      using False ne by (metis List.finite_set Min_in set_empty gr0I)
    then obtain m where "Min (set (pending_budgets p)) = Suc m" by (cases "Min (set (pending_budgets p))") auto
    with IH show ?thesis using False Advance_exact(1) [of p] by (simp add: split_beta)
  qed
qed simp

section \<open>Bring-up\<close>

text \<open>
  A process on the stub transport between two calls: the components agree on the configuration
  and are well-formed; the inboxes hold acknowledgements only, at most two, and every
  acknowledgement the process waits for is already in its own inbox.
\<close>

definition control_inv :: "Process \<Rightarrow> bool" where
  "control_inv p \<longleftrightarrow>
     (\<forall>node. list_all (\<lambda>m. IsAckOpcode (cmsg_opcode m)) (g_control_inboxes p node) \<and>
             length (g_control_inboxes p node) \<le> 2) \<and>
     (\<forall>id \<in> fst ` set (rc_pending_control_acks p). id \<noteq> 0 \<and>
        id \<in> cmsg_request_id ` set (g_control_inboxes p (cfg_node_id (rc_config p))))"

definition running :: "Process \<Rightarrow> bool" where
  "running p \<longleftrightarrow> rc_initialized p \<and> rc_components_set p \<and> cfg_node_id (rc_config p) \<noteq> kInvalidNodeId \<and> stub_inv p \<and>
     cm_cfg (rc_cache_manager p) = rc_config p \<and> cache_inv (rc_cache_manager p) \<and> control_inv p"

text \<open>What is left of a process that is not running: its inboxes.\<close>

definition inboxes_ok :: "Process \<Rightarrow> bool" where
  "inboxes_ok p \<longleftrightarrow>
     (\<forall>node. list_all (\<lambda>m. IsAckOpcode (cmsg_opcode m)) (g_control_inboxes p node) \<and>
             length (g_control_inboxes p node) \<le> 2)"

lemma control_inv_inboxes: "control_inv p \<Longrightarrow> inboxes_ok p"
  by (simp add: control_inv_def inboxes_ok_def)

text \<open>The state \<^verbatim>\<open>Init\<close> brings up when every step of it succeeds.\<close>

definition brought_up :: "Process \<Rightarrow> Config \<Rightarrow> Process" where
  "brought_up p cfg = p\<lparr>rc_initialized := True, rc_config := cfg, rc_components_set := True,
     rc_transport := StubT \<lparr>st_cfg = cfg, st_remote_regions = Map.empty\<rparr>,
     rc_allocator := snd (Allocator_Init (new_DsmAllocator cfg)),
     rc_cache_manager := new_CacheManager cfg, rc_block_table := Map.empty,
     rc_stats := new_StatsCollector, rc_next_control_request_id := 1, rc_pending_control_acks := []\<rparr>"

lemma new_CacheManager_Init: "CacheManager_Init (new_CacheManager cfg) = (kOk, new_CacheManager cfg)"
  by (simp add: CacheManager_Init_def new_CacheManager_def)

lemma Init_region: "da_region (snd (Allocator_Init (new_DsmAllocator cfg))) =
   replicate (unat (cfg_local_region_size cfg)) 0"
  by (simp add: Allocator_Init_def new_DsmAllocator_def vec_resize_def)

lemma Init_outcome:
  "RuntimeContext_Init p cfg =
     (if rc_initialized p then (kAlreadyInitialized, p)
      else if cfg_enable_rdma cfg
      then (kUnimplemented, (brought_up p cfg)\<lparr>rc_initialized := False, rc_transport := RdmaT cfg\<rparr>)
      else if cfg_local_region_size cfg = 0
      then (kInvalidArg, (brought_up p cfg)\<lparr>rc_initialized := False\<rparr>)
      else (kOk, brought_up p cfg))"
proof -
  have "of_nat (unat (cfg_local_region_size cfg)) = cfg_local_region_size cfg" by simp
  then show ?thesis
    by (simp add: RuntimeContext_Init_def brought_up_def CreateTransport_def Transport_Init_def Stub_Init_def
          Transport_GetCapabilities_def Stub_GetCapabilities_def Transport_RegisterMemoryRegion_def
          Stub_RegisterMemoryRegion_def LocalBase_def LocalRegionSize_def region_size_def Init_region
          Allocator_Init_def new_CacheManager_Init new_DsmAllocator_def vec_resize_def unat_eq_0 Let_def)
qed

lemma new_CacheManager_inv: "cache_inv (new_CacheManager cfg)" "queues_inv (new_CacheManager cfg)"
  by (simp_all add: cache_inv_def queues_inv_def new_CacheManager_def resident_bytes_def)

lemma brought_up_running:
  assumes "inboxes_ok p" "cfg_local_region_size cfg \<noteq> 0" "unat (cfg_local_region_size cfg) < 2 ^ 63"
    and "cfg_node_id cfg \<noteq> kInvalidNodeId"
  shows "running (brought_up p cfg)"
proof -
  have "alloc_inv (snd (Allocator_Init (new_DsmAllocator cfg)))"
    using assms(3) by (intro Init_alloc_inv) (simp add: new_DsmAllocator_def)
  then show ?thesis
    using assms new_CacheManager_inv
    by (simp add: running_def brought_up_def stub_inv_def control_inv_def inboxes_ok_def Init_region)
       (simp add: Allocator_Init_def new_DsmAllocator_def new_CacheManager_def)
qed

lemma Shutdown_inboxes: "g_control_inboxes (snd (RuntimeContext_Shutdown p)) = g_control_inboxes p"
  by (auto simp: RuntimeContext_Shutdown_def Transport_Shutdown_def Stub_Shutdown_def split: Transport.split)

lemma Shutdown_initialized: "\<not> rc_initialized (snd (RuntimeContext_Shutdown p))"
  by (simp add: RuntimeContext_Shutdown_def Let_def)

section \<open>Properties\<close>

text \<open>
  C24: The outcome of \<^verbatim>\<open>RuntimeContext::Init\<close>. On a running process it refuses and changes
  nothing; with RDMA requested in a build without verbs, or with an empty local region, it
  reports the error and leaves the process not initialised; otherwise, for a region below
  \<open>2\<^sup>63\<close> bytes and a valid node number, it brings up a running process with fresh components.
\<close>

theorem Init_cases:
  assumes "inboxes_ok p" and "unat (cfg_local_region_size cfg) < 2 ^ 63" and "cfg_node_id cfg \<noteq> kInvalidNodeId"
  shows "case RuntimeContext_Init p cfg of (s, p') \<Rightarrow>
    (if rc_initialized p then s = kAlreadyInitialized \<and> p' = p
     else if cfg_enable_rdma cfg then s = kUnimplemented \<and> \<not> rc_initialized p'
     else if cfg_local_region_size cfg = 0 then s = kInvalidArg \<and> \<not> rc_initialized p'
     else s = kOk \<and> running p' \<and> rc_config p' = cfg \<and> rc_block_table p' = Map.empty \<and>
          view p' = (\<lambda>node region x. 0))"
proof -
  have "view (brought_up p cfg) node region x = 0" for node region x
    by (auto simp: view_def node_bytes_def brought_up_def remote_region_def Init_region Let_def)
  then have "view (brought_up p cfg) = (\<lambda>node region x. 0)" by (intro ext)
  with brought_up_running [OF assms(1) _ assms(2,3)] show ?thesis
    by (simp add: Init_outcome) (simp add: brought_up_def)
qed

theorem Init_cases_witness:
  "fst (RuntimeContext_Init initial_process wit_cfg) = kOk \<and> running (snd (RuntimeContext_Init initial_process wit_cfg))"
proof -
  have "inboxes_ok initial_process" by (simp add: inboxes_ok_def initial_process_def)
  moreover have "\<not> cfg_enable_rdma wit_cfg" by (simp add: wit_cfg_def default_config_def)
  moreover have "\<not> rc_initialized initial_process" by (simp add: initial_process_def)
  moreover have "cfg_node_id wit_cfg \<noteq> kInvalidNodeId" by (simp add: kInvalidNodeId_def)
  ultimately show ?thesis using Init_cases [of initial_process wit_cfg] by (simp add: split_beta)
qed

text \<open>
  C25: Shutdown followed by Init is a fresh start, but for the stub's inboxes. Whatever a running
  process did, after \<^verbatim>\<open>Shutdown\<close> any \<^verbatim>\<open>Init\<close> gives the state the first
  \<^verbatim>\<open>Init\<close> of a process with the same control inboxes gives; the inboxes, a global of the
  stub, survive.
\<close>

theorem Shutdown_Init_fresh:
  assumes "rc_initialized p"
  shows "fst (RuntimeContext_Shutdown p) = kOk \<and>
    RuntimeContext_Init (snd (RuntimeContext_Shutdown p)) cfg =
      RuntimeContext_Init (initial_process\<lparr>g_control_inboxes := g_control_inboxes p\<rparr>) cfg"
proof -
  have "brought_up (snd (RuntimeContext_Shutdown p)) cfg =
      brought_up (initial_process\<lparr>g_control_inboxes := g_control_inboxes p\<rparr>) cfg"
    unfolding brought_up_def by (rule Process.equality) (simp_all add: Shutdown_inboxes)
  with assms show ?thesis
    by (simp add: Init_outcome Shutdown_initialized) (simp add: RuntimeContext_Shutdown_def initial_process_def Let_def)
qed

theorem Shutdown_Init_fresh_witness:
  "RuntimeContext_Init (snd (RuntimeContext_Shutdown stub_process)) wit_cfg = RuntimeContext_Init initial_process wit_cfg"
  using Shutdown_Init_fresh [of stub_process wit_cfg] by (simp add: stub_process_def initial_process_def)

text \<open>
  C10: Acknowledgement timeouts are exact. While no acknowledgement arrives, the first \<open>m\<close> polls
  report success and every later one, also after the first timeout, reports a timeout, where \<open>m\<close> is the smallest budget of the pending
  entries; a message just tracked has a budget of one poll period and one more period, plus the
  poll that retransmits, for every configured retry.
\<close>

theorem ack_timeout_exact:
  assumes "rc_pending_control_acks p \<noteq> []"
  shows "poll_results n p =
      replicate (min n (Min (set (pending_budgets p)))) kOk @ replicate (n - Min (set (pending_budgets p))) kTimedOut \<and>
    (cmsg_request_id msg \<noteq> 0 \<longrightarrow>
       map_option (ack_budget (cfg_control_ack_timeout_polls (rc_config p)))
         (map_of (rc_pending_control_acks (TrackPendingControlAck p msg)) (cmsg_request_id msg)) =
       Some (unat (cfg_control_ack_max_retries (rc_config p)) * (unat (cfg_control_ack_timeout_polls (rc_config p)) + 1)
             + unat (cfg_control_ack_timeout_polls (rc_config p))))"
  using poll_results_exact [OF assms] by (simp add: TrackPendingControlAck_def update_conv' ack_budget_def)

theorem ack_timeout_exact_witness:
  "poll_results 17 (TrackPendingControlAck stub_process (new_ControlMessage\<lparr>cmsg_request_id := 1\<rparr>)) =
     replicate 14 kOk @ [kTimedOut, kTimedOut, kTimedOut]"
proof -
  let ?p = "TrackPendingControlAck stub_process (new_ControlMessage\<lparr>cmsg_request_id := 1\<rparr>)"
  have "rc_pending_control_acks ?p \<noteq> []" and b: "pending_budgets ?p = [14]"
    by (simp_all add: TrackPendingControlAck_def stub_process_def initial_process_def budgets_def ack_budget_def
          new_ControlMessage_def wit_cfg_def default_config_def)
  from ack_timeout_exact [OF this(1), of 17] b show ?thesis by (simp add: eval_nat_numeral)
qed

end
