(* ===== verification/Access_Api.thy ===== *)
theory Access_Api
  imports Runtime_Context
begin

text \<open>
  The data path (\<^verbatim>\<open>src/api/access_api.cc\<close>): address resolution, metadata preparation
  and profiling, control-message processing, owner-aware reads, write metadata, flushing,
  and the public \<^verbatim>\<open>lm_read\<close> and \<^verbatim>\<open>lm_write\<close>. A vector of metadata pointers
  is the list of their table keys.
\<close>

section \<open>Block ranges\<close>

definition ResolveBlockRange :: "Process \<Rightarrow> GlobalAddr \<Rightarrow> u64 \<Rightarrow> BlockRange" where
  "ResolveBlockRange p addr size' =
     (let first_index = ga_offset addr div cfg_block_size (rc_config p);
          last_index = (ga_offset addr + size' - 1) div cfg_block_size (rc_config p)
      in \<lparr>br_first = \<lparr>bi_region_id = ga_region_id addr, bi_block_index = first_index\<rparr>,
          br_last = \<lparr>bi_region_id = ga_region_id addr, bi_block_index = last_index\<rparr>,
          br_count = last_index - first_index + 1\<rparr>)"

text \<open>The result is the status and, for \<^term>\<open>kOk\<close>, the range.\<close>

definition ValidateAndResolveRange :: "Process \<Rightarrow> GlobalAddr \<Rightarrow> u64 \<Rightarrow> Status + BlockRange" where
  "ValidateAndResolveRange p addr size' =
     (if size' = 0 \<or> cfg_block_size (rc_config p) = 0 then Inl kInvalidArg
      else if ga_home_node addr = cfg_node_id (rc_config p) then
        (case Allocator_ResolveBlockRange (rc_allocator p) addr size' of
           None \<Rightarrow> Inl kOutOfRange
         | Some brange \<Rightarrow> Inr brange)
      else Inr (ResolveBlockRange p addr size'))"

section \<open>Metadata preparation and profiling\<close>

definition prepare_block :: "Config \<Rightarrow> GlobalAddr \<Rightarrow> AccessType \<Rightarrow> BlockMeta \<Rightarrow> BlockMeta" where
  "prepare_block cfg addr type meta =
     (if ga_home_node addr = cfg_node_id cfg then
        let meta = meta\<lparr>bm_state := kHome, bm_owner_node := cfg_node_id cfg\<rparr>
        in if type = kWrite then meta\<lparr>bm_version := bm_version meta + 1\<rparr> else meta
      else
        let meta = (if bm_owner_node meta = kInvalidNodeId
                    then meta\<lparr>bm_owner_node := ga_home_node addr\<rparr> else meta)
        in if bm_state meta = kHome then meta\<lparr>bm_state := kShared\<rparr> else meta)"

definition prepare_step ::
    "GlobalAddr \<Rightarrow> AccessType \<Rightarrow> u64 \<Rightarrow> BlockId list \<times> Process \<Rightarrow> (BlockId list \<times> Process) option" where
  "prepare_step addr type index = (\<lambda>(metas, p).
     let bid = \<lparr>bi_region_id = ga_region_id addr, bi_block_index = index\<rparr>;
         table = GetOrCreate (rc_block_table p) bid;
         table = update_meta table bid (prepare_block (rc_config p) addr type)
     in Some (metas @ [bid], p\<lparr>rc_block_table := table\<rparr>))"

definition PrepareMetadata ::
    "Process \<Rightarrow> BlockRange \<Rightarrow> GlobalAddr \<Rightarrow> AccessType \<Rightarrow> (BlockId list \<times> Process) option" where
  "PrepareMetadata p brange addr type =
     for_incl (prepare_step addr type) (bi_block_index (br_first brange))
       (bi_block_index (br_last brange)) ([], p)"

fun ObserveMetas ::
    "Process \<Rightarrow> BlockId list \<Rightarrow> AccessType \<Rightarrow> bool \<Rightarrow> CoherenceMode list \<times> Process" where
  "ObserveMetas p [] type is_local = ([], p)"
| "ObserveMetas p (bid # metas) type is_local =
     (let mode_before = bm_mode (meta_at (rc_block_table p) bid);
          (mode_after, cm, meta) =
            ObserveAccess (rc_cache_manager p) (Some (meta_at (rc_block_table p) bid)) type is_local;
          p = p\<lparr>rc_cache_manager := cm,
                rc_block_table := update_meta (rc_block_table p) bid (\<lambda>_. the meta),
                rc_stats := RecordCoherenceMode mode_after (mode_before \<noteq> mode_after) (rc_stats p)\<rparr>;
          (modes, p) = ObserveMetas p metas type is_local
      in (mode_after # modes, p))"

fun update_metas :: "(BlockMeta \<Rightarrow> BlockMeta) \<Rightarrow> BlockId list \<Rightarrow> BlockTable \<Rightarrow> BlockTable" where
  "update_metas f [] table = table"
| "update_metas f (bid # metas) table = update_metas f metas (update_meta table bid f)"

definition ShouldAdmitCached :: "Process \<Rightarrow> BlockId list \<Rightarrow> bool \<times> Process" where
  "ShouldAdmitCached p metas =
     (if metas = [] then (False, p)
      else if \<not> list_all (\<lambda>bid. ShouldCache (cm_cfg (rc_cache_manager p))
                                  (Some (meta_at (rc_block_table p) bid))) metas
      then (False, p)
      else (True, p\<lparr>rc_block_table :=
                     update_metas (\<lambda>meta. meta\<lparr>bm_cache_admitted := True\<rparr>) metas (rc_block_table p)\<rparr>))"

definition HasMode :: "CoherenceMode list \<Rightarrow> CoherenceMode \<Rightarrow> bool" where
  "HasMode modes target = list_ex (\<lambda>mode. mode = target) modes"

definition MostAggressiveBatchThreshold :: "Config \<Rightarrow> CoherenceMode list \<Rightarrow> u64" where
  "MostAggressiveBatchThreshold cfg modes =
     fold (\<lambda>mode threshold. min threshold (EffectiveBatchThreshold cfg mode)) modes
       (EffectiveBatchThreshold cfg kSI)"

section \<open>Control messages\<close>

definition BlockRangeBaseAddr :: "Process \<Rightarrow> BlockRange \<Rightarrow> NodeId \<Rightarrow> GlobalAddr" where
  "BlockRangeBaseAddr p brange home_node =
     \<lparr>ga_home_node = home_node, ga_region_id = bi_region_id (br_first brange),
      ga_offset = bi_block_index (br_first brange) * cfg_block_size (rc_config p)\<rparr>"

definition BlockRangeSize :: "Process \<Rightarrow> BlockRange \<Rightarrow> u64" where
  "BlockRangeSize p brange = br_count brange * cfg_block_size (rc_config p)"

fun post_retries :: "Process \<Rightarrow> ControlMessage list \<Rightarrow> Status \<times> Process" where
  "post_retries p [] = (kOk, p)"
| "post_retries p (retry # retries) =
     (let (post, p) = Transport_PostControlMessage p retry
      in if post \<noteq> kOk \<and> post \<noteq> kUnimplemented then (post, p) else post_retries p retries)"

definition DrivePendingControlAcks :: "Process \<Rightarrow> Status \<times> Process" where
  "DrivePendingControlAcks p =
     (let (s, retries, p) = AdvanceControlAckTimeouts p True
      in if s \<noteq> kOk then (s, p) else post_retries p retries)"

text \<open>The acknowledgement both handlers send back.\<close>

definition ack_message :: "Process \<Rightarrow> ControlMessage \<Rightarrow> ControlMessage" where
  "ack_message p msg = msg\<lparr>cmsg_opcode := AckOpcodeFor (cmsg_opcode msg),
     cmsg_source_node := cfg_node_id (rc_config p), cmsg_target_node := cmsg_source_node msg\<rparr>"

definition block_loop ::
    "(BlockMeta \<Rightarrow> BlockMeta) \<Rightarrow> BlockId \<Rightarrow> BlockId \<Rightarrow> Process \<Rightarrow> Process option" where
  "block_loop f first_block last_block =
     for_incl
       (\<lambda>index p. let bid = \<lparr>bi_region_id = bi_region_id first_block, bi_block_index = index\<rparr>
                  in Some (p\<lparr>rc_block_table := update_meta (GetOrCreate (rc_block_table p) bid) bid f\<rparr>))
       (bi_block_index first_block) (bi_block_index last_block)"

fun process_messages :: "Process \<Rightarrow> ControlMessage list \<Rightarrow> (Status \<times> Process) option" where
  "process_messages p [] = Some (kOk, p)"
| "process_messages p (msg # messages) =
     (if IsAckOpcode (cmsg_opcode msg) then process_messages (CompleteControlAck p (cmsg_request_id msg)) messages
      else
        let brange = \<lparr>br_first = cmsg_first_block msg, br_last = cmsg_last_block msg,
                     br_count = bi_block_index (cmsg_last_block msg) - bi_block_index (cmsg_first_block msg) + 1\<rparr>;
            base = BlockRangeBaseAddr p brange (cmsg_source_node msg);
            span = BlockRangeSize p brange in
        if cmsg_opcode msg = kInvalidateRange then
          do { let p = p\<lparr>rc_cache_manager := snd (InvalidateRange (rc_cache_manager p) base span)\<rparr>;
               p \<leftarrow> block_loop (\<lambda>meta. meta\<lparr>bm_version := cmsg_version msg, bm_state := kInvalid,
                                            bm_mode := cmsg_mode msg\<rparr>)
                      (cmsg_first_block msg) (cmsg_last_block msg) p;
               let (ack_status, p) = Transport_PostControlMessage p (ack_message p msg);
               if ack_status \<noteq> kOk \<and> ack_status \<noteq> kUnimplemented then Some (ack_status, p)
               else process_messages p messages }
        else if cmsg_opcode msg = kOwnerTransfer then
          do { p \<leftarrow> block_loop (\<lambda>meta. meta\<lparr>bm_owner_node := cmsg_source_node msg,
                                            bm_version := cmsg_version msg, bm_mode := cmsg_mode msg,
                                            bm_state := kOwner\<rparr>)
                      (cmsg_first_block msg) (cmsg_last_block msg) p;
               let (ack_status, p) = Transport_PostControlMessage p (ack_message p msg);
               if ack_status \<noteq> kOk \<and> ack_status \<noteq> kUnimplemented then Some (ack_status, p)
               else process_messages p messages }
        else process_messages p messages)"

definition ProcessPendingControlMessages :: "Process \<Rightarrow> (Status \<times> Process) option" where
  "ProcessPendingControlMessages p =
     (let (s, messages, p) = Transport_DrainControlMessages p 64 True in
      if s \<noteq> kOk \<and> s \<noteq> kUnimplemented then Some (s, p)
      else
        do { (s, p) \<leftarrow> process_messages p messages;
             if s \<noteq> kOk then Some (s, p) else Some (DrivePendingControlAcks p) })"

definition MakeControlMessage ::
    "Process \<Rightarrow> GlobalAddr \<Rightarrow> BlockRange \<Rightarrow> CoherenceMode \<Rightarrow> ControlOpcode \<Rightarrow> Version \<Rightarrow>
     ControlMessage \<times> Process" where
  "MakeControlMessage p addr brange mode opcode version =
     (let (request_id, p) = NextControlRequestId p in
      (\<lparr>cmsg_opcode = opcode, cmsg_source_node = cfg_node_id (rc_config p),
        cmsg_target_node = ga_home_node addr, cmsg_request_id = request_id,
        cmsg_first_block = br_first brange, cmsg_last_block = br_last brange,
        cmsg_version = version, cmsg_mode = mode\<rparr>, p))"

section \<open>Owner-aware reads\<close>

definition DominantOwnerNode :: "BlockTable \<Rightarrow> BlockId list \<Rightarrow> NodeId \<Rightarrow> NodeId" where
  "DominantOwnerNode table metas fallback =
     (case metas of
        [] \<Rightarrow> fallback
      | front # rest \<Rightarrow>
          let owner = bm_owner_node (meta_at table front) in
          if owner = kInvalidNodeId then fallback
          else if list_ex (\<lambda>bid. bm_owner_node (meta_at table bid) \<noteq> owner) rest then fallback
          else owner)"

definition MaxObservedVersion :: "BlockTable \<Rightarrow> BlockId list \<Rightarrow> Version" where
  "MaxObservedVersion table metas = fold (\<lambda>bid version. max version (bm_version (meta_at table bid))) metas 0"

definition AllMetasValidated :: "BlockTable \<Rightarrow> BlockId list \<Rightarrow> bool" where
  "AllMetasValidated table metas =
     list_all (\<lambda>bid. \<not> bm_last_validated_version (meta_at table bid) < bm_version (meta_at table bid)) metas"

definition MarkReadValidated :: "BlockId list \<Rightarrow> BlockTable \<Rightarrow> BlockTable" where
  "MarkReadValidated metas table =
     update_metas (\<lambda>meta. meta\<lparr>bm_last_validated_version := bm_version meta\<rparr>) metas table"

text \<open>The status, the bytes read, the redirection flag and the new state.\<close>

definition TryOwnerAwareRead ::
    "Process \<Rightarrow> GlobalAddr \<Rightarrow> u64 \<Rightarrow> BlockId list \<Rightarrow> (Status \<times> byte list \<times> bool \<times> Process) option" where
  "TryOwnerAwareRead p addr size' metas =
     (let owner = DominantOwnerNode (rc_block_table p) metas (ga_home_node addr);
          validated = AllMetasValidated (rc_block_table p) metas in
      if owner = cfg_node_id (rc_config p) then
        do { (hit, cm) \<leftarrow> (if validated then TryReadCached (rc_cache_manager p) addr True size'
                           else Some (None, rc_cache_manager p));
             let p = p\<lparr>rc_cache_manager := cm\<rparr>;
             case hit of
               Some bytes \<Rightarrow> Some (kOk, bytes, True, p)
             | None \<Rightarrow>
                 do { (home_status, bytes, p) \<leftarrow> Transport_Read p addr size';
                      if home_status = kOk
                      then Some (kOk, bytes, False, p\<lparr>rc_block_table := MarkReadValidated metas (rc_block_table p)\<rparr>)
                      else Some (home_status, bytes, False, p) } }
      else
        do { (owner_result, p) \<leftarrow>
               (if validated \<and> owner \<noteq> kInvalidNodeId \<and> owner \<noteq> ga_home_node addr then
                  do { (owner_status, bytes, p) \<leftarrow> Transport_Read p (addr\<lparr>ga_home_node := owner\<rparr>) size';
                       if owner_status = kOk
                       then Some (Some bytes, p\<lparr>rc_block_table := MarkReadValidated metas (rc_block_table p)\<rparr>)
                       else Some (None, p) }
                else Some (None, p));
             case owner_result of
               Some bytes \<Rightarrow> Some (kOk, bytes, True, p)
             | None \<Rightarrow>
                 do { (home_status, bytes, p) \<leftarrow> Transport_Read p addr size';
                      if home_status = kOk
                      then Some (kOk, bytes, False,
                             p\<lparr>rc_block_table :=
                                 update_metas
                                   (\<lambda>meta. if bm_state meta = kInvalid
                                           then meta\<lparr>bm_state := kShared, bm_owner_node := ga_home_node addr\<rparr>
                                           else meta)
                                   metas (MarkReadValidated metas (rc_block_table p))\<rparr>)
                      else Some (home_status, bytes, False, p) } })"

section \<open>Write metadata and flushing\<close>

text \<open>One iteration of \<^verbatim>\<open>ApplyWriteMetadata\<close>: the new metadata, whether the owner changed hands.\<close>

definition apply_write_block :: "Config \<Rightarrow> GlobalAddr \<Rightarrow> CoherenceMode \<Rightarrow> BlockMeta \<Rightarrow> BlockMeta" where
  "apply_write_block cfg addr mode meta =
     (let meta = meta\<lparr>bm_version := bm_version meta + 1\<rparr> in
      if mode = kWI then meta\<lparr>bm_owner_node := ga_home_node addr, bm_state := kShared\<rparr>
      else if mode = kAdaptive then
        meta\<lparr>bm_owner_node := cfg_node_id cfg, bm_owner_epoch := bm_owner_epoch meta + 1, bm_state := kOwner\<rparr>
      else meta\<lparr>bm_state := kShared\<rparr>)"

fun ApplyWriteMetadata ::
    "Config \<Rightarrow> GlobalAddr \<Rightarrow> BlockId list \<Rightarrow> CoherenceMode list \<Rightarrow> bool \<times> bool \<times> BlockTable \<Rightarrow>
     bool \<times> bool \<times> BlockTable" where
  "ApplyWriteMetadata cfg addr (bid # metas) (mode # modes) (owner_biased, owner_handoff, table) =
     ApplyWriteMetadata cfg addr metas modes
       (if mode = kAdaptive
        then (True, owner_handoff \<or> bm_owner_node (meta_at table bid) \<noteq> cfg_node_id cfg,
              update_meta table bid (apply_write_block cfg addr mode))
        else (owner_biased, owner_handoff, update_meta table bid (apply_write_block cfg addr mode)))"
| "ApplyWriteMetadata cfg addr metas modes acc = acc"

definition request_of :: "PendingRemoteWrite \<Rightarrow> RemoteWriteRequest" where
  "request_of pending = \<lparr>rr_addr = pw_addr pending, rr_buf = pw_payload pending,
     rr_size = payload_size pending, rr_mode = pw_mode pending,
     rr_owner_biased = pw_owner_biased pending, rr_owner_handoff = pw_owner_handoff pending\<rparr>"

definition count_flushed_write :: "PendingRemoteWrite \<Rightarrow> StatsCollector \<Rightarrow> StatsCollector" where
  "count_flushed_write pending s =
     (let s = (if pw_owner_biased pending then IncOwnerBiasedWrite s else s)
      in if pw_owner_handoff pending then IncOwnerHandoff s else s)"

definition FlushDestination :: "Process \<Rightarrow> NodeId \<Rightarrow> (Status \<times> Process) option" where
  "FlushDestination p node =
     (let (batch, cm) = DrainRemoteWrites (rc_cache_manager p) node;
          p = p\<lparr>rc_cache_manager := cm\<rparr>;
          requests = map request_of (db_writes batch) in
      do { (s, p) \<leftarrow> (if requests \<noteq> [] then Transport_BatchWrite p requests else Some (kOk, p));
           if s \<noteq> kOk then Some (s, p)
           else
             let p = update_stats (fold count_flushed_write (db_writes batch)) p;
                 p = (if db_writes batch \<noteq> []
                      then update_stats (AddFlushedRemoteBatch (of_nat (length (db_writes batch)))
                                           (db_total_bytes batch)) p
                      else p)
             in Some (kOk, p) })"

section \<open>lm_read\<close>

text \<open>The admission of the bytes of a remote read to the cache.\<close>

definition admit_read ::
    "Process \<Rightarrow> GlobalAddr \<Rightarrow> byte list \<Rightarrow> u64 \<Rightarrow> BlockId list \<Rightarrow> CoherenceMode list \<Rightarrow> Process option" where
  "admit_read p addr bytes size' metas modes =
     (let (admitted, p) = (if \<not> HasMode modes kWI then ShouldAdmitCached p metas else (False, p));
          p = update_stats (IncCacheAdmission admitted) p
      in if admitted
         then do { cm \<leftarrow> InsertCached (rc_cache_manager p) addr (Some bytes) size';
                   Some (p\<lparr>rc_cache_manager := cm\<rparr>) }
         else Some p)"

text \<open>\<^verbatim>\<open>lm_read\<close> from the cache miss (or the local access) on.\<close>

definition read_miss ::
    "Process \<Rightarrow> GlobalAddr \<Rightarrow> u64 \<Rightarrow> BlockId list \<Rightarrow> CoherenceMode list \<Rightarrow> bool \<Rightarrow>
     (Status \<times> byte list \<times> Process) option" where
  "read_miss p addr size' metas modes is_local = do {
     let p = (if \<not> is_local
              then (update_stats IncCacheMiss p)\<lparr>rc_block_table :=
                     update_metas (\<lambda>meta. meta\<lparr>bm_remote_miss_count := bm_remote_miss_count meta + 1\<rparr>)
                       metas (rc_block_table p)\<rparr>
              else p);
     (s, bytes, redirected_to_owner, p) \<leftarrow>
       (if is_local then do { (s, bytes, p) \<leftarrow> Transport_Read p addr size'; Some (s, bytes, False, p) }
        else TryOwnerAwareRead p addr size' metas);
     if s \<noteq> kOk then Some (s, bytes, p)
     else do {
       let p = (if \<not> is_local \<and> redirected_to_owner
                then let owner_version = MaxObservedVersion (rc_block_table p) metas
                     in p\<lparr>rc_block_table :=
                            update_metas (\<lambda>meta. meta\<lparr>bm_state := kOwner, bm_version := owner_version\<rparr>)
                              metas (rc_block_table p)\<rparr>
                else p);
       p \<leftarrow> (if \<not> is_local then admit_read p addr bytes size' metas modes else Some p);
       Some (kOk, bytes, update_stats (IncRead is_local) p) } }"

text \<open>\<^verbatim>\<open>lm_read\<close> after the argument checks and the control messages.\<close>

definition checked_read :: "Process \<Rightarrow> GlobalAddr \<Rightarrow> u64 \<Rightarrow> (Status \<times> byte list \<times> Process) option" where
  "checked_read p addr size' =
     (let is_local = (ga_home_node addr = cfg_node_id (rc_config p)) in
      case ValidateAndResolveRange p addr size' of
        Inl meta_status \<Rightarrow> Some (meta_status, [], p)
      | Inr brange \<Rightarrow> do {
          (metas, p) \<leftarrow> PrepareMetadata p brange addr kRead;
          let (modes, p) = ObserveMetas p metas kRead is_local;
          (hit, cm) \<leftarrow> (if \<not> is_local then TryReadCached (rc_cache_manager p) addr True size'
                         else Some (None, rc_cache_manager p));
          let p = p\<lparr>rc_cache_manager := cm\<rparr>;
          case hit of
            Some bytes \<Rightarrow> Some (kOk, bytes, update_stats (IncRead False \<circ> IncCacheHit) p)
          | None \<Rightarrow> read_miss p addr size' metas modes is_local })"

definition lm_read :: "Process \<Rightarrow> GlobalAddr \<Rightarrow> bool \<Rightarrow> u64 \<Rightarrow> (Status \<times> byte list \<times> Process) option" where
  "lm_read p addr buf_ok size' =
     (if \<not> rc_initialized p then Some (kNotInitialized, [], p)
      else if \<not> IsValid addr \<or> \<not> buf_ok \<or> size' = 0 then Some (kInvalidArg, [], p)
      else do {
        (ctrl, p) \<leftarrow> ProcessPendingControlMessages p;
        if ctrl \<noteq> kOk then Some (ctrl, [], p) else checked_read p addr size' })"

section \<open>lm_write\<close>

text \<open>Posting one control message and tracking its acknowledgement, as \<^verbatim>\<open>lm_write\<close> does twice.\<close>

definition post_tracked ::
    "Process \<Rightarrow> GlobalAddr \<Rightarrow> BlockRange \<Rightarrow> CoherenceMode \<Rightarrow> ControlOpcode \<Rightarrow> Version \<Rightarrow> Status \<times> Process" where
  "post_tracked p addr brange mode opcode version =
     (let (msg, p) = MakeControlMessage p addr brange mode opcode version;
          (ctrl, p) = Transport_PostControlMessage p msg in
      if ctrl \<noteq> kOk \<and> ctrl \<noteq> kUnimplemented then (ctrl, p)
      else if ctrl = kOk then (kOk, TrackPendingControlAck p msg)
      else (kOk, p))"

text \<open>The control messages of a remote write: a range invalidation, an owner transfer.\<close>

definition announce_write ::
    "Process \<Rightarrow> GlobalAddr \<Rightarrow> BlockRange \<Rightarrow> bool \<Rightarrow> bool \<Rightarrow> Version \<Rightarrow> Status \<times> Process" where
  "announce_write p addr brange range_invalidation owner_handoff max_version =
     (let (ctrl, p) = (if range_invalidation
                       then post_tracked p addr brange kWI kInvalidateRange max_version else (kOk, p)) in
      if ctrl \<noteq> kOk then (ctrl, p)
      else if owner_handoff then post_tracked p addr brange kAdaptive kOwnerTransfer max_version
      else (kOk, p))"

text \<open>What follows queueing a write: the owner's copy, and the flush of the destination.\<close>

definition after_queueing ::
    "Process \<Rightarrow> GlobalAddr \<Rightarrow> byte list \<Rightarrow> u64 \<Rightarrow> CoherenceMode list \<Rightarrow> bool \<Rightarrow> (Status \<times> Process) option" where
  "after_queueing p addr src size' modes owner_biased = do {
     cm \<leftarrow> (if owner_biased then InsertCached (rc_cache_manager p) addr (Some src) size'
             else Some (rc_cache_manager p));
     let p = p\<lparr>rc_cache_manager := cm\<rparr>;
     let threshold = MostAggressiveBatchThreshold (cm_cfg (rc_cache_manager p)) modes;
     (flush_status, p) \<leftarrow>
       (if HasMode modes kWI \<or>
           ShouldFlushDestination (rc_cache_manager p) (ga_home_node addr) threshold
        then FlushDestination p (ga_home_node addr) else Some (kOk, p));
     if flush_status \<noteq> kOk then Some (flush_status, p)
     else Some (kOk, update_stats (IncWrite False) p) }"

text \<open>The delivery of a remote write: at once, or through the queue of its destination.\<close>

definition deliver_write ::
    "Process \<Rightarrow> GlobalAddr \<Rightarrow> byte list \<Rightarrow> u64 \<Rightarrow> CoherenceMode list \<Rightarrow> bool \<Rightarrow> bool \<Rightarrow>
     (Status \<times> Process) option" where
  "deliver_write p addr src size' modes owner_biased owner_handoff =
     (if \<not> cfg_enable_write_batching (rc_config p) then
        do { (s, p) \<leftarrow> Transport_Write p addr src size';
             Some (s, if s = kOk then update_stats (IncWrite False) p else p) }
      else do {
        let dominant_mode = (if HasMode modes kWI then kWI
                             else if HasMode modes kAdaptive then kAdaptive else kSI);
        (merged, cm) \<leftarrow> QueueRemoteWrite (rc_cache_manager p) addr (Some src) size'
                           dominant_mode owner_biased owner_handoff;
        let p = update_stats IncQueuedRemoteWrite (p\<lparr>rc_cache_manager := cm\<rparr>);
        let p = (if merged then update_stats IncMergedRemoteWrite p else p);
        after_queueing p addr src size' modes owner_biased })"

text \<open>The remote half of \<^verbatim>\<open>lm_write\<close>, from the metadata update to the end.\<close>

definition remote_write ::
    "Process \<Rightarrow> GlobalAddr \<Rightarrow> byte list \<Rightarrow> u64 \<Rightarrow> BlockRange \<Rightarrow> BlockId list \<Rightarrow> CoherenceMode list \<Rightarrow>
     (Status \<times> Process) option" where
  "remote_write p addr src size' brange metas modes =
     (let (owner_biased, owner_handoff, table) =
            ApplyWriteMetadata (rc_config p) addr metas modes (False, False, rc_block_table p);
          p = p\<lparr>rc_block_table := table\<rparr>;
          max_version = MaxObservedVersion (rc_block_table p) metas;
          range_invalidation = HasMode modes kWI;
          (ctrl, p) = announce_write p addr brange range_invalidation owner_handoff max_version in
      if ctrl \<noteq> kOk then Some (ctrl, p)
      else
        let (invalidated, cm) = (if range_invalidation
                                 then InvalidateRange (rc_cache_manager p) addr size'
                                 else Invalidate (rc_cache_manager p) addr size');
            p = p\<lparr>rc_cache_manager := cm\<rparr>;
            p = update_stats (AddCacheInvalidations range_invalidation invalidated) p
        in deliver_write p addr src size' modes owner_biased owner_handoff)"

text \<open>\<^verbatim>\<open>lm_write\<close> after the argument checks and the control messages.\<close>

definition checked_write :: "Process \<Rightarrow> GlobalAddr \<Rightarrow> byte list \<Rightarrow> u64 \<Rightarrow> (Status \<times> Process) option" where
  "checked_write p addr src size' =
     (let is_local = (ga_home_node addr = cfg_node_id (rc_config p)) in
      case ValidateAndResolveRange p addr size' of
        Inl meta_status \<Rightarrow> Some (meta_status, p)
      | Inr brange \<Rightarrow> do {
          (metas, p) \<leftarrow> PrepareMetadata p brange addr kWrite;
          let (modes, p) = ObserveMetas p metas kWrite is_local;
          if \<not> is_local then remote_write p addr src size' brange metas modes
          else do {
            (s, p) \<leftarrow> Transport_Write p addr src size';
            Some (s, if s = kOk then update_stats (IncWrite is_local) p else p) } })"

definition lm_write :: "Process \<Rightarrow> GlobalAddr \<Rightarrow> byte list option \<Rightarrow> u64 \<Rightarrow> (Status \<times> Process) option" where
  "lm_write p addr buf size' =
     (if \<not> rc_initialized p then Some (kNotInitialized, p)
      else case buf of
        None \<Rightarrow> Some (kInvalidArg, p)
      | Some src \<Rightarrow>
          if \<not> IsValid addr \<or> size' = 0 then Some (kInvalidArg, p)
          else do {
            (ctrl, p) \<leftarrow> ProcessPendingControlMessages p;
            if ctrl \<noteq> kOk then Some (ctrl, p) else checked_write p addr src size' })"

end
