(* ===== verification/Sync_Api.thy ===== *)
theory Sync_Api
  imports Access_Api
begin

text \<open>
  Synchronisation and administration: \<^verbatim>\<open>src/api/sync_api.cc\<close> (the control drain of
  the fence, \<^verbatim>\<open>lm_fence\<close>, \<^verbatim>\<open>lm_barrier\<close>), \<^verbatim>\<open>src/api/alloc_api.cc\<close>
  (\<^verbatim>\<open>lm_malloc\<close>, \<^verbatim>\<open>lm_free\<close>), \<^verbatim>\<open>src/api/admin_api.cc\<close> and
  \<^verbatim>\<open>src/runtime/init.cc\<close> (\<^verbatim>\<open>lm_shutdown\<close>, \<^verbatim>\<open>lm_get_stats\<close>,
  \<^verbatim>\<open>StatusToString\<close>).
\<close>

section \<open>sync\_api.cc\<close>

fun drain_messages :: "Process \<Rightarrow> ControlMessage list \<Rightarrow> (Status \<times> Process) option" where
  "drain_messages p [] = Some (kOk, p)"
| "drain_messages p (msg # messages) =
     (if IsAckOpcode (cmsg_opcode msg) then drain_messages (CompleteControlAck p (cmsg_request_id msg)) messages
      else do {
        p \<leftarrow>
          (if cmsg_opcode msg = kInvalidateRange then
             let addr = \<lparr>ga_home_node = cmsg_source_node msg,
                         ga_region_id = bi_region_id (cmsg_first_block msg),
                         ga_offset = bi_block_index (cmsg_first_block msg) * cfg_block_size (rc_config p)\<rparr>;
                 span = (bi_block_index (cmsg_last_block msg) - bi_block_index (cmsg_first_block msg) + 1) *
                        cfg_block_size (rc_config p)
             in Some (p\<lparr>rc_cache_manager := snd (InvalidateRange (rc_cache_manager p) addr span)\<rparr>)
           else
             block_loop (\<lambda>meta. meta\<lparr>bm_owner_node := cmsg_source_node msg,
                                      bm_version := cmsg_version msg, bm_mode := cmsg_mode msg\<rparr>)
               (cmsg_first_block msg) (cmsg_last_block msg) p);
        let (ack_status, p) = Transport_PostControlMessage p (ack_message p msg);
        if ack_status \<noteq> kOk \<and> ack_status \<noteq> kUnimplemented then Some (ack_status, p)
        else drain_messages p messages })"

definition DrainControl :: "Process \<Rightarrow> (Status \<times> Process) option" where
  "DrainControl p =
     (let (s, messages, p) = Transport_DrainControlMessages p 64 True in
      if s \<noteq> kOk \<and> s \<noteq> kUnimplemented then Some (s, p)
      else do {
        (s, p) \<leftarrow> drain_messages p messages;
        if s \<noteq> kOk then Some (s, p)
        else
          let (retry_status, retries, p) = AdvanceControlAckTimeouts p True
          in if retry_status \<noteq> kOk then Some (retry_status, p) else Some (post_retries p retries) })"

text \<open>
  The loop of \<^verbatim>\<open>lm_fence\<close> over the pending destinations; its body repeats
  \<^verbatim>\<open>FlushDestination\<close>.
\<close>

fun flush_all :: "Process \<Rightarrow> NodeId list \<Rightarrow> (Status \<times> Process) option" where
  "flush_all p [] = Some (kOk, p)"
| "flush_all p (node # nodes) =
     do { (s, p) \<leftarrow> FlushDestination p node;
          if s \<noteq> kOk then Some (s, p) else flush_all p nodes }"

definition lm_fence :: "Process \<Rightarrow> (Status \<times> Process) option" where
  "lm_fence p =
     (if \<not> rc_initialized p then Some (kNotInitialized, p)
      else do {
        (ctrl, p) \<leftarrow> DrainControl p;
        if ctrl \<noteq> kOk then Some (ctrl, p)
        else do {
          (s, p) \<leftarrow> flush_all p (PendingDestinations (rc_cache_manager p));
          if s \<noteq> kOk then Some (s, p)
          else
            let fence_status = Transport_Fence p
            in if fence_status \<noteq> kOk then Some (fence_status, p) else DrainControl p } })"

definition lm_barrier :: "Process \<Rightarrow> Status" where
  "lm_barrier p = (if \<not> rc_initialized p then kNotInitialized else kOk)"

section \<open>alloc\_api.cc\<close>

definition lm_malloc :: "Process \<Rightarrow> u64 \<Rightarrow> (GlobalAddr \<times> Process) option" where
  "lm_malloc p size' =
     (if \<not> rc_initialized p then Some (InvalidGlobalAddr, p)
      else
        let (addr, a) = Allocate (rc_allocator p) size';
            p = p\<lparr>rc_allocator := a\<rparr> in
        if IsValid addr then
          (case Allocator_ResolveBlockRange (rc_allocator p) addr size' of
             None \<Rightarrow> Some (InvalidGlobalAddr, p)
           | Some brange \<Rightarrow> do {
               p \<leftarrow> for_incl
                 (\<lambda>index p. let bid = \<lparr>bi_region_id = ga_region_id addr, bi_block_index = index\<rparr>
                            in Some (p\<lparr>rc_block_table :=
                                  update_meta (GetOrCreate (rc_block_table p) bid) bid
                                    (\<lambda>meta. meta\<lparr>bm_state := kHome,
                                                 bm_owner_node := cfg_node_id (rc_config p)\<rparr>)\<rparr>))
                 (bi_block_index (br_first brange)) (bi_block_index (br_last brange)) p;
               Some (addr, update_stats IncAlloc p) })
        else Some (addr, p))"

definition lm_free :: "Process \<Rightarrow> GlobalAddr \<Rightarrow> Status" where
  "lm_free p addr = (if \<not> rc_initialized p then kNotInitialized else Free (rc_allocator p) addr)"

section \<open>admin\_api.cc, init.cc\<close>

definition RuntimeShutdown :: "Process \<Rightarrow> Status \<times> Process" where
  "RuntimeShutdown p = RuntimeContext_Shutdown p"

definition lm_shutdown :: "Process \<Rightarrow> Status \<times> Process" where
  "lm_shutdown p = RuntimeShutdown p"

definition lm_get_stats :: "Process \<Rightarrow> StatsSnapshot" where
  "lm_get_stats p =
     (if \<not> rc_initialized p then empty_snapshot
      else
        let snapshot = Snapshot (rc_stats p) in
        if rc_components_set p then
          let cache_stats = GetCacheStats (rc_cache_manager p)
          in snapshot\<lparr>ss_cache_evictions := cs_evictions cache_stats,
                      ss_cache_resident_entries := cs_resident_entries cache_stats,
                      ss_cache_resident_bytes := cs_resident_bytes cache_stats\<rparr>
        else snapshot)"

definition StatusToString :: "Status \<Rightarrow> string" where
  "StatusToString s =
     (case s of
        kOk \<Rightarrow> ''OK''
      | kInvalidArg \<Rightarrow> ''InvalidArg''
      | kNotInitialized \<Rightarrow> ''NotInitialized''
      | kAlreadyInitialized \<Rightarrow> ''AlreadyInitialized''
      | kNoMemory \<Rightarrow> ''NoMemory''
      | kNotFound \<Rightarrow> ''NotFound''
      | kOutOfRange \<Rightarrow> ''OutOfRange''
      | kTimedOut \<Rightarrow> ''TimedOut''
      | kUnimplemented \<Rightarrow> ''Unimplemented''
      | kInternalError \<Rightarrow> ''InternalError'')"

end
