(* ===== verification/Control_Path.thy ===== *)
theory Control_Path
  imports Sync_Api
begin

text \<open>
  The control path of a running process on the stub transport. The stub answers every message to
  another node at once with an acknowledgement in the sender's own inbox, so at the start of a
  call the inbox holds exactly what the process waits for: both message loops
  (\<^verbatim>\<open>ProcessPendingControlMessages\<close> of \<^verbatim>\<open>access_api.cc\<close>,
  \<^verbatim>\<open>DrainControl\<close> of \<^verbatim>\<open>sync_api.cc\<close>) settle it completely and nothing times
  out.
\<close>

section \<open>Message loops on acknowledgements\<close>

definition complete_acks :: "ControlMessage list \<Rightarrow> Process \<Rightarrow> Process" where
  "complete_acks msgs p = fold (\<lambda>m p. CompleteControlAck p (cmsg_request_id m)) msgs p"

lemma process_messages_acks:
  "list_all (\<lambda>m. IsAckOpcode (cmsg_opcode m)) msgs \<Longrightarrow> process_messages p msgs = Some (kOk, complete_acks msgs p)"
  by (induction msgs arbitrary: p) (auto simp: complete_acks_def)

lemma drain_messages_acks:
  "list_all (\<lambda>m. IsAckOpcode (cmsg_opcode m)) msgs \<Longrightarrow> drain_messages p msgs = Some (kOk, complete_acks msgs p)"
  by (induction msgs arbitrary: p) (auto simp: complete_acks_def)

lemma complete_acks_pending:
  "complete_acks msgs p = p\<lparr>rc_pending_control_acks :=
     filter (\<lambda>e. fst e = 0 \<or> fst e \<notin> cmsg_request_id ` set msgs) (rc_pending_control_acks p)\<rparr>"
proof (induction msgs arbitrary: p)
  case Nil
  then show ?case by (simp add: complete_acks_def)
next
  case (Cons m msgs)
  have step: "rc_pending_control_acks (CompleteControlAck p (cmsg_request_id m)) =
      filter (\<lambda>e. fst e = 0 \<or> fst e \<noteq> cmsg_request_id m) (rc_pending_control_acks p)"
    by (auto simp: CompleteControlAck_def AList.delete_eq split_beta' intro!: filter_cong_set)
  have "complete_acks (m # msgs) p = complete_acks msgs (CompleteControlAck p (cmsg_request_id m))"
    by (simp add: complete_acks_def)
  also have "\<dots> = p\<lparr>rc_pending_control_acks :=
      filter (\<lambda>e. fst e = 0 \<or> fst e \<notin> cmsg_request_id ` set (m # msgs)) (rc_pending_control_acks p)\<rparr>"
    unfolding Cons.IH step filter_filter
    by (rule Process.equality)
       (auto simp: CompleteControlAck_def intro!: filter_cong_set)
  finally show ?case .
qed

text \<open>The state both loops leave: an empty inbox and nothing pending.\<close>

definition settled :: "Process \<Rightarrow> Process" where
  "settled p = p\<lparr>g_control_inboxes := (g_control_inboxes p)(cfg_node_id (rc_config p) := []),
                 rc_pending_control_acks := []\<rparr>"

lemma drain_inbox:
  assumes "stub_inv p" "control_inv p"
  shows "Transport_DrainControlMessages p 64 True =
    (kOk, g_control_inboxes p (cfg_node_id (rc_config p)),
     p\<lparr>g_control_inboxes := (g_control_inboxes p)(cfg_node_id (rc_config p) := [])\<rparr>)"
proof -
  have "length (g_control_inboxes p (cfg_node_id (rc_config p))) \<le> 64"
    using assms(2) by (auto simp: control_inv_def intro: order_trans [of _ 2])
  with assms(1) show ?thesis
    by (auto simp: Transport_DrainControlMessages_def Stub_DrainControlMessages_def elim: stub_inv_stub)
qed

lemma complete_inbox:
  assumes "control_inv p"
  shows "complete_acks (g_control_inboxes p (cfg_node_id (rc_config p)))
      (p\<lparr>g_control_inboxes := (g_control_inboxes p)(cfg_node_id (rc_config p) := [])\<rparr>) = settled p"
proof -
  have "filter (\<lambda>e. fst e = 0 \<or> fst e \<notin> cmsg_request_id ` set (g_control_inboxes p (cfg_node_id (rc_config p))))
      (rc_pending_control_acks p) = []"
    using assms by (auto simp: control_inv_def filter_empty_conv)
  then show ?thesis by (simp add: complete_acks_pending settled_def)
qed

lemma Advance_nothing: "rc_pending_control_acks p = [] \<Longrightarrow> AdvanceControlAckTimeouts p True = (kOk, [], p)"
  by (simp add: AdvanceControlAckTimeouts_def)

lemma settled_pending [simp]: "rc_pending_control_acks (settled p) = []"
  by (simp add: settled_def)

lemma ProcessPending_settles:
  assumes "stub_inv p" "control_inv p"
  shows "ProcessPendingControlMessages p = Some (kOk, settled p)"
proof -
  have acks: "list_all (\<lambda>m. IsAckOpcode (cmsg_opcode m)) (g_control_inboxes p (cfg_node_id (rc_config p)))"
    using assms(2) by (simp add: control_inv_def)
  show ?thesis
    by (simp add: ProcessPendingControlMessages_def drain_inbox [OF assms] process_messages_acks [OF acks]
          complete_inbox [OF assms(2)] DrivePendingControlAcks_def Advance_nothing)
qed

lemma DrainControl_settles:
  assumes "stub_inv p" "control_inv p"
  shows "DrainControl p = Some (kOk, settled p)"
proof -
  have acks: "list_all (\<lambda>m. IsAckOpcode (cmsg_opcode m)) (g_control_inboxes p (cfg_node_id (rc_config p)))"
    using assms(2) by (simp add: control_inv_def)
  show ?thesis
    by (simp add: DrainControl_def drain_inbox [OF assms] drain_messages_acks [OF acks]
          complete_inbox [OF assms(2)] Advance_nothing)
qed

lemma settled_sel [simp]:
  "rc_initialized (settled p) = rc_initialized p" "rc_config (settled p) = rc_config p"
  "rc_components_set (settled p) = rc_components_set p" "rc_transport (settled p) = rc_transport p"
  "rc_allocator (settled p) = rc_allocator p" "rc_cache_manager (settled p) = rc_cache_manager p"
  "rc_block_table (settled p) = rc_block_table p" "rc_stats (settled p) = rc_stats p"
  "g_control_inboxes (settled p) (cfg_node_id (rc_config p)) = []"
  by (simp_all add: settled_def)

section \<open>Posting a message\<close>

text \<open>
  A running process with at most \<open>k\<close> acknowledgements in its own inbox; the other inboxes hold
  what earlier runs left.
\<close>

definition control_upto :: "nat \<Rightarrow> Process \<Rightarrow> bool" where
  "control_upto k p \<longleftrightarrow> control_inv p \<and> length (g_control_inboxes p (cfg_node_id (rc_config p))) \<le> k"

lemma control_upto_settled: "control_inv p \<Longrightarrow> control_upto 0 (settled p)"
  by (auto simp: control_upto_def control_inv_def settled_def)

lemma control_upto_mono: "control_upto k p \<Longrightarrow> k \<le> m \<Longrightarrow> control_upto m p"
  by (simp add: control_upto_def)

text \<open>Control state, and nothing else, is what posting a message changes.\<close>

definition control_update :: "Process \<Rightarrow> Process \<Rightarrow> bool" where
  "control_update p p' \<longleftrightarrow> (\<exists>i a r. p' = p\<lparr>g_control_inboxes := i, rc_pending_control_acks := a,
                                            rc_next_control_request_id := r\<rparr>)"

lemma control_update_refl: "control_update p p"
  unfolding control_update_def
  by (rule exI [of _ "g_control_inboxes p"], rule exI [of _ "rc_pending_control_acks p"],
      rule exI [of _ "rc_next_control_request_id p"]) simp

lemma control_update_trans: "control_update p q \<Longrightarrow> control_update q r \<Longrightarrow> control_update p r"
  unfolding control_update_def by (elim exE, hypsubst) (rule exI, rule exI, rule exI, simp)

text \<open>The message \<^verbatim>\<open>lm_write\<close> posts, and the acknowledgement the stub puts in the inbox.\<close>

definition posted :: "Process \<Rightarrow> GlobalAddr \<Rightarrow> BlockRange \<Rightarrow> CoherenceMode \<Rightarrow> ControlOpcode \<Rightarrow> Version \<Rightarrow> ControlMessage" where
  "posted p addr brange mode opcode version = fst (MakeControlMessage p addr brange mode opcode version)"

definition stub_ack :: "ControlMessage \<Rightarrow> ControlMessage" where
  "stub_ack msg = msg\<lparr>cmsg_opcode := AckOpcodeFor (cmsg_opcode msg), cmsg_source_node := cmsg_target_node msg,
                      cmsg_target_node := cmsg_source_node msg\<rparr>"

lemma post_tracked_shape:
  fixes brange mode version
  assumes "stub_inv p" "ga_home_node addr \<noteq> cfg_node_id (rc_config p)" "\<not> IsAckOpcode opcode"
  defines "msg \<equiv> posted p addr brange mode opcode version" and "self \<equiv> cfg_node_id (rc_config p)"
  shows "post_tracked p addr brange mode opcode version =
    (kOk, p\<lparr>rc_next_control_request_id := rc_next_control_request_id p + 1,
            g_control_inboxes := (g_control_inboxes p)(self := g_control_inboxes p self @ [stub_ack msg]),
            rc_pending_control_acks := rc_pending_control_acks (TrackPendingControlAck p msg)\<rparr>)"
proof -
  obtain t where t: "rc_transport p = StubT t" "st_cfg t = rc_config p"
    by (rule stub_inv_stub [OF assms(1)]) blast
  have "Transport_PostControlMessage (snd (MakeControlMessage p addr brange mode opcode version)) msg =
      (kOk, p\<lparr>rc_next_control_request_id := rc_next_control_request_id p + 1,
              g_control_inboxes := (g_control_inboxes p)(self := g_control_inboxes p self @ [stub_ack msg])\<rparr>)"
    using t assms(2,3)
    by (simp add: Transport_PostControlMessage_def Stub_PostControlMessage_def MakeControlMessage_def
          NextControlRequestId_def posted_def msg_def self_def post_inbox_def stub_ack_def Let_def)
  then show ?thesis
    by (simp add: post_tracked_def split_beta posted_def msg_def TrackPendingControlAck_def Let_def)
qed

lemma Track_pending_ids:
  "fst ` set (rc_pending_control_acks (TrackPendingControlAck p msg)) =
   fst ` set (rc_pending_control_acks p) \<union> (if cmsg_request_id msg = 0 then {} else {cmsg_request_id msg})"
  by (auto simp: TrackPendingControlAck_def dom_update)

lemma post_tracked_ok:
  assumes "stub_inv p" "control_upto k p" "k < 2" "ga_home_node addr \<noteq> cfg_node_id (rc_config p)"
    and "\<not> IsAckOpcode opcode"
  shows "\<exists>p'. post_tracked p addr brange mode opcode version = (kOk, p') \<and> control_upto (Suc k) p' \<and> control_update p p'"
proof -
  let ?msg = "posted p addr brange mode opcode version" and ?self = "cfg_node_id (rc_config p)"
  let ?p' = "p\<lparr>rc_next_control_request_id := rc_next_control_request_id p + 1,
      g_control_inboxes := (g_control_inboxes p)(?self := g_control_inboxes p ?self @ [stub_ack ?msg]),
      rc_pending_control_acks := rc_pending_control_acks (TrackPendingControlAck p ?msg)\<rparr>"
  have "post_tracked p addr brange mode opcode version = (kOk, ?p')"
    by (rule post_tracked_shape [OF assms(1,4,5)])
  moreover have "control_upto (Suc k) ?p'"
    using assms(2,3)
    by (auto simp: control_upto_def control_inv_def stub_ack_def Track_pending_ids simp del: image_set
          split: if_splits)
  moreover have "control_update p ?p'"
    unfolding control_update_def
    by (rule exI [of _ "g_control_inboxes ?p'"], rule exI [of _ "rc_pending_control_acks ?p'"],
        rule exI [of _ "rc_next_control_request_id ?p'"]) simp
  ultimately show ?thesis by blast
qed

lemma control_update_sel:
  assumes "control_update p p'"
  shows "rc_initialized p' = rc_initialized p" "rc_config p' = rc_config p"
    "rc_components_set p' = rc_components_set p" "rc_transport p' = rc_transport p"
    "rc_allocator p' = rc_allocator p" "rc_cache_manager p' = rc_cache_manager p"
    "rc_block_table p' = rc_block_table p" "rc_stats p' = rc_stats p"
  using assms by (auto simp: control_update_def)

end
