(* ===== verification/Api_Invariant.thy ===== *)
theory Api_Invariant
  imports Control_Path "HOL-Library.Multiset"
begin

text \<open>
  Every call of the public interface keeps a process on the stub transport running: the
  invariant, the step relation of the interface and the states it reaches.
\<close>

section \<open>The transport keeps its invariant\<close>

lemma Transport_Read_keeps:
  assumes "stub_inv p" "Transport_Read p addr n = Some (s, bytes, p')"
  shows "stub_inv p'" "memory_update p p'" "view p' = view p" "s \<in> {kOk, kOutOfRange}"
proof -
  obtain t where t: "rc_transport p = StubT t" "st_cfg t = rc_config p"
    by (rule stub_inv_stub [OF assms(1)]) blast
  have touched: "stub_inv (p\<lparr>rc_transport := StubT (touch_region t node)\<rparr>)"
    "view (p\<lparr>rc_transport := StubT (touch_region t node)\<rparr>) = view p" for node
    using assms(1) t by (auto simp: stub_inv_def touch_region_def remote_region_def Let_def view_def
        node_bytes_def fun_eq_iff split: option.split)
  have cases: "p' = p \<or> (\<exists>node. p' = p\<lparr>rc_transport := StubT (touch_region t node)\<rparr>)" and s: "s \<in> {kOk, kOutOfRange}"
    using assms(2) t
    by (auto simp: Transport_Read_def Stub_Read_def Let_def bind_eq_Some_conv split: if_splits option.splits)
  from cases assms(1) touched stub_kept_read memory_update_refl
  show "stub_inv p'" "memory_update p p'" "view p' = view p" by auto
  show "s \<in> {kOk, kOutOfRange}" by (rule s)
qed

lemma memory_update_local:
  "length r = length (da_region (rc_allocator p)) \<Longrightarrow>
   memory_update p (p\<lparr>rc_allocator := (rc_allocator p)\<lparr>da_region := r\<rparr>\<rparr>)"
  unfolding memory_update_def by (rule exI [of _ "rc_transport p"], rule exI [of _ r]) simp

lemma Transport_Write_keeps:
  assumes "stub_inv p" "Transport_Write p addr bs n = Some (s, p')"
  shows "stub_inv p'" "memory_update p p'" "s \<in> {kOk, kOutOfRange}"
proof -
  obtain t where t: "rc_transport p = StubT t" "st_cfg t = rc_config p"
    and len: "\<And>node. length (remote_region t node) = unat (cfg_local_region_size (rc_config p))"
    by (rule stub_inv_stub [OF assms(1)]) blast
  have run: "Stub_Write t p addr bs n = Some (s, p')" using assms(2) t by (simp add: Transport_Write_def)
  let ?home = "ga_home_node addr"
  let ?t = "touch_region t ?home"
  have "stub_inv p' \<and> memory_update p p' \<and> s \<in> {kOk, kOutOfRange}"
  proof (cases "?home = cfg_node_id (rc_config p)")
    case True
    show ?thesis
    proof (cases "TranslateLocal (rc_allocator p) addr n")
      case None
      with run True have "p' = p" "s = kOutOfRange" by (simp_all add: Stub_Write_def)
      with assms(1) memory_update_refl show ?thesis by simp
    next
      case (Some dst)
      with run True obtain bytes r where wr: "mem_write (da_region (rc_allocator p)) dst bytes = Some r"
        and s: "s = kOk" and p': "p' = p\<lparr>rc_allocator := (rc_allocator p)\<lparr>da_region := r\<rparr>\<rparr>"
        by (auto simp: Stub_Write_def bind_eq_Some_conv)
      have r: "length r = length (da_region (rc_allocator p))" by (rule mem_write_length [OF wr])
      with assms(1) have "stub_inv p'" unfolding p' by (auto simp: stub_inv_def alloc_inv_def)
      with memory_update_local [OF r] s show ?thesis unfolding p' by simp
    qed
  next
    case False
    have "\<exists>r node. p' = p\<lparr>rc_transport := StubT (t\<lparr>st_remote_regions := (st_remote_regions t)(node \<mapsto> r)\<rparr>)\<rparr> \<and>
        length r = unat (cfg_local_region_size (rc_config p)) \<and> s \<in> {kOk, kOutOfRange}"
    proof (cases "of_nat (length (remote_region t ?home)) < ga_offset addr + n")
      case True
      with False run len show ?thesis
        by (intro exI [of _ "remote_region t ?home"] exI [of _ ?home]) (simp add: Stub_Write_def touch_region_def Let_def)
    next
      case inside: False
      with False run obtain bytes r where "mem_write (remote_region t ?home) (ga_offset addr) bytes = Some r"
        and "s = kOk" "p' = p\<lparr>rc_transport := StubT (t\<lparr>st_remote_regions := (st_remote_regions t)(?home \<mapsto> r)\<rparr>)\<rparr>"
        by (auto simp: Stub_Write_def touch_region_def Let_def bind_eq_Some_conv)
      with mem_write_length len show ?thesis by (intro exI [of _ r] exI [of _ ?home]) simp
    qed
    then obtain r node where p': "p' = p\<lparr>rc_transport := StubT (t\<lparr>st_remote_regions := (st_remote_regions t)(node \<mapsto> r)\<rparr>)\<rparr>"
      and r: "length r = unat (cfg_local_region_size (rc_config p))" and s: "s \<in> {kOk, kOutOfRange}" by blast
    have "stub_inv p'" unfolding p' using assms(1) t r by (auto simp: stub_inv_def)
    with stub_kept_read s show ?thesis unfolding p' by simp
  qed
  then show "stub_inv p'" "memory_update p p'" "s \<in> {kOk, kOutOfRange}" by simp_all
qed

lemma Transport_BatchWrite_keeps:
  assumes "stub_inv p" "Transport_BatchWrite p reqs = Some (s, p')"
  shows "stub_inv p'" "memory_update p p'" "s \<in> {kOk, kOutOfRange}"
proof -
  have "stub_inv p' \<and> memory_update p p' \<and> s \<in> {kOk, kOutOfRange}"
    using assms
  proof (induction reqs arbitrary: p)
    case Nil
    then show ?case using memory_update_refl by (simp add: stub.batch_Nil)
  next
    case (Cons req reqs)
    from Cons.prems(2) obtain s1 q where
      w: "Transport_Write p (rr_addr req) (rr_buf req) (rr_size req) = Some (s1, q)"
      and rest: "(if s1 \<noteq> kOk then Some (s1, q) else Transport_BatchWrite q reqs) = Some (s, p')"
      unfolding stub.batch_Cons [OF Cons.prems(1)] by (auto simp: bind_eq_Some_conv)
    note kept = Transport_Write_keeps [OF Cons.prems(1) w]
    show ?case
    proof (cases "s1 = kOk")
      case True
      with rest have "Transport_BatchWrite q reqs = Some (s, p')" by simp
      from Cons.IH [OF kept(1) this] memory_update_trans [OF kept(2)] show ?thesis by blast
    next
      case False
      with rest kept show ?thesis by simp
    qed
  qed
  then show "stub_inv p'" "memory_update p p'" "s \<in> {kOk, kOutOfRange}" by simp_all
qed

section \<open>The cache manager keeps its invariant\<close>

definition cache_kept :: "CacheManager \<Rightarrow> CacheManager \<Rightarrow> bool" where
  "cache_kept cm cm' \<longleftrightarrow> cm_cfg cm' = cm_cfg cm \<and> (cache_inv cm \<longrightarrow> cache_inv cm')"

lemma cache_kept_refl [simp]: "cache_kept cm cm"
  by (simp add: cache_kept_def)

lemma cache_inv_other [simp]:
  "cache_inv (cm\<lparr>cm_access_epoch := e\<rparr>) = cache_inv cm"
  "cache_inv (cm\<lparr>cm_write_queues := q\<rparr>) = cache_inv cm"
  by (simp_all add: cache_inv_def)

lemma TryReadCached_kept:
  assumes "TryReadCached cm addr buf_ok n = Some (hit, cm')"
  shows "cache_kept cm cm'" "cm_cached_reads cm' = cm_cached_reads cm" "cm_write_queues cm' = cm_write_queues cm"
proof -
  have "cm' = cm \<or> (\<exists>key payload. (key, payload) \<in> set (cm_cached_reads cm) \<and> cm' = TouchLocked cm key)"
  proof (cases "map_of (cm_cached_reads cm) \<lparr>ck_addr = addr, ck_size = n\<rparr>")
    case (Some payload)
    with assms map_of_SomeD [OF Some] show ?thesis
      by (auto simp: TryReadCached_def bind_eq_Some_conv split: if_splits)
  next
    case None
    show ?thesis
    proof (cases "find (\<lambda>(k, v). covers k addr n) (cm_cached_reads cm)")
      case None': None
      with assms None show ?thesis by (auto simp: TryReadCached_def split: if_splits)
    next
      case (Some e)
      then have "e \<in> set (cm_cached_reads cm)" by (auto simp: find_Some_iff in_set_conv_nth)
      with assms None Some show ?thesis
        by (cases e) (auto simp: TryReadCached_def bind_eq_Some_conv split: if_splits)
    qed
  qed
  then show "cache_kept cm cm'" "cm_cached_reads cm' = cm_cached_reads cm" "cm_write_queues cm' = cm_write_queues cm"
    by (auto simp: cache_kept_def TouchLocked_def [symmetric] intro: TouchLocked_inv dest: cache_inv_entry(3))
       (auto simp: TouchLocked_def)
qed

lemma InsertCached_kept:
  assumes "cache_inv cm" "InsertCached cm addr buf n = Some cm'"
  shows "cache_kept cm cm'" "cm_write_queues cm' = cm_write_queues cm"
proof -
  have "cm_cfg cm' = cm_cfg cm \<and> cm_write_queues cm' = cm_write_queues cm"
  proof (cases "\<exists>src. buf = Some src \<and> unat n \<le> length src \<and> admits cm n")
    case True
    then obtain src where src: "buf = Some src" "unat n \<le> length src" "admits cm n" by blast
    let ?key = "\<lparr>ck_addr = addr, ck_size = n\<rparr>"
    have cm': "cm' = inserted ?key (take (unat n) src) cm"
      using assms(2) src InsertCached_inserted [OF assms(1) src(2), of addr] by simp
    show ?thesis
    proof (cases "map_of (cm_cached_reads cm) ?key")
      case None
      then show ?thesis by (simp add: cm' inserted_def Let_def assms(1))
    next
      case (Some payload)
      have len: "length (take (unat n) src) = unat (ck_size ?key)" using src(2) by simp
      from Evict_sel [OF replaced_inv [OF assms(1) len Some]] show ?thesis
        by (simp add: cm' inserted_def Some TouchLocked_def)
    qed
  next
    case False
    with assms(2) show ?thesis
      by (auto simp: InsertCached_def admits_def mem_read_def Let_def not_less split: option.splits if_splits)
  qed
  with InsertCached_inv [OF assms] show "cache_kept cm cm'" "cm_write_queues cm' = cm_write_queues cm"
    by (simp_all add: cache_kept_def)
qed

lemma Invalidate_kept: "cache_kept cm (snd (Invalidate cm addr n))"
  by (simp add: cache_kept_def Invalidate_drop_entry drop_entry_inv)

lemma InvalidateRange_kept:
  assumes "cache_inv cm"
  shows "cache_kept cm (snd (InvalidateRange cm addr n))"
    "cm_write_queues (snd (InvalidateRange cm addr n)) = cm_write_queues cm"
  by (simp_all add: cache_kept_def InvalidateRange_inv assms) (simp_all add: InvalidateRange_fold assms)

lemma QueueRemoteWrite_kept:
  assumes "QueueRemoteWrite cm addr buf n mode ob oh = Some (merged, cm')"
  shows "cache_kept cm cm'" "cm_cached_reads cm' = cm_cached_reads cm"
  using assms by (auto simp: QueueRemoteWrite_def cache_kept_def bind_eq_Some_conv split: option.splits if_splits)

lemma Drain_kept: "cache_kept cm (snd (DrainRemoteWrites cm node))"
  "cm_cached_reads (snd (DrainRemoteWrites cm node)) = cm_cached_reads cm"
  by (auto simp: DrainRemoteWrites_def cache_kept_def split: option.splits)

section \<open>Running processes\<close>

text \<open>
  \<open>live k\<close>: the invariant of a running process inside a call, with at most \<open>k\<close> acknowledgements in
  its own inbox.
\<close>

definition live :: "nat \<Rightarrow> Process \<Rightarrow> bool" where
  "live k p \<longleftrightarrow> rc_initialized p \<and> rc_components_set p \<and> cfg_node_id (rc_config p) \<noteq> kInvalidNodeId \<and> stub_inv p \<and>
     cm_cfg (rc_cache_manager p) = rc_config p \<and> cache_inv (rc_cache_manager p) \<and> control_upto k p"

lemma running_live: "running p \<longleftrightarrow> live 2 p"
  by (auto simp: running_def live_def control_upto_def control_inv_def)

lemma live_mono: "live k p \<Longrightarrow> k \<le> m \<Longrightarrow> live m p"
  by (auto simp: live_def intro: control_upto_mono)

lemma live_settled: "running p \<Longrightarrow> live 0 (settled p)"
  by (auto simp: running_def live_def control_upto_settled stub_inv_def)

lemma live_bookkeeping [simp]:
  "live k (p\<lparr>rc_block_table := t\<rparr>) = live k p" "live k (p\<lparr>rc_stats := st\<rparr>) = live k p"
  by (simp_all add: live_def stub_inv_def control_upto_def control_inv_def)

lemma live_cache:
  "live k p \<Longrightarrow> cache_kept (rc_cache_manager p) cm \<Longrightarrow> live k (p\<lparr>rc_cache_manager := cm\<rparr>)"
  by (simp add: live_def stub_inv_def control_upto_def control_inv_def cache_kept_def)

lemma live_memory: "live k p \<Longrightarrow> memory_update p p' \<Longrightarrow> stub_inv p' \<Longrightarrow> live k p'"
  by (simp add: live_def memory_update_sel control_upto_def control_inv_def)

lemma live_control: "live k p \<Longrightarrow> control_update p p' \<Longrightarrow> control_upto m p' \<Longrightarrow> live m p'"
  by (simp add: live_def control_update_sel stub_inv_def)

lemma live_parts: "live k p \<Longrightarrow> stub_inv p" "live k p \<Longrightarrow> cache_inv (rc_cache_manager p)"
  by (simp_all add: live_def)

lemma PrepareMetadata_shape:
  assumes "PrepareMetadata p brange addr type = Some (metas, p')"
  shows "\<exists>t. p' = p\<lparr>rc_block_table := t\<rparr>"
proof -
  have "\<exists>t. snd (metas, p') = p\<lparr>rc_block_table := t\<rparr>"
  proof (rule for_incl_inv [where I = "\<lambda>s. \<exists>t. snd s = p\<lparr>rc_block_table := t\<rparr>"])
    show "for_incl (prepare_step addr type) (bi_block_index (br_first brange)) (bi_block_index (br_last brange)) ([], p) =
        Some (metas, p')" using assms by (simp add: PrepareMetadata_def)
    have "p = p\<lparr>rc_block_table := rc_block_table p\<rparr>" by simp
    then show "\<exists>t. snd ([] :: BlockId list, p) = p\<lparr>rc_block_table := t\<rparr>" unfolding snd_conv by blast
  next
    fix x s s'
    assume "\<exists>t. snd s = p\<lparr>rc_block_table := t\<rparr>" "prepare_step addr type x s = Some s'"
    then obtain t u where s: "s = (fst s, p\<lparr>rc_block_table := t\<rparr>)" by (metis prod.collapse)
    have "prepare_step addr type x (fst s, p\<lparr>rc_block_table := t\<rparr>) = Some s'"
      using \<open>prepare_step addr type x s = Some s'\<close> s by simp
    then show "\<exists>t. snd s' = p\<lparr>rc_block_table := t\<rparr>"
      by (auto simp: prepare_step_def Let_def)
  qed
  then show ?thesis by simp
qed

text \<open>One iteration of \<^verbatim>\<open>ObserveMetas\<close>.\<close>

definition observed_mode :: "Process \<Rightarrow> BlockId \<Rightarrow> AccessType \<Rightarrow> bool \<Rightarrow> CoherenceMode" where
  "observed_mode p bid type is_local =
     fst (ObserveAccess (rc_cache_manager p) (Some (meta_at (rc_block_table p) bid)) type is_local)"

definition observed :: "Process \<Rightarrow> BlockId \<Rightarrow> AccessType \<Rightarrow> bool \<Rightarrow> Process" where
  "observed p bid type is_local =
     (let (mode_after, cm, meta) =
            ObserveAccess (rc_cache_manager p) (Some (meta_at (rc_block_table p) bid)) type is_local
      in p\<lparr>rc_cache_manager := cm,
           rc_block_table := update_meta (rc_block_table p) bid (\<lambda>_. the meta),
           rc_stats := RecordCoherenceMode mode_after
             (bm_mode (meta_at (rc_block_table p) bid) \<noteq> mode_after) (rc_stats p)\<rparr>)"

lemma ObserveMetas_Cons:
  "ObserveMetas p (bid # metas) type is_local =
     (observed_mode p bid type is_local # fst (ObserveMetas (observed p bid type is_local) metas type is_local),
      snd (ObserveMetas (observed p bid type is_local) metas type is_local))"
  by (simp add: observed_def observed_mode_def split_beta Let_def)

declare ObserveMetas.simps(2) [simp del]

lemma observed_shape:
  "\<exists>t st. observed p bid type is_local = p\<lparr>rc_block_table := t, rc_stats := st,
     rc_cache_manager := (rc_cache_manager p)\<lparr>cm_access_epoch := cm_access_epoch (rc_cache_manager p) + 1\<rparr>\<rparr>"
proof -
  have "fst (snd (ObserveAccess (rc_cache_manager p) (Some m) type is_local)) =
      (rc_cache_manager p)\<lparr>cm_access_epoch := cm_access_epoch (rc_cache_manager p) + 1\<rparr>" for m
    by (simp add: ObserveAccess_def Let_def)
  then show ?thesis
    by (intro exI [of _ "rc_block_table (observed p bid type is_local)"]
          exI [of _ "rc_stats (observed p bid type is_local)"] Process.equality)
       (simp_all add: observed_def split_beta)
qed

lemma ObserveMetas_shape:
  "\<exists>t st e. snd (ObserveMetas p metas type is_local) =
     p\<lparr>rc_block_table := t, rc_stats := st, rc_cache_manager := (rc_cache_manager p)\<lparr>cm_access_epoch := e\<rparr>\<rparr>"
proof (induction metas arbitrary: p)
  case Nil
  show ?case
    by (rule exI [of _ "rc_block_table p"], rule exI [of _ "rc_stats p"],
        rule exI [of _ "cm_access_epoch (rc_cache_manager p)"]) simp
next
  case (Cons bid metas)
  obtain t st where q: "observed p bid type is_local = p\<lparr>rc_block_table := t, rc_stats := st,
      rc_cache_manager := (rc_cache_manager p)\<lparr>cm_access_epoch := cm_access_epoch (rc_cache_manager p) + 1\<rparr>\<rparr>"
    using observed_shape by blast
  from Cons.IH [of "observed p bid type is_local"] show ?case
    unfolding ObserveMetas_Cons snd_conv by (elim exE) (simp only: q, auto)
qed

lemma live_epoch [simp]:
  "live k (p\<lparr>rc_cache_manager := (rc_cache_manager p)\<lparr>cm_access_epoch := e\<rparr>\<rparr>) = live k p"
  by (simp add: live_def stub_inv_def control_upto_def control_inv_def)

lemma live_Observe: "live k p \<Longrightarrow> live k (snd (ObserveMetas p metas type is_local))"
proof -
  assume "live k p"
  obtain t st e where q: "snd (ObserveMetas p metas type is_local) =
      p\<lparr>rc_block_table := t, rc_stats := st, rc_cache_manager := (rc_cache_manager p)\<lparr>cm_access_epoch := e\<rparr>\<rparr>"
    using ObserveMetas_shape by blast
  have "cache_kept (rc_cache_manager p) ((rc_cache_manager p)\<lparr>cm_access_epoch := e\<rparr>)"
    by (simp add: cache_kept_def)
  with \<open>live k p\<close> show ?thesis unfolding q by (intro live_cache) simp_all
qed

section \<open>Calls keep the process running\<close>

lemma live_Read:
  "live k p \<Longrightarrow> Transport_Read p addr n = Some (s, bytes, p') \<Longrightarrow> live k p' \<and> s \<in> {kOk, kOutOfRange}"
  using Transport_Read_keeps [of p addr n s bytes p'] live_memory [of k p p'] live_parts(1) [of k p] by auto

lemma live_Write:
  "live k p \<Longrightarrow> Transport_Write p addr bs n = Some (s, p') \<Longrightarrow> live k p' \<and> s \<in> {kOk, kOutOfRange}"
  using Transport_Write_keeps [of p addr bs n s p'] live_memory [of k p p'] live_parts(1) [of k p] by auto

lemma live_hit:
  assumes "live k p" "(if c then TryReadCached (rc_cache_manager p) addr True n else Some (None, rc_cache_manager p)) = Some (hit, cm)"
  shows "live k (p\<lparr>rc_cache_manager := cm\<rparr>)"
  using assms TryReadCached_kept(1) by (intro live_cache) (auto split: if_splits)

lemma live_TryOwnerAwareRead:
  assumes live: "live k p" and run: "TryOwnerAwareRead p addr n metas = Some (s, bytes, redirected, p')"
  shows "live k p' \<and> s \<in> {kOk, kOutOfRange}"
proof (cases "DominantOwnerNode (rc_block_table p) metas (ga_home_node addr) = cfg_node_id (rc_config p)")
  case True
  then obtain hit cm where
    hit: "(if AllMetasValidated (rc_block_table p) metas then TryReadCached (rc_cache_manager p) addr True n
           else Some (None, rc_cache_manager p)) = Some (hit, cm)"
    and rest: "(case hit of Some bytes \<Rightarrow> Some (kOk, bytes, True, p\<lparr>rc_cache_manager := cm\<rparr>)
      | None \<Rightarrow> do { (home_status, bytes, p) \<leftarrow> Transport_Read (p\<lparr>rc_cache_manager := cm\<rparr>) addr n;
                      if home_status = kOk
                      then Some (kOk, bytes, False, p\<lparr>rc_block_table := MarkReadValidated metas (rc_block_table p)\<rparr>)
                      else Some (home_status, bytes, False, p) }) = Some (s, bytes, redirected, p')"
    using run unfolding TryOwnerAwareRead_def Let_def by (auto simp: bind_eq_Some_conv)
  note q = live_hit [OF live hit]
  from rest q show ?thesis
    by (auto simp: bind_eq_Some_conv split: option.splits if_splits dest!: live_Read [OF q])
next
  case False
  then obtain r q where
    owner: "(if AllMetasValidated (rc_block_table p) metas \<and>
        DominantOwnerNode (rc_block_table p) metas (ga_home_node addr) \<noteq> kInvalidNodeId \<and>
        DominantOwnerNode (rc_block_table p) metas (ga_home_node addr) \<noteq> ga_home_node addr then
       do { (owner_status, bytes, p) \<leftarrow> Transport_Read p
              (addr\<lparr>ga_home_node := DominantOwnerNode (rc_block_table p) metas (ga_home_node addr)\<rparr>) n;
            if owner_status = kOk
            then Some (Some bytes, p\<lparr>rc_block_table := MarkReadValidated metas (rc_block_table p)\<rparr>)
            else Some (None, p) }
       else Some (None, p)) = Some (r, q)"
    and rest: "(case r of Some bytes \<Rightarrow> Some (kOk, bytes, True, q)
      | None \<Rightarrow> do { (home_status, bytes, p) \<leftarrow> Transport_Read q addr n;
          if home_status = kOk
          then Some (kOk, bytes, False, p\<lparr>rc_block_table := update_metas
              (\<lambda>meta. if bm_state meta = kInvalid
                       then meta\<lparr>bm_state := kShared, bm_owner_node := ga_home_node addr\<rparr> else meta)
              metas (MarkReadValidated metas (rc_block_table p))\<rparr>)
          else Some (home_status, bytes, False, p) }) = Some (s, bytes, redirected, p')"
    using run unfolding TryOwnerAwareRead_def Let_def by (auto simp: bind_eq_Some_conv)
  from owner live have q: "live k q"
    by (auto simp: bind_eq_Some_conv split: if_splits dest!: live_Read [OF live])
  from rest q show ?thesis
    by (auto simp: bind_eq_Some_conv split: option.splits if_splits dest!: live_Read [OF q])
qed

lemma live_admit: "live k p \<Longrightarrow> live k (snd (ShouldAdmitCached p metas))"
  by (simp add: ShouldAdmitCached_def)

lemma live_insert:
  "live k p \<Longrightarrow> InsertCached (rc_cache_manager p) addr buf n = Some cm \<Longrightarrow> live k (p\<lparr>rc_cache_manager := cm\<rparr>)"
  by (intro live_cache InsertCached_kept(1) live_parts(2))

lemma live_admit_read:
  assumes "live k p" "admit_read p addr bytes n metas modes = Some q"
  shows "live k q"
proof -
  define r where "r = (if \<not> HasMode modes kWI then ShouldAdmitCached p metas else (False, p))"
  have "live k (snd r)" using assms(1) live_admit by (simp add: r_def)
  then have r: "live k (update_stats f (snd r))" for f by simp
  from assms(2) have "(if fst r
      then do { cm \<leftarrow> InsertCached (rc_cache_manager (update_stats (IncCacheAdmission (fst r)) (snd r))) addr (Some bytes) n;
                Some ((update_stats (IncCacheAdmission (fst r)) (snd r))\<lparr>rc_cache_manager := cm\<rparr>) }
      else Some (update_stats (IncCacheAdmission (fst r)) (snd r))) = Some q"
    unfolding admit_read_def r_def [symmetric] by (simp add: split_beta Let_def)
  with live_insert [OF r] r show ?thesis by (auto simp: bind_eq_Some_conv split: if_splits)
qed

lemma live_read_miss:
  assumes live: "live k p" and run: "read_miss p addr n metas modes is_local = Some (s, bytes, p')"
  shows "live k p' \<and> s \<in> {kOk, kOutOfRange}"
proof -
  define q where "q = (if \<not> is_local
      then (update_stats IncCacheMiss p)\<lparr>rc_block_table :=
             update_metas (\<lambda>meta. meta\<lparr>bm_remote_miss_count := bm_remote_miss_count meta + 1\<rparr>) metas (rc_block_table p)\<rparr>
      else p)"
  have q: "live k q" using live by (simp add: q_def)
  obtain s' b red r where read: "(if is_local then do { (s, bytes, p) \<leftarrow> Transport_Read q addr n; Some (s, bytes, False, p) }
        else TryOwnerAwareRead q addr n metas) = Some (s', b, red, r)"
    and rest: "(if s' \<noteq> kOk then Some (s', b, r)
     else do { p \<leftarrow> (if \<not> is_local
                     then admit_read (if \<not> is_local \<and> red
                       then r\<lparr>rc_block_table := update_metas (\<lambda>meta. meta\<lparr>bm_state := kOwner,
                              bm_version := MaxObservedVersion (rc_block_table r) metas\<rparr>) metas (rc_block_table r)\<rparr>
                       else r) addr b n metas modes
                     else Some r);
               Some (kOk, b, update_stats (IncRead is_local) p) }) = Some (s, bytes, p')"
    using run unfolding read_miss_def Let_def q_def [symmetric] by (auto simp: bind_eq_Some_conv split: if_splits)
  have r: "live k r \<and> s' \<in> {kOk, kOutOfRange}"
    using read live_TryOwnerAwareRead [OF q, of addr n metas s' b red r] live_Read [OF q, of addr n s' b r]
    by (auto simp: bind_eq_Some_conv split: if_splits)
  show ?thesis
  proof (cases "s' = kOk")
    case True
    with rest r show ?thesis by (auto simp: bind_eq_Some_conv split: if_splits dest!: live_admit_read [rotated])
  next
    case False
    with rest r show ?thesis by auto
  qed
qed

lemma ValidateAndResolve_error:
  "ValidateAndResolveRange p addr n = Inl e \<Longrightarrow> e \<in> {kInvalidArg, kOutOfRange}"
  by (auto simp: ValidateAndResolveRange_def split: if_splits option.splits)

lemma live_checked_read:
  assumes live: "live k p" and run: "checked_read p addr n = Some (s, bytes, p')"
  shows "live k p' \<and> s \<in> {kOk, kInvalidArg, kOutOfRange}"
proof (cases "ValidateAndResolveRange p addr n")
  case (Inl e)
  with run live ValidateAndResolve_error [OF Inl] show ?thesis by (auto simp: checked_read_def)
next
  case (Inr brange)
  let ?local = "ga_home_node addr = cfg_node_id (rc_config p)"
  from run Inr obtain metas q where prep: "PrepareMetadata p brange addr kRead = Some (metas, q)"
    by (cases "PrepareMetadata p brange addr kRead") (auto simp: checked_read_def Let_def)
  obtain modes r where obs: "ObserveMetas q metas kRead ?local = (modes, r)" by force
  from run Inr prep obs obtain hit cm where
    hit: "(if \<not> ?local then TryReadCached (rc_cache_manager r) addr True n else Some (None, rc_cache_manager r)) = Some (hit, cm)"
    and rest: "(case hit of
        Some bytes \<Rightarrow> Some (kOk, bytes, update_stats (IncRead False \<circ> IncCacheHit) (r\<lparr>rc_cache_manager := cm\<rparr>))
      | None \<Rightarrow> read_miss (r\<lparr>rc_cache_manager := cm\<rparr>) addr n metas modes ?local) = Some (s, bytes, p')"
    by (auto simp: checked_read_def Let_def bind_eq_Some_conv)
  have "live k q" using PrepareMetadata_shape [OF prep] live by auto
  then have "live k r" using live_Observe [of k q metas kRead ?local] obs by simp
  note r = live_hit [OF this hit]
  with rest live_read_miss [OF r, of addr n metas modes ?local s bytes p'] show ?thesis
    by (auto split: option.splits)
qed

lemma lm_read_checked:
  "running p \<Longrightarrow> lm_read p addr buf_ok n =
     (if \<not> IsValid addr \<or> \<not> buf_ok \<or> n = 0 then Some (kInvalidArg, [], p) else checked_read (settled p) addr n)"
  by (simp add: lm_read_def running_def ProcessPending_settles)

lemma lm_write_checked:
  "running p \<Longrightarrow> lm_write p addr (Some src) n =
     (if \<not> IsValid addr \<or> n = 0 then Some (kInvalidArg, p) else checked_write (settled p) addr src n)"
  by (simp add: lm_write_def running_def ProcessPending_settles)

lemma lm_read_running:
  assumes run: "running p" and read: "lm_read p addr buf_ok n = Some (s, bytes, p')"
  shows "running p' \<and> s \<in> {kOk, kInvalidArg, kOutOfRange}"
  using read run live_checked_read [OF live_settled [OF run]] live_mono [of 0 _ 2]
  by (auto simp: lm_read_checked [OF run] running_live split: if_splits)

subsection \<open>Writes\<close>

lemma live_Flush:
  assumes live: "live k p" and run: "FlushDestination p node = Some (s, p')"
  shows "live k p' \<and> s \<in> {kOk, kOutOfRange}"
proof -
  define batch where "batch = fst (DrainRemoteWrites (rc_cache_manager p) node)"
  define q where "q = p\<lparr>rc_cache_manager := snd (DrainRemoteWrites (rc_cache_manager p) node)\<rparr>"
  have q: "live k q" unfolding q_def by (rule live_cache [OF live Drain_kept(1)])
  obtain s1 r where w: "(if map request_of (db_writes batch) \<noteq> [] then Transport_BatchWrite q (map request_of (db_writes batch))
        else Some (kOk, q)) = Some (s1, r)"
    and rest: "s = s1" "p' = r \<or> (\<exists>st. p' = r\<lparr>rc_stats := st\<rparr>)"
    using run unfolding FlushDestination_def Let_def
    by (auto simp: split_beta bind_eq_Some_conv simp flip: batch_def q_def split: if_splits)
  have "live k r \<and> s1 \<in> {kOk, kOutOfRange}"
    using w q Transport_BatchWrite_keeps [of q "map request_of (db_writes batch)" s1 r] live_memory [OF q, of r]
      live_parts(1) [OF q] by (auto split: if_splits)
  with rest show ?thesis by auto
qed

lemma live_announce:
  assumes live: "live 0 p" and remote: "ga_home_node addr \<noteq> cfg_node_id (rc_config p)"
  shows "\<exists>p'. announce_write p addr brange inval handoff version = (kOk, p') \<and> live 2 p' \<and> control_update p p'"
proof -
  obtain q where q: "(if inval then post_tracked p addr brange kWI kInvalidateRange version else (kOk, p)) = (kOk, q)"
    "live 1 q" "control_update p q"
  proof (cases inval)
    case True
    have "control_upto 0 p" using live by (simp add: live_def)
    from post_tracked_ok [OF live_parts(1) [OF live] this _ remote, of kInvalidateRange brange kWI version]
    obtain q where "post_tracked p addr brange kWI kInvalidateRange version = (kOk, q)" "control_upto 1 q" "control_update p q"
      by (auto simp: IsAckOpcode_def)
    with True that [of q] live_control [OF live] show ?thesis by simp
  next
    case False
    with that [of p] live live_mono [of 0 p 1] control_update_refl show ?thesis by simp
  qed
  show ?thesis
  proof (cases handoff)
    case True
    have "control_upto 1 q" "ga_home_node addr \<noteq> cfg_node_id (rc_config q)"
      using q(2) remote control_update_sel(2) [OF q(3)] by (simp_all add: live_def)
    from post_tracked_ok [OF live_parts(1) [OF q(2)] this(1) _ this(2), of kOwnerTransfer brange kAdaptive version]
    obtain r where "post_tracked q addr brange kAdaptive kOwnerTransfer version = (kOk, r)" "control_upto 2 r" "control_update q r"
      by (auto simp: IsAckOpcode_def numeral_2_eq_2)
    with q True live_control [OF q(2)] control_update_trans [OF q(3)] show ?thesis
      unfolding announce_write_def by auto
  next
    case False
    with q live_mono [OF q(2), of 2] show ?thesis unfolding announce_write_def by auto
  qed
qed

lemma live_after_queueing:
  assumes live: "live k p" and run: "after_queueing p addr src n modes ob = Some (s, p')"
  shows "live k p' \<and> s \<in> {kOk, kOutOfRange}"
proof -
  from run obtain cm where ins: "(if ob then InsertCached (rc_cache_manager p) addr (Some src) n
      else Some (rc_cache_manager p)) = Some cm"
    by (cases "if ob then InsertCached (rc_cache_manager p) addr (Some src) n else Some (rc_cache_manager p)")
       (auto simp: after_queueing_def)
  have r: "live k (p\<lparr>rc_cache_manager := cm\<rparr>)"
    using ins live_insert [OF live] live by (auto split: if_splits)
  obtain s1 q where fl: "(if HasMode modes kWI \<or> ShouldFlushDestination cm (ga_home_node addr) (MostAggressiveBatchThreshold (cm_cfg cm) modes)
       then FlushDestination (p\<lparr>rc_cache_manager := cm\<rparr>) (ga_home_node addr) else Some (kOk, p\<lparr>rc_cache_manager := cm\<rparr>)) = Some (s1, q)"
    and rest: "(if s1 \<noteq> kOk then Some (s1, q) else Some (kOk, update_stats (IncWrite False) q)) = Some (s, p')"
    using run ins unfolding after_queueing_def by (simp add: Let_def) (auto simp: bind_eq_Some_conv)
  have "live k q \<and> s1 \<in> {kOk, kOutOfRange}"
    using fl r live_Flush [OF r, of "ga_home_node addr" s1 q] by (auto split: if_splits)
  with rest show ?thesis by (auto split: if_splits)
qed

lemma live_deliver:
  assumes live: "live k p" and run: "deliver_write p addr src n modes ob oh = Some (s, p')"
  shows "live k p' \<and> s \<in> {kOk, kOutOfRange}"
proof (cases "cfg_enable_write_batching (rc_config p)")
  case False
  with run live_Write [OF live, of addr src n] show ?thesis
    by (auto simp: deliver_write_def bind_eq_Some_conv)
next
  case True
  let ?mode = "if HasMode modes kWI then kWI else if HasMode modes kAdaptive then kAdaptive else kSI"
  from run True obtain merged cm where queue:
    "QueueRemoteWrite (rc_cache_manager p) addr (Some src) n ?mode ob oh = Some (merged, cm)"
    by (cases "QueueRemoteWrite (rc_cache_manager p) addr (Some src) n ?mode ob oh") (auto simp: deliver_write_def Let_def)
  have q: "live k (p\<lparr>rc_cache_manager := cm, rc_stats := st\<rparr>)" for st
    using live_cache [OF live QueueRemoteWrite_kept(1) [OF queue]] by simp
  from run True queue obtain st where
    "after_queueing (p\<lparr>rc_cache_manager := cm, rc_stats := st\<rparr>) addr src n modes ob = Some (s, p')"
    by (cases merged) (simp_all add: deliver_write_def Let_def)
  from live_after_queueing [OF q this] show ?thesis .
qed

lemma live_remote_write:
  assumes live: "live 0 p" and remote: "ga_home_node addr \<noteq> cfg_node_id (rc_config p)"
    and run: "remote_write p addr src n brange metas modes = Some (s, p')"
  shows "live 2 p' \<and> s \<in> {kOk, kOutOfRange}"
proof -
  obtain ob oh table where meta: "ApplyWriteMetadata (rc_config p) addr metas modes (False, False, rc_block_table p) =
      (ob, oh, table)" by (metis prod_cases3)
  let ?p = "p\<lparr>rc_block_table := table\<rparr>" and ?inval = "HasMode modes kWI"
  from live_announce [of ?p addr brange ?inval oh "MaxObservedVersion table metas"] live remote
  obtain q where ann: "announce_write ?p addr brange ?inval oh (MaxObservedVersion table metas) = (kOk, q)"
    and q: "live 2 q" by auto
  obtain c cm where inv: "(if ?inval then InvalidateRange (rc_cache_manager q) addr n
      else Invalidate (rc_cache_manager q) addr n) = (c, cm)" by force
  have "cm = (if ?inval then snd (InvalidateRange (rc_cache_manager q) addr n)
      else snd (Invalidate (rc_cache_manager q) addr n))" using inv by (auto split: if_splits)
  then have "cache_kept (rc_cache_manager q) cm"
    using Invalidate_kept InvalidateRange_kept(1) [OF live_parts(2) [OF q]] by simp
  from live_cache [OF q this] have "live 2 (update_stats f (q\<lparr>rc_cache_manager := cm\<rparr>))" for f by simp
  moreover have "deliver_write (update_stats (AddCacheInvalidations ?inval c) (q\<lparr>rc_cache_manager := cm\<rparr>))
      addr src n modes ob oh = Some (s, p')"
    using run unfolding remote_write_def by (simp add: meta ann inv Let_def)
  ultimately show ?thesis by (rule live_deliver)
qed

lemma live_checked_write:
  assumes live: "live 0 p" and run: "checked_write p addr src n = Some (s, p')"
  shows "live 2 p' \<and> s \<in> {kOk, kInvalidArg, kOutOfRange}"
proof (cases "ValidateAndResolveRange p addr n")
  case (Inl e)
  with run live_mono [OF live, of 2] ValidateAndResolve_error [OF Inl] show ?thesis by (auto simp: checked_write_def)
next
  case (Inr brange)
  let ?local = "ga_home_node addr = cfg_node_id (rc_config p)"
  from run Inr obtain metas q where prep: "PrepareMetadata p brange addr kWrite = Some (metas, q)"
    by (cases "PrepareMetadata p brange addr kWrite") (auto simp: checked_write_def Let_def)
  obtain modes r where obs: "ObserveMetas q metas kWrite ?local = (modes, r)" by force
  from PrepareMetadata_shape [OF prep] obtain t where q: "q = p\<lparr>rc_block_table := t\<rparr>" by blast
  have r: "live 0 r" using live_Observe [of 0 q metas kWrite ?local] obs live q by simp
  have cfg: "rc_config r = rc_config p"
    using ObserveMetas_shape [of q metas kWrite ?local] obs q by auto
  show ?thesis
  proof (cases ?local)
    case True
    with run Inr prep obs live_Write [OF r, of addr src n] live_mono [of 0 _ 2] show ?thesis
      by (auto simp: checked_write_def bind_eq_Some_conv)
  next
    case False
    with run Inr prep obs have "remote_write r addr src n brange metas modes = Some (s, p')"
      by (simp add: checked_write_def)
    from live_remote_write [OF r _ this] False cfg show ?thesis by auto
  qed
qed

lemma lm_write_running:
  assumes run: "running p" and "write": "lm_write p addr buf n = Some (s, p')"
  shows "running p' \<and> s \<in> {kOk, kInvalidArg, kOutOfRange}"
proof (cases buf)
  case None
  with assms show ?thesis by (auto simp: lm_write_def running_def)
next
  case (Some src)
  with "write" run live_checked_write [OF live_settled [OF run], of addr src n s p'] show ?thesis
    by (auto simp: lm_write_checked [OF run] running_live split: if_splits)
qed

subsection \<open>Fences and allocations\<close>

lemma live_flush_all:
  "live k p \<Longrightarrow> flush_all p nodes = Some (s, p') \<Longrightarrow> live k p' \<and> s \<in> {kOk, kOutOfRange}"
proof (induction nodes arbitrary: p)
  case Nil
  then show ?case by simp
next
  case (Cons node nodes)
  from Cons.prems(2) obtain s1 q where fl: "FlushDestination p node = Some (s1, q)"
    and rest: "(if s1 \<noteq> kOk then Some (s1, q) else flush_all q nodes) = Some (s, p')"
    by (auto simp: bind_eq_Some_conv)
  with live_Flush [OF Cons.prems(1) fl] Cons.IH [of q] show ?case by (auto split: if_splits)
qed

lemma lm_fence_running:
  assumes run: "running p" and fence: "lm_fence p = Some (s, p')"
  shows "running p' \<and> s \<in> {kOk, kOutOfRange}"
proof -
  have inv: "rc_initialized p" "stub_inv p" "control_inv p" using run by (simp_all add: running_def)
  from fence obtain s1 q where
    fl: "flush_all (settled p) (PendingDestinations (rc_cache_manager (settled p))) = Some (s1, q)"
    and rest: "(if s1 \<noteq> kOk then Some (s1, q) else if Transport_Fence q \<noteq> kOk then Some (Transport_Fence q, q) else DrainControl q) = Some (s, p')"
    by (auto simp: lm_fence_def inv DrainControl_settles bind_eq_Some_conv Let_def split: if_splits)
  have q: "live 0 q \<and> s1 \<in> {kOk, kOutOfRange}" by (rule live_flush_all [OF live_settled [OF run] fl])
  then have q2: "running q" using live_mono [of 0 q 2] by (simp add: running_live)
  then have "stub_inv q" "control_inv q" by (simp_all add: running_def)
  then have "DrainControl q = Some (kOk, settled q)" "Transport_Fence q = kOk"
    by (simp_all add: DrainControl_settles) (auto simp: Transport_Fence_def elim: stub_inv_stub)
  with rest q q2 live_settled [OF q2] live_mono [of 0 "settled q" 2] show ?thesis
    by (auto simp: running_live split: if_splits)
qed

lemma lm_fence_settled:
  assumes run: "running p" and fence: "lm_fence p = Some (kOk, p')"
  shows "rc_pending_control_acks p' = []"
proof -
  have inv: "rc_initialized p" "stub_inv p" "control_inv p" using run by (simp_all add: running_def)
  from fence obtain q where
    fl: "flush_all (settled p) (PendingDestinations (rc_cache_manager (settled p))) = Some (kOk, q)"
    and rest: "DrainControl q = Some (kOk, p')"
    by (auto simp: lm_fence_def inv DrainControl_settles bind_eq_Some_conv Let_def split: if_splits)
  have "live 0 q" using live_flush_all [OF live_settled [OF run] fl] by simp
  then have "stub_inv q" "control_inv q" by (simp_all add: live_def control_upto_def)
  with rest DrainControl_settles [of q] show ?thesis by auto
qed

lemma running_init: "running p \<Longrightarrow> rc_initialized p"
  by (simp add: running_def)

lemma lm_malloc_running:
  assumes run: "running p" and small: "unat n + unat (cfg_block_size (rc_config p)) \<le> 2 ^ 63"
    and malloc: "lm_malloc p n = Some (addr, p')"
  shows "running p'"
proof -
  obtain base a where al: "Allocate (rc_allocator p) n = (base, a)" by force
  have inv: "alloc_inv (rc_allocator p)" "da_cfg (rc_allocator p) = rc_config p"
    using run by (simp_all add: running_def stub_inv_def)
  have a: "alloc_inv a \<and> da_region a = da_region (rc_allocator p) \<and> da_cfg a = da_cfg (rc_allocator p)"
  proof (cases "IsValid base")
    case True
    have "da_cfg a = da_cfg (rc_allocator p)" using al by (auto simp: Allocate_def Let_def split: if_splits)
    with Allocate_fresh [OF inv(1) _ al True] small inv(2) show ?thesis by auto
  next
    case False
    moreover have "IsValid (base\<lparr>ga_home_node := cfg_node_id (da_cfg (rc_allocator p))\<rparr>)"
      using run inv(2) by (simp add: running_def IsValid_def)
    ultimately show ?thesis using Allocate_refused [OF al] inv by simp
  qed
  let ?q = "p\<lparr>rc_allocator := a\<rparr>"
  have q: "running ?q" using run a by (auto simp: running_def stub_inv_def control_inv_def)
  have bookkeep: "running (r\<lparr>rc_block_table := t\<rparr>) = running r" "running (r\<lparr>rc_stats := st\<rparr>) = running r" for r t st
    by (simp_all add: running_live)
  show ?thesis
  proof (cases "IsValid base")
    case False
    with malloc run q al show ?thesis by (auto simp: lm_malloc_def running_init Let_def)
  next
    case True
    show ?thesis
    proof (cases "Allocator_ResolveBlockRange a base n")
      case None
      with malloc run q al True show ?thesis by (auto simp: lm_malloc_def running_init Let_def)
    next
      case (Some brange)
      with malloc run al True obtain r where
        loop: "for_incl
           (\<lambda>index p. let bid = \<lparr>bi_region_id = ga_region_id base, bi_block_index = index\<rparr>
              in Some (p\<lparr>rc_block_table := update_meta (GetOrCreate (rc_block_table p) bid) bid
                    (\<lambda>meta. meta\<lparr>bm_state := kHome, bm_owner_node := cfg_node_id (rc_config p)\<rparr>)\<rparr>))
           (bi_block_index (br_first brange)) (bi_block_index (br_last brange)) ?q = Some r"
        and p': "p' = update_stats IncAlloc r"
        by (auto simp: lm_malloc_def running_init Let_def bind_eq_Some_conv)
      have "running r"
        by (rule for_incl_inv [where I = running, OF loop q]) (auto simp: Let_def bookkeep)
      then show ?thesis by (simp add: p' bookkeep)
    qed
  qed
qed

section \<open>The interface as a step relation\<close>

text \<open>
  One rule per public call, with the arguments the contracts of the components need: a local
  region below \<open>2\<^sup>63\<close> bytes, a valid node number and allocation requests whose rounding cannot wrap. Reads and writes
  take any argument; a call that has no defined result is no step. The last rule is the freedom
  of \<^verbatim>\<open>std::unordered_map\<close> to change its iteration order.
\<close>

inductive api_step :: "Process \<Rightarrow> Process \<Rightarrow> bool" where
  step_init: "unat (cfg_local_region_size cfg) < 2 ^ 63 \<Longrightarrow> cfg_node_id cfg \<noteq> kInvalidNodeId \<Longrightarrow>
    api_step p (snd (RuntimeContext_Init p cfg))"
| step_shutdown: "api_step p (snd (lm_shutdown p))"
| step_malloc: "unat n + unat (cfg_block_size (rc_config p)) \<le> 2 ^ 63 \<Longrightarrow> lm_malloc p n = Some (addr, p') \<Longrightarrow>
    api_step p p'"
| step_read: "lm_read p addr buf_ok n = Some (s, bytes, p') \<Longrightarrow> api_step p p'"
| step_write: "lm_write p addr buf n = Some (s, p') \<Longrightarrow> api_step p p'"
| step_fence: "lm_fence p = Some (s, p') \<Longrightarrow> api_step p p'"
| step_rehash: "mset reads = mset (cm_cached_reads (rc_cache_manager p)) \<Longrightarrow>
    mset queues = mset (cm_write_queues (rc_cache_manager p)) \<Longrightarrow> mset acks = mset (rc_pending_control_acks p) \<Longrightarrow>
    api_step p (p\<lparr>rc_cache_manager := (rc_cache_manager p)\<lparr>cm_cached_reads := reads, cm_write_queues := queues\<rparr>,
                  rc_pending_control_acks := acks\<rparr>)"

inductive_cases api_stepE: "api_step p p'"

definition process_inv :: "Process \<Rightarrow> bool" where
  "process_inv p \<longleftrightarrow> (if rc_initialized p then running p else inboxes_ok p)"

lemma process_inv_inboxes: "process_inv p \<Longrightarrow> inboxes_ok p"
  by (auto simp: process_inv_def running_def control_inv_inboxes split: if_splits)

lemma initial_process_inv: "process_inv initial_process"
  by (simp add: process_inv_def initial_process_def inboxes_ok_def)

lemma process_inv_Init:
  assumes "process_inv p" "unat (cfg_local_region_size cfg) < 2 ^ 63" "cfg_node_id cfg \<noteq> kInvalidNodeId"
  shows "process_inv (snd (RuntimeContext_Init p cfg))"
proof -
  have "inboxes_ok p" by (rule process_inv_inboxes [OF assms(1)])
  then have "inboxes_ok (brought_up p cfg)" by (simp add: inboxes_ok_def brought_up_def)
  then show ?thesis
    using assms brought_up_running [OF \<open>inboxes_ok p\<close> _ assms(2,3)]
    by (auto simp: Init_outcome process_inv_def running_def inboxes_ok_def)
qed

lemma running_rehash:
  assumes "running p" "mset reads = mset (cm_cached_reads (rc_cache_manager p))"
    and "mset acks = mset (rc_pending_control_acks p)"
  shows "running (p\<lparr>rc_cache_manager := (rc_cache_manager p)\<lparr>cm_cached_reads := reads, cm_write_queues := queues\<rparr>,
                    rc_pending_control_acks := acks\<rparr>)"
proof -
  have "set reads = set (cm_cached_reads (rc_cache_manager p))" "set acks = set (rc_pending_control_acks p)"
    using assms(2,3) by (metis set_mset_mset)+
  moreover have "distinct (map fst reads) = distinct (map fst (cm_cached_reads (rc_cache_manager p)))"
    using assms(2) by (metis mset_map distinct_count_atmost_1 mset_eq_imp_distinct_iff)
  moreover have "resident_bytes reads = resident_bytes (cm_cached_reads (rc_cache_manager p))"
    unfolding resident_bytes_def using assms(2) by (metis mset_map sum_mset_sum_list)
  ultimately show ?thesis
    using assms(1) by (simp add: running_def stub_inv_def control_inv_def cache_inv_def)
qed

lemma api_step_keeps: "api_step p p' \<Longrightarrow> process_inv p \<Longrightarrow> process_inv p'"
proof (induction rule: api_step.induct)
  case (step_init cfg p)
  then show ?case by (intro process_inv_Init)
next
  case (step_shutdown p)
  then show ?case
    using process_inv_inboxes [of p] Shutdown_initialized [of p] Shutdown_inboxes [of p]
    by (auto simp: process_inv_def lm_shutdown_def RuntimeShutdown_def inboxes_ok_def)
next
  case (step_malloc n p addr p')
  then show ?case
    by (cases "rc_initialized p") (auto simp: process_inv_def lm_malloc_def dest: lm_malloc_running running_init)
next
  case (step_read p addr buf_ok n s bytes p')
  then show ?case
    by (cases "rc_initialized p") (auto simp: process_inv_def lm_read_def dest: lm_read_running running_init)
next
  case (step_write p addr buf n s p')
  then show ?case
    by (cases "rc_initialized p") (auto simp: process_inv_def lm_write_def dest: lm_write_running running_init)
next
  case (step_fence p s p')
  then show ?case
    by (cases "rc_initialized p") (auto simp: process_inv_def lm_fence_def dest: lm_fence_running running_init)
next
  case (step_rehash reads p queues acks)
  then show ?case
    using running_rehash [of p reads acks queues] by (auto simp: process_inv_def inboxes_ok_def running_init split: if_splits)
qed

interpretation api: invariant_system api_step process_inv
  by unfold_locales (rule api_step_keeps)

section \<open>Properties\<close>

definition first_process :: Process where
  "first_process = snd (RuntimeContext_Init initial_process wit_cfg)"

lemma first_process_reachable: "api_step\<^sup>*\<^sup>* initial_process first_process"
  unfolding first_process_def by (intro r_into_rtranclp step_init) (simp_all add: kInvalidNodeId_def)

lemma first_process_up: "first_process = brought_up initial_process wit_cfg"
  by (simp add: first_process_def Init_outcome) (simp add: initial_process_def wit_cfg_def default_config_def)

lemma first_process_initialized: "rc_initialized first_process"
  by (simp add: first_process_up brought_up_def)

text \<open>
  C5: Every reachable initialised process is well-formed. After any sequence of public calls from
  the start of the program, in which every \<^verbatim>\<open>Init\<close> has a local region below \<open>2\<^sup>63\<close> bytes and a
  valid node number and every \<^verbatim>\<open>lm_malloc\<close> asks for at most \<open>2\<^sup>63\<close> bytes less one block, and
  whatever the arguments of the reads and writes and the iteration order of the hash tables,
  the components of an initialised process agree on the configuration, every remote region has the
  configured size, the allocator tiles its region, the cache's key list, table and byte counter
  agree, the inboxes hold at most two messages, all acknowledgements, and every acknowledgement the
  process waits for is in its inbox.
\<close>

theorem reachable_running:
  assumes "api_step\<^sup>*\<^sup>* initial_process p" and "rc_initialized p"
  shows "running p"
  using api.reachable_inv [OF assms(1) initial_process_inv] assms(2) by (simp add: process_inv_def)

theorem reachable_running_witness: "running first_process"
  by (rule reachable_running [OF first_process_reachable first_process_initialized])

text \<open>
  C9: On the stub transport no call times out. In every state the step relation of the public calls
  reaches, a read, a write or a fence
  that returns reports success, an argument error, a range error or that the process is not
  initialised; in particular never \<^verbatim>\<open>kTimedOut\<close>. A write leaves at most two messages in
  the inbox, and after a fence that succeeds no acknowledgement is outstanding.
\<close>

theorem calls_never_time_out:
  assumes "api_step\<^sup>*\<^sup>* initial_process p"
  shows "(lm_read p addr buf_ok n = Some (s, bytes, p') \<longrightarrow> s \<in> {kOk, kNotInitialized, kInvalidArg, kOutOfRange}) \<and>
    (lm_write p addr buf n = Some (s, p') \<longrightarrow>
       s \<in> {kOk, kNotInitialized, kInvalidArg, kOutOfRange} \<and>
       (rc_initialized p \<longrightarrow> length (g_control_inboxes p' (cfg_node_id (rc_config p'))) \<le> 2)) \<and>
    (lm_fence p = Some (s, p') \<longrightarrow> s \<in> {kOk, kNotInitialized, kOutOfRange} \<and>
       (s = kOk \<longrightarrow> rc_pending_control_acks p' = []))"
proof (cases "rc_initialized p")
  case False
  then show ?thesis by (auto simp: lm_read_def lm_write_def lm_fence_def)
next
  case True
  have run: "running p"
    using api.reachable_inv [OF assms initial_process_inv] True by (simp add: process_inv_def)
  have "rc_pending_control_acks p' = []" if "lm_fence p = Some (kOk, p')"
    by (rule lm_fence_settled [OF run that])
  with lm_read_running [OF run, of addr buf_ok n s bytes p'] lm_write_running [OF run, of addr buf n s p']
    lm_fence_running [OF run, of s p'] show ?thesis
    by (auto simp: running_def control_inv_def)
qed

theorem calls_never_time_out_witness:
  "\<exists>p'. lm_fence first_process = Some (kOk, p') \<and> rc_pending_control_acks p' = []"
proof -
  have run: "running first_process"
    using api.reachable_inv [OF first_process_reachable initial_process_inv] first_process_initialized
    by (simp add: process_inv_def)
  have "running (settled first_process)" using live_settled [OF run] live_mono by (auto simp: running_live)
  then have "DrainControl (settled first_process) = Some (kOk, settled (settled first_process))"
    by (simp add: DrainControl_settles running_def)
  then have "lm_fence first_process = Some (kOk, settled (settled first_process))"
    using run by (simp add: lm_fence_def running_def DrainControl_settles)
      (simp add: first_process_up brought_up_def new_CacheManager_def PendingDestinations_def Transport_Fence_def)
  with calls_never_time_out [OF first_process_reachable] show ?thesis by blast
qed

end
