(* ===== verification/Api_Access.thy ===== *)
theory Api_Access
  imports Api_Invariant
begin

text \<open>
  What every access of the public interface shares: the owners the metadata can name, the blocks
  of the range, what a call leaves alone, and the flush of one destination.
\<close>

section \<open>The owners the metadata names\<close>

definition owners_in :: "NodeId set \<Rightarrow> BlockTable \<Rightarrow> bool" where
  "owners_in S table \<longleftrightarrow> (\<forall>bid. bm_owner_node (meta_at table bid) \<in> S)"

lemma owners_in_GetOrCreate [simp]: "owners_in S (GetOrCreate table bid) = owners_in S table"
  by (simp add: owners_in_def)

lemma owners_in_update:
  "owners_in S table \<Longrightarrow> bm_owner_node (f (meta_at table bid)) \<in> S \<Longrightarrow> owners_in S (update_meta table bid f)"
  by (simp add: owners_in_def meta_at_update)

lemma owners_in_updates:
  "owners_in S table \<Longrightarrow> (\<And>m. bm_owner_node m \<in> S \<Longrightarrow> bm_owner_node (f m) \<in> S) \<Longrightarrow>
   owners_in S (update_metas f metas table)"
proof (induction metas arbitrary: table)
  case (Cons bid metas)
  have "owners_in S (update_meta table bid f)"
    using Cons.prems by (intro owners_in_update) (auto simp: owners_in_def)
  with Cons show ?case by simp
qed simp

lemma owners_in_MarkReadValidated: "owners_in S table \<Longrightarrow> owners_in S (MarkReadValidated metas table)"
  by (simp add: MarkReadValidated_def owners_in_updates)

lemma owners_in_DominantOwner:
  "owners_in S table \<Longrightarrow> fallback \<in> S \<Longrightarrow> DominantOwnerNode table metas fallback \<in> S"
  by (auto simp: DominantOwnerNode_def owners_in_def Let_def split: list.split)

lemma owners_in_prepare:
  "bm_owner_node m \<in> S \<Longrightarrow> cfg_node_id cfg \<in> S \<Longrightarrow> ga_home_node addr \<in> S \<Longrightarrow>
   bm_owner_node (prepare_block cfg addr type m) \<in> S"
  by (simp add: prepare_block_def Let_def)

lemma owners_in_apply_write:
  "bm_owner_node m \<in> S \<Longrightarrow> cfg_node_id cfg \<in> S \<Longrightarrow> ga_home_node addr \<in> S \<Longrightarrow>
   bm_owner_node (apply_write_block cfg addr mode m) \<in> S"
  by (simp add: apply_write_block_def Let_def)

lemma owners_in_ApplyWriteMetadata:
  assumes "owners_in S table" "cfg_node_id cfg \<in> S" "ga_home_node addr \<in> S"
  shows "owners_in S (snd (snd (ApplyWriteMetadata cfg addr metas modes (ob, oh, table))))"
  using assms
proof (induction cfg addr metas modes "(ob, oh, table)" arbitrary: ob oh table rule: ApplyWriteMetadata.induct)
  case (1 cfg addr bid metas mode modes ob oh table)
  have "owners_in S (update_meta table bid (apply_write_block cfg addr mode))"
    using 1(2-4) by (intro owners_in_update owners_in_apply_write) (auto simp: owners_in_def)
  then show ?case using 1(1,3,4) by auto
qed simp_all

lemma owners_in_observed:
  "owners_in S (rc_block_table p) \<Longrightarrow> owners_in S (rc_block_table (observed p bid type is_local))"
  by (auto simp: observed_def ObserveAccess_def Let_def observe_profile_def owners_in_def meta_at_update
      split: AccessType.split)

lemma owners_in_ObserveMetas:
  "owners_in S (rc_block_table p) \<Longrightarrow> owners_in S (rc_block_table (snd (ObserveMetas p metas type is_local)))"
  by (induction metas arbitrary: p) (auto simp: ObserveMetas_Cons owners_in_observed)

section \<open>Metadata preparation returns\<close>

lemma PrepareMetadata_returns:
  assumes "bi_block_index (br_last brange) < u64_max"
    and S: "owners_in S (rc_block_table p)" "cfg_node_id (rc_config p) \<in> S" "ga_home_node addr \<in> S"
  shows "\<exists>metas t. PrepareMetadata p brange addr type = Some (metas, p\<lparr>rc_block_table := t\<rparr>) \<and> owners_in S t"
proof -
  let ?I = "\<lambda>s. \<exists>t. snd s = p\<lparr>rc_block_table := t\<rparr> \<and> owners_in S t"
  have "\<exists>s'. foldO (prepare_step addr type) (index_range (bi_block_index (br_first brange)) (bi_block_index (br_last brange)))
      ([], p) = Some s' \<and> ?I s'"
  proof (rule foldO_returns)
    show "?I ([], p)" using S(1) by (auto intro: exI [of _ "rc_block_table p"])
  next
    fix x and s :: "BlockId list \<times> Process"
    assume "?I s"
    then obtain metas t where s: "s = (metas, p\<lparr>rc_block_table := t\<rparr>)" "owners_in S t" by (cases s) auto
    have "owners_in S (update_meta (GetOrCreate t bid) bid (prepare_block (rc_config p) addr type))" for bid
      using s(2) S(2,3) by (intro owners_in_update owners_in_prepare) (auto simp: owners_in_def)
    then show "\<exists>s'. prepare_step addr type x s = Some s' \<and> ?I s'"
      by (auto simp: s(1) prepare_step_def Let_def)
  qed
  then show ?thesis
    using assms(1) by (auto simp: PrepareMetadata_def for_incl_foldO)
qed

section \<open>The layout of a process\<close>

text \<open>What a call leaves alone: the configuration, the size of the region and the allocations.\<close>

definition same_layout :: "Process \<Rightarrow> Process \<Rightarrow> bool" where
  "same_layout p q \<longleftrightarrow> rc_config q = rc_config p \<and> da_cfg (rc_allocator q) = da_cfg (rc_allocator p) \<and>
     da_allocations (rc_allocator q) = da_allocations (rc_allocator p) \<and>
     length (da_region (rc_allocator q)) = length (da_region (rc_allocator p))"

lemma same_layout_refl [simp]: "same_layout p p"
  by (simp add: same_layout_def)

lemma same_layout_trans [trans]: "same_layout p q \<Longrightarrow> same_layout q r \<Longrightarrow> same_layout p r"
  by (simp add: same_layout_def)

lemma same_layout_config: "same_layout p q \<Longrightarrow> rc_config q = rc_config p"
  by (simp add: same_layout_def)

lemma same_layout_addressable: "same_layout p q \<Longrightarrow> addressable q = addressable p"
  using ValidateRange_region [of "rc_allocator q" "rc_allocator p"]
  by (auto simp: addressable_def same_layout_def fun_eq_iff)

lemma same_layout_memory: "memory_update p q \<Longrightarrow> same_layout p q"
  by (auto simp: same_layout_def memory_update_def)

lemma same_layout_control: "control_update p q \<Longrightarrow> same_layout p q"
  by (simp add: same_layout_def control_update_sel)

lemma same_layout_other [simp]:
  "same_layout p (q\<lparr>rc_block_table := t\<rparr>) = same_layout p q" "same_layout p (q\<lparr>rc_stats := st\<rparr>) = same_layout p q"
  "same_layout p (q\<lparr>rc_cache_manager := cm\<rparr>) = same_layout p q"
  by (simp_all add: same_layout_def)

lemma view_other [simp]:
  "view (q\<lparr>rc_block_table := t\<rparr>) = view q" "view (q\<lparr>rc_stats := st\<rparr>) = view q"
  "view (q\<lparr>rc_cache_manager := cm\<rparr>) = view q"
  by (simp_all add: view_def node_bytes_def fun_eq_iff)

lemma view_control: "control_update p q \<Longrightarrow> view q = view p"
  by (simp add: view_def node_bytes_def control_update_sel fun_eq_iff)

lemma addressable_other [simp]:
  "addressable (q\<lparr>rc_block_table := t\<rparr>) = addressable q" "addressable (q\<lparr>rc_stats := st\<rparr>) = addressable q"
  "addressable (q\<lparr>rc_cache_manager := cm\<rparr>) = addressable q"
  by (simp_all add: fun_eq_iff addressable_def)

section \<open>Resolving a range and observing it\<close>

lemma observed_WI:
  "cfg_coherence_mode_override (cm_cfg (rc_cache_manager p)) = mode_int kWI \<Longrightarrow> observed_mode p bid type is_local = kWI"
  by (simp add: observed_mode_def ObserveAccess_def DecideCoherenceMode_def mode_of_int_def Let_def)

lemma Observe_WI:
  assumes "cfg_coherence_mode_override (cm_cfg (rc_cache_manager p)) = mode_int kWI"
  shows "fst (ObserveMetas p metas type is_local) = replicate (length metas) kWI"
  using assms
proof (induction metas arbitrary: p)
  case (Cons bid metas)
  have "cm_cfg (rc_cache_manager (observed p bid type is_local)) = cm_cfg (rc_cache_manager p)"
    using observed_shape [of p bid type is_local] by auto
  with Cons show ?case by (simp add: ObserveMetas_Cons observed_WI)
qed simp

lemma PrepareMetadata_length:
  assumes "PrepareMetadata p brange addr type = Some (metas, q)" "bi_block_index (br_last brange) < u64_max"
  shows "length metas = length (index_range (bi_block_index (br_first brange)) (bi_block_index (br_last brange)))"
proof -
  have "foldO (prepare_step addr type) xs (ms, p) = Some (metas, q) \<Longrightarrow> length metas = length ms + length xs" for xs ms p
    by (induction xs arbitrary: ms p) (auto simp: prepare_step_def Let_def)
  with assms show ?thesis by (fastforce simp: PrepareMetadata_def for_incl_foldO)
qed

lemma range_resolves:
  assumes inv: "stub_inv p" "cfg_block_size (rc_config p) \<noteq> 0" and ok: "addressable p addr n"
  shows "\<exists>brange. ValidateAndResolveRange p addr n = Inr brange \<and>
    bi_block_index (br_first brange) \<le> bi_block_index (br_last brange) \<and> bi_block_index (br_last brange) < u64_max"
proof -
  let ?bs = "cfg_block_size (rc_config p)"
  let ?first = "ga_offset addr div ?bs" and ?last = "(ga_offset addr + n - 1) div ?bs"
  have n: "n \<noteq> 0" "no_wrap (ga_offset addr) n" using ok by (simp_all add: addressable_def in_space_def)
  have "unat (ga_offset addr) + unat n < 2 ^ 63"
    using addressable_bounds [OF inv(1) ok] node_bytes_length [OF inv(1)] stub_inv_small [OF inv(1)] by simp
  moreover have "unat (ga_offset addr + n - 1) = unat (ga_offset addr) + unat n - 1" "0 < unat n"
    using n by (simp_all add: unat_last_byte unat_gt_0)
  ultimately have "unat (ga_offset addr + n - 1) < 2 ^ 63" "unat (ga_offset addr) \<le> unat (ga_offset addr + n - 1)" by simp_all
  then have "unat ?first \<le> unat ?last" "unat ?last < unat u64_max"
    unfolding unat_div unat_u64_max by (simp_all add: div_le_mono le_less_trans [OF div_le_dividend])
  then have idx: "?first \<le> ?last" "?last < u64_max" by (simp_all only: word_le_nat_alt word_less_nat_alt)
  show ?thesis
  proof (cases "ga_home_node addr = cfg_node_id (rc_config p)")
    case True
    with ok inv n idx show ?thesis
      by (auto simp: ValidateAndResolveRange_def Allocator_ResolveBlockRange_def addressable_def Let_def stub_inv_def)
  next
    case False
    with inv n idx show ?thesis by (simp add: ValidateAndResolveRange_def ResolveBlockRange_def Let_def)
  qed
qed

text \<open>The common beginning of a read and a write: the range, its metadata, the modes.\<close>

lemma access_front:
  assumes inv: "stub_inv p" "cfg_block_size (rc_config p) \<noteq> 0" and ok: "addressable p addr n"
    and S: "owners_in S (rc_block_table p)" "cfg_node_id (rc_config p) \<in> S" "ga_home_node addr \<in> S"
  obtains brange metas q modes t st e where "ValidateAndResolveRange p addr n = Inr brange"
    "PrepareMetadata p brange addr type = Some (metas, q)"
    "ObserveMetas q metas type is_local = (modes, p\<lparr>rc_block_table := t, rc_stats := st,
       rc_cache_manager := (rc_cache_manager p)\<lparr>cm_access_epoch := e\<rparr>\<rparr>)"
    "owners_in S t"
    "cfg_coherence_mode_override (cm_cfg (rc_cache_manager p)) = mode_int kWI \<Longrightarrow>
       HasMode modes kWI \<and> \<not> HasMode modes kAdaptive"
proof -
  obtain brange where range: "ValidateAndResolveRange p addr n = Inr brange"
    and idx: "bi_block_index (br_first brange) \<le> bi_block_index (br_last brange)" "bi_block_index (br_last brange) < u64_max"
    using range_resolves [OF inv ok] by blast
  from PrepareMetadata_returns [OF idx(2) S, of type] obtain metas t where
    prep: "PrepareMetadata p brange addr type = Some (metas, p\<lparr>rc_block_table := t\<rparr>)" and t: "owners_in S t" by auto
  let ?q = "p\<lparr>rc_block_table := t\<rparr>"
  obtain modes q' where obs: "ObserveMetas ?q metas type is_local = (modes, q')" by force
  obtain t' st e where q': "q' = p\<lparr>rc_block_table := t', rc_stats := st,
      rc_cache_manager := (rc_cache_manager p)\<lparr>cm_access_epoch := e\<rparr>\<rparr>"
    using ObserveMetas_shape [of ?q metas type is_local] obs by auto
  have "owners_in S t'" using owners_in_ObserveMetas [of S ?q metas type is_local] t obs q' by simp
  moreover have "HasMode modes kWI \<and> \<not> HasMode modes kAdaptive"
    if "cfg_coherence_mode_override (cm_cfg (rc_cache_manager p)) = mode_int kWI"
  proof -
    have "length metas \<noteq> 0" using PrepareMetadata_length [OF prep idx(2)] idx by (simp add: index_range_Cons)
    moreover have "modes = replicate (length metas) kWI"
      using Observe_WI [of ?q metas type is_local] that obs by simp
    ultimately show ?thesis by (simp add: HasMode_def list_ex_iff)
  qed
  ultimately show thesis using that [OF range prep obs [unfolded q']] by blast
qed

section \<open>The metadata of a write\<close>

lemma threshold_le: "MostAggressiveBatchThreshold cfg modes \<le> EffectiveBatchThreshold cfg kSI"
proof -
  have "fold (\<lambda>mode t. min t (EffectiveBatchThreshold cfg mode)) modes t \<le> t" for t
    by (induction modes arbitrary: t) (simp_all, meson min.boundedE)
  then show ?thesis by (simp add: MostAggressiveBatchThreshold_def)
qed

lemma ApplyWriteMetadata_biased:
  "fst (ApplyWriteMetadata cfg addr metas modes (ob, oh, table)) \<Longrightarrow> ob \<or> HasMode modes kAdaptive"
proof (induction cfg addr metas modes "(ob, oh, table)" arbitrary: ob oh table rule: ApplyWriteMetadata.induct)
  case (1 cfg addr bid metas mode modes ob oh table)
  show ?case
  proof (cases "mode = kAdaptive")
    case True
    then show ?thesis by (simp add: HasMode_def)
  next
    case False
    with 1 show ?thesis by (auto simp: HasMode_def)
  qed
qed simp_all

section \<open>Flushing a destination\<close>

text \<open>A queued write that its destination can take.\<close>

definition deliverable :: "Process \<Rightarrow> PendingRemoteWrite \<Rightarrow> bool" where
  "deliverable p w \<longleftrightarrow> write_ok w \<and> addressable p (pw_addr w) (payload_size w)"

text \<open>For a write to another node: its bytes lie in the region.\<close>

lemma deliverable_bytes:
  assumes "write_ok w" "ga_home_node (pw_addr w) \<noteq> cfg_node_id (rc_config p)"
  shows "deliverable p w \<longleftrightarrow> (\<forall>region x. writes_byte w (ga_home_node (pw_addr w)) region x \<longrightarrow>
    region = kDefaultRegionId \<and> x < unat (cfg_local_region_size (rc_config p)))"
proof -
  let ?lo = "unat (ga_offset (pw_addr w))" and ?n = "length (pw_payload w)"
  have sp: "in_space (pw_addr w) (payload_size w)" "0 < ?n" "unat (payload_size w) = ?n"
    using assms(1) write_ok_nat(1) [OF assms(1)]
    by (auto simp: in_space_def no_wrap_def write_ok_def unat_eq_zero simp flip: unat_eq_0)
  have "?lo + ?n \<le> L \<longleftrightarrow> (\<forall>x. ?lo \<le> x \<and> x < ?lo + ?n \<longrightarrow> x < L)" for L
  proof
    assume "\<forall>x. ?lo \<le> x \<and> x < ?lo + ?n \<longrightarrow> x < L"
    from this [THEN spec, of "?lo + ?n - 1"] sp(2) show "?lo + ?n \<le> L" by linarith
  qed auto
  with assms sp show ?thesis
    by (auto simp: deliverable_def addressable_def writes_byte_def in_bytes_def)
qed

lemma batch_stores:
  "list_all write_ok ws \<Longrightarrow>
   fold (\<lambda>req M. store M (rr_addr req) (take (unat (rr_size req)) (rr_buf req))) (map request_of ws) M = apply_writes ws M"
  by (induction ws arbitrary: M) (simp_all add: request_of_def apply_write_def write_ok_nat)

lemma Flush_effect:
  assumes live: "live k p" and ok: "list_all (deliverable p) (queue_of (rc_cache_manager p) node)"
  shows "\<exists>q. FlushDestination p node = Some (kOk, q) \<and> live k q \<and> same_layout p q \<and>
    view q = apply_writes (queue_of (rc_cache_manager p) node) (view p) \<and>
    rc_cache_manager q = snd (DrainRemoteWrites (rc_cache_manager p) node) \<and> rc_block_table q = rc_block_table p"
proof -
  let ?ws = "queue_of (rc_cache_manager p) node"
  obtain batch cm where drain: "DrainRemoteWrites (rc_cache_manager p) node = (batch, cm)" by force
  have ws: "db_writes batch = ?ws" using Drain_queue_of(1) [of "rc_cache_manager p" node] drain by simp
  let ?p = "p\<lparr>rc_cache_manager := cm\<rparr>"
  have live': "live k ?p"
    using live_cache [OF live Drain_kept(1) [of "rc_cache_manager p" node]] drain by simp
  have reqs: "list_all (\<lambda>req. addressable ?p (rr_addr req) (rr_size req) \<and> unat (rr_size req) \<le> length (rr_buf req))
      (map request_of ?ws)"
    using ok by (auto simp: list_all_iff request_of_def deliverable_def write_ok_nat)
  have oks: "list_all write_ok ?ws" using ok by (auto simp: list_all_iff deliverable_def)
  from stub.batch_effect [OF live_parts(1) [OF live'] reqs] batch_stores [OF oks] obtain q where
    q: "Transport_BatchWrite ?p (map request_of ?ws) = Some (kOk, q)" "stub_inv q" "memory_update ?p q"
      "view q = apply_writes ?ws (view p)" by auto
  have "live k q" "same_layout p q" "rc_cache_manager q = cm" "rc_block_table q = rc_block_table p"
    using live_memory [OF live' q(3,2)] same_layout_memory [OF q(3)] memory_update_sel [OF q(3)]
    by (simp_all add: same_layout_def)
  moreover have "Transport_BatchWrite ?p [] = Some (kOk, ?p)" by (rule stub.batch_Nil [OF live_parts(1) [OF live']])
  ultimately show ?thesis
    using q unfolding FlushDestination_def by (cases "?ws = []") (auto simp: drain ws Let_def)
qed

lemma Pending_distinct: "queues_inv cm \<Longrightarrow> distinct (PendingDestinations cm)"
  by (auto simp: queues_inv_def PendingDestinations_def intro: distinct_map_filter_fst)

end
