(* ===== verification/Fenced_Memory.thy ===== *)
theory Fenced_Memory
  imports Global_Memory
begin

text \<open>
  The contract of a memory that may delay writes until a fence. A client that does not touch a
  remote range again between writing it and the next fence sees one flat memory.
\<close>

section \<open>Programs with fences\<close>

datatype sync_event = Access mem_event | FenceEv

fun accesses :: "sync_event list \<Rightarrow> mem_event list" where
  "accesses [] = []"
| "accesses (Access ev # evs) = ev # accesses evs"
| "accesses (FenceEv # evs) = accesses evs"

text \<open>The statuses of the calls, the bytes the reads return and the final state.\<close>

fun sync_run ::
    "('p \<Rightarrow> GlobalAddr \<Rightarrow> u64 \<Rightarrow> (Status \<times> byte list \<times> 'p) option) \<Rightarrow>
     ('p \<Rightarrow> GlobalAddr \<Rightarrow> byte list \<Rightarrow> u64 \<Rightarrow> (Status \<times> 'p) option) \<Rightarrow> ('p \<Rightarrow> (Status \<times> 'p) option) \<Rightarrow>
     'p \<Rightarrow> sync_event list \<Rightarrow> (Status list \<times> byte list list \<times> 'p) option" where
  "sync_run rd wr fe p [] = Some ([], [], p)"
| "sync_run rd wr fe p (Access (ReadEv addr n) # evs) =
     do { (s, bytes, p) \<leftarrow> rd p addr n;
          (ss, out, p) \<leftarrow> sync_run rd wr fe p evs;
          Some (s # ss, bytes # out, p) }"
| "sync_run rd wr fe p (Access (WriteEv addr bs) # evs) =
     do { (s, p) \<leftarrow> wr p addr bs (of_nat (length bs));
          (ss, out, p) \<leftarrow> sync_run rd wr fe p evs;
          Some (s # ss, out, p) }"
| "sync_run rd wr fe p (FenceEv # evs) =
     do { (s, p) \<leftarrow> fe p;
          (ss, out, p) \<leftarrow> sync_run rd wr fe p evs;
          Some (s # ss, out, p) }"

text \<open>Two ranges share a byte.\<close>

definition meet :: "GlobalAddr \<Rightarrow> nat \<Rightarrow> GlobalAddr \<Rightarrow> nat \<Rightarrow> bool" where
  "meet a m b n \<longleftrightarrow> ga_home_node a = ga_home_node b \<and> ga_region_id a = ga_region_id b \<and>
     unat (ga_offset a) < unat (ga_offset b) + n \<and> unat (ga_offset b) < unat (ga_offset a) + m"

lemma in_bytes_meet: "in_bytes a m node region x \<Longrightarrow> in_bytes b n node region x \<Longrightarrow> meet a m b n"
  by (auto simp: in_bytes_def meet_def)

text \<open>
  No read touches a remote range written since the last fence, and unless \<open>again\<close> no write does.
  \<open>dirty\<close> holds the ranges written since then, \<open>here\<close> is the local node.
\<close>

definition clean :: "(GlobalAddr \<times> nat) list \<Rightarrow> GlobalAddr \<Rightarrow> nat \<Rightarrow> bool" where
  "clean dirty addr n = list_all (\<lambda>(a, m). \<not> meet a m addr n) dirty"

fun fenced :: "bool \<Rightarrow> NodeId \<Rightarrow> (GlobalAddr \<times> nat) list \<Rightarrow> sync_event list \<Rightarrow> bool" where
  "fenced again here dirty [] = True"
| "fenced again here dirty (Access (ReadEv addr n) # evs) = (clean dirty addr (unat n) \<and> fenced again here dirty evs)"
| "fenced again here dirty (Access (WriteEv addr bs) # evs) =
     ((again \<or> clean dirty addr (length bs)) \<and>
      fenced again here (if ga_home_node addr = here then dirty else (addr, length bs) # dirty) evs)"
| "fenced again here dirty (FenceEv # evs) = fenced again here [] evs"

text \<open>Every byte a delayed write touches lies in a dirty range.\<close>

definition tracked :: "(GlobalAddr \<times> nat) list \<Rightarrow> (NodeId \<Rightarrow> RegionId \<Rightarrow> nat \<Rightarrow> bool) \<Rightarrow> bool" where
  "tracked dirty bytes \<longleftrightarrow> (\<forall>node region x. bytes node region x \<longrightarrow> (\<exists>(a, m) \<in> set dirty. in_bytes a m node region x))"

lemma clean_not_tracked:
  "tracked dirty bytes \<Longrightarrow> clean dirty addr n \<Longrightarrow> bytes node region x \<Longrightarrow> \<not> in_bytes addr n node region x"
  using in_bytes_meet [of _ _ node region x addr n] by (fastforce simp: tracked_def clean_def list_all_iff)

section \<open>The contract\<close>

text \<open>
  \<open>mem\<close> is the memory once every delayed write has arrived, \<open>late\<close> the bytes a delayed write
  touches; \<open>again\<close> allows a write to touch such bytes.
\<close>

locale fenced_memory =
  fixes rd :: "'p \<Rightarrow> GlobalAddr \<Rightarrow> u64 \<Rightarrow> (Status \<times> byte list \<times> 'p) option"
    and wr :: "'p \<Rightarrow> GlobalAddr \<Rightarrow> byte list \<Rightarrow> u64 \<Rightarrow> (Status \<times> 'p) option"
    and fe :: "'p \<Rightarrow> (Status \<times> 'p) option"
    and mem :: "'p \<Rightarrow> Memory"
    and late :: "'p \<Rightarrow> NodeId \<Rightarrow> RegionId \<Rightarrow> nat \<Rightarrow> bool"
    and here :: "'p \<Rightarrow> NodeId"
    and usable :: "'p \<Rightarrow> GlobalAddr \<Rightarrow> u64 \<Rightarrow> bool"
    and good :: "'p \<Rightarrow> bool"
    and kept :: "'p \<Rightarrow> 'p \<Rightarrow> bool"
    and again :: bool
  assumes read_usable:
      "good p \<Longrightarrow> usable p addr n \<Longrightarrow> (\<And>node region x. late p node region x \<Longrightarrow> \<not> in_bytes addr (unat n) node region x) \<Longrightarrow>
       \<exists>p'. rd p addr n = Some (kOk, load (mem p) addr (unat n), p') \<and> good p' \<and> mem p' = mem p \<and> kept p p' \<and> late p' = late p"
    and write_usable:
      "good p \<Longrightarrow> usable p addr n \<Longrightarrow> again \<or> (\<forall>node region x. late p node region x \<longrightarrow> \<not> in_bytes addr (unat n) node region x) \<Longrightarrow>
       unat n = length bs \<Longrightarrow>
       \<exists>p'. wr p addr bs n = Some (kOk, p') \<and> good p' \<and> mem p' = store (mem p) addr bs \<and> kept p p' \<and>
         (\<forall>node region x. late p' node region x \<longrightarrow> late p node region x \<or> in_bytes addr (length bs) node region x)"
    and fence_returns:
      "good p \<Longrightarrow> \<exists>p'. fe p = Some (kOk, p') \<and> good p' \<and> mem p' = mem p \<and> kept p p' \<and> (\<forall>node region x. \<not> late p' node region x)"
    and late_remote: "good p \<Longrightarrow> late p node region x \<Longrightarrow> node \<noteq> here p"
    and kept_refl: "kept p p"
    and kept_trans: "kept p q \<Longrightarrow> kept q r \<Longrightarrow> kept p r"
    and kept_usable: "kept p q \<Longrightarrow> usable q = usable p"
    and kept_here: "kept p q \<Longrightarrow> here q = here p"
begin

lemma tracked_write:
  assumes "tracked dirty (late p)" "good p'" "here p' = here p"
    and "\<forall>node region x. late p' node region x \<longrightarrow> late p node region x \<or> in_bytes addr n node region x"
  shows "tracked (if ga_home_node addr = here p then dirty else (addr, n) # dirty) (late p')"
  unfolding tracked_def
proof (intro allI impI)
  fix node region x
  assume late: "late p' node region x"
  then have "node \<noteq> here p" using late_remote [OF assms(2)] assms(3) by simp
  with assms(1,4) late show "\<exists>(a, m) \<in> set (if ga_home_node addr = here p then dirty else (addr, n) # dirty). in_bytes a m node region x"
    by (force simp: tracked_def in_bytes_def)
qed

lemma fenced_refines:
  assumes "good p" "list_all (event_usable (usable p)) (accesses evs)" "tracked dirty (late p)" "fenced again (here p) dirty evs"
  shows "\<exists>p'. sync_run rd wr fe p evs = Some (replicate (length evs) kOk, fst (memory_run (mem p) (accesses evs)), p') \<and>
    mem p' = snd (memory_run (mem p) (accesses evs)) \<and> good p' \<and> kept p p'"
  using assms
proof (induction evs arbitrary: p dirty)
  case Nil
  then show ?case using kept_refl by simp
next
  case (Cons ev evs)
  have rest: "\<exists>p'. sync_run rd wr fe q evs = Some (replicate (length evs) kOk, fst (memory_run (mem q) (accesses evs)), p') \<and>
      mem p' = snd (memory_run (mem q) (accesses evs)) \<and> good p' \<and> kept p p'"
    if "good q" "kept p q" "tracked dirty' (late q)" "fenced again (here p) dirty' evs" "list_all (event_usable (usable p)) (accesses evs)" for q dirty'
    using Cons.IH [OF that(1) _ that(3)] that kept_usable [OF that(2)] kept_here [OF that(2)] kept_trans [OF that(2)] by metis
  consider addr n where "ev = Access (ReadEv addr n)" | addr bs where "ev = Access (WriteEv addr bs)" | "ev = FenceEv"
    by (metis sync_event.exhaust mem_event.exhaust)
  then show ?case
  proof cases
    case (1 addr n)
    with Cons.prems have ok: "usable p addr n" "clean dirty addr (unat n)" "fenced again (here p) dirty evs"
      "list_all (event_usable (usable p)) (accesses evs)" by simp_all
    from read_usable [OF Cons.prems(1) ok(1) clean_not_tracked [OF Cons.prems(3) ok(2)]] obtain q where
      q: "rd p addr n = Some (kOk, load (mem p) addr (unat n), q)" "good q" "mem q = mem p" "kept p q" "late q = late p" by blast
    from rest [OF q(2,4) _ ok(3,4)] Cons.prems(3) q(5) show ?thesis by (auto simp: 1 q(1,3) tracked_def split_beta)
  next
    case (2 addr bs)
    with Cons.prems have ok: "usable p addr (of_nat (length bs))" "unat (of_nat (length bs) :: u64) = length bs"
      "again \<or> clean dirty addr (length bs)" "list_all (event_usable (usable p)) (accesses evs)"
      "fenced again (here p) (if ga_home_node addr = here p then dirty else (addr, length bs) # dirty) evs"
      by (simp_all add: unat_of_nat_u64)
    have "again \<or> (\<forall>node region x. late p node region x \<longrightarrow> \<not> in_bytes addr (unat (of_nat (length bs) :: u64)) node region x)"
      using ok(3) clean_not_tracked [OF Cons.prems(3)] unfolding ok(2) by blast
    from write_usable [OF Cons.prems(1) ok(1) this ok(2)] obtain q where
      q: "wr p addr bs (of_nat (length bs)) = Some (kOk, q)" "good q" "mem q = store (mem p) addr bs" "kept p q"
        "\<forall>node region x. late q node region x \<longrightarrow> late p node region x \<or> in_bytes addr (length bs) node region x" by blast
    from rest [OF q(2,4) tracked_write [OF Cons.prems(3) q(2) kept_here [OF q(4)] q(5)] ok(5,4)]
    show ?thesis by (auto simp: 2 q(1,3))
  next
    case 3
    with Cons.prems have ok: "fenced again (here p) [] evs" "list_all (event_usable (usable p)) (accesses evs)" by simp_all
    from fence_returns [OF Cons.prems(1)] obtain q where
      q: "fe p = Some (kOk, q)" "good q" "mem q = mem p" "kept p q" "\<forall>node region x. \<not> late q node region x" by blast
    then have "tracked [] (late q)" by (simp add: tracked_def)
    from rest [OF q(2,4) this ok] show ?thesis by (auto simp: 3 q(1,3))
  qed
qed

end

end
