(* ===== verification/Api_Refinement.thy ===== *)
theory Api_Refinement
  imports Api_Access Fenced_Memory
begin

text \<open>
  The public interface as a memory. A process talks to one other node. Its memory is what the
  regions hold after the queued writes are delivered. Accesses to given objects keep the cached
  copies equal to that memory, and an access to bytes no queued write touches is one of it.
\<close>

section \<open>Configurations and objects\<close>

text \<open>
  The configurations in which nothing keeps a copy: no cache, or every block in write-invalidate
  mode; and those that queue nothing: no batching, or batches of one.
\<close>

definition uncached :: "Config \<Rightarrow> bool" where
  "uncached cfg \<longleftrightarrow> \<not> cfg_enable_cache cfg \<or> cfg_coherence_mode_override cfg = mode_int kWI"

definition write_through :: "Config \<Rightarrow> bool" where
  "write_through cfg \<longleftrightarrow> \<not> cfg_enable_write_batching cfg \<or> cfg_coherence_mode_override cfg = mode_int kWI \<or>
     cfg_remote_write_batch_threshold cfg \<le> 1"

text \<open>The objects of a program: ranges that are equal or do not overlap.\<close>

definition disjoint_objects :: "(GlobalAddr \<times> u64) set \<Rightarrow> bool" where
  "disjoint_objects objs \<longleftrightarrow> (\<forall>(a, m) \<in> objs. \<forall>(b, n) \<in> objs. (a, m) = (b, n) \<or> \<not> RangesOverlap a m b n)"

section \<open>Tidy processes\<close>

text \<open>The memory of a process: its regions after the writes queued for the other node.\<close>

definition logical :: "NodeId \<Rightarrow> Process \<Rightarrow> Memory" where
  "logical r p = apply_writes (queue_of (rc_cache_manager p) r) (view p)"

definition queues_ok :: "NodeId \<Rightarrow> Process \<Rightarrow> bool" where
  "queues_ok r p \<longleftrightarrow> queues_inv (rc_cache_manager p) \<and> (\<forall>node. node \<noteq> r \<longrightarrow> queue_of (rc_cache_manager p) node = []) \<and>
     list_all (deliverable p) (queue_of (rc_cache_manager p) r)"

text \<open>The cached copies: of remote objects, and of the bytes of the memory \<open>M\<close>.\<close>

definition copies_ok :: "(GlobalAddr \<times> u64) set \<Rightarrow> Memory \<Rightarrow> CacheManager \<Rightarrow> bool" where
  "copies_ok objs M cm \<longleftrightarrow> coherent M cm \<and> (uncached (cm_cfg cm) \<longrightarrow> cm_cached_reads cm = []) \<and>
     (\<forall>(key, payload) \<in> set (cm_cached_reads cm).
        (ck_addr key, ck_size key) \<in> objs \<and> ga_home_node (ck_addr key) \<noteq> cfg_node_id (cm_cfg cm))"

definition ready :: "(GlobalAddr \<times> u64) set \<Rightarrow> NodeId \<Rightarrow> nat \<Rightarrow> Process \<Rightarrow> bool" where
  "ready objs r k p \<longleftrightarrow> live k p \<and> cfg_block_size (rc_config p) \<noteq> 0 \<and>
     (uncached (rc_config p) \<or> disjoint_objects objs) \<and> r \<noteq> kInvalidNodeId \<and> r \<noteq> cfg_node_id (rc_config p) \<and>
     owners_in {kInvalidNodeId, cfg_node_id (rc_config p), r} (rc_block_table p) \<and>
     queues_ok r p \<and> (spaced_objects objs \<longrightarrow> keyed objs (queue_of (rc_cache_manager p) r)) \<and>
     copies_ok objs (logical r p) (rc_cache_manager p)"

text \<open>Between two calls a process that writes through has nothing queued.\<close>

definition tidy :: "(GlobalAddr \<times> u64) set \<Rightarrow> NodeId \<Rightarrow> nat \<Rightarrow> Process \<Rightarrow> bool" where
  "tidy objs r k p \<longleftrightarrow> ready objs r k p \<and>
     (write_through (rc_config p) \<longrightarrow> queue_of (rc_cache_manager p) r = [])"

text \<open>What an access that writes nothing leaves alone.\<close>

definition unchanged :: "Process \<Rightarrow> Process \<Rightarrow> bool" where
  "unchanged p q \<longleftrightarrow> same_layout p q \<and> view q = view p \<and>
     cm_write_queues (rc_cache_manager q) = cm_write_queues (rc_cache_manager p)"

lemma unchanged_refl [simp]: "unchanged p p"
  by (simp add: unchanged_def)

lemma unchanged_trans [trans]: "unchanged p q \<Longrightarrow> unchanged q s \<Longrightarrow> unchanged p s"
  by (auto simp: unchanged_def intro: same_layout_trans)

lemma unchanged_other [simp]:
  "unchanged p (q\<lparr>rc_block_table := t\<rparr>) = unchanged p q" "unchanged p (q\<lparr>rc_stats := st\<rparr>) = unchanged p q"
  by (simp_all add: unchanged_def)

lemma unchanged_cache [simp]:
  "unchanged p (q\<lparr>rc_cache_manager := cm\<rparr>) \<longleftrightarrow>
     same_layout p q \<and> view q = view p \<and> cm_write_queues cm = cm_write_queues (rc_cache_manager p)"
  by (simp add: unchanged_def)

lemma queue_of_queues: "cm_write_queues cm' = cm_write_queues cm \<Longrightarrow> queue_of cm' = queue_of cm"
  by (simp add: queue_of_def fun_eq_iff)

lemma queues_inv_queues: "cm_write_queues cm' = cm_write_queues cm \<Longrightarrow> queues_inv cm' = queues_inv cm"
  by (simp add: queues_inv_def)

lemma same_layout_deliverable: "same_layout p q \<Longrightarrow> deliverable q = deliverable p"
  using same_layout_addressable [of p q] by (simp add: deliverable_def fun_eq_iff)

lemma unchanged_sel:
  assumes "unchanged p q"
  shows "same_layout p q" "view q = view p" "rc_config q = rc_config p" "addressable q = addressable p"
    "queue_of (rc_cache_manager q) = queue_of (rc_cache_manager p)" "logical r q = logical r p" "queues_ok r q = queues_ok r p"
proof -
  show lay: "same_layout p q" and v: "view q = view p" using assms by (simp_all add: unchanged_def)
  show cfg: "rc_config q = rc_config p" and "addressable q = addressable p"
    using same_layout_config [OF lay] same_layout_addressable [OF lay] by simp_all
  show qs: "queue_of (rc_cache_manager q) = queue_of (rc_cache_manager p)"
    by (rule queue_of_queues) (use assms in \<open>simp add: unchanged_def\<close>)
  show "logical r q = logical r p" by (simp add: logical_def qs v)
  show "queues_ok r q = queues_ok r p"
    using assms queues_inv_queues [of "rc_cache_manager q" "rc_cache_manager p"] same_layout_deliverable [OF lay]
    by (simp add: queues_ok_def qs cfg unchanged_def)
qed

lemma copies_ok_reads:
  "copies_ok objs M cm \<Longrightarrow> set (cm_cached_reads cm') \<subseteq> set (cm_cached_reads cm) \<Longrightarrow> cm_cfg cm' = cm_cfg cm \<Longrightarrow>
   copies_ok objs M cm'"
  by (auto simp: copies_ok_def intro: coherent_subset)

lemma tidy_parts:
  assumes "tidy objs r k p"
  shows "live k p" "stub_inv p" "cm_cfg (rc_cache_manager p) = rc_config p" "cache_inv (rc_cache_manager p)"
    "queues_ok r p" "copies_ok objs (logical r p) (rc_cache_manager p)" "r \<noteq> cfg_node_id (rc_config p)"
    "coherent (logical r p) (rc_cache_manager p)" "spaced_objects objs \<longrightarrow> keyed objs (queue_of (rc_cache_manager p) r)"
  using assms by (simp_all add: tidy_def ready_def live_def) (simp add: copies_ok_def)

text \<open>The frame rule of tidy processes.\<close>

lemma tidy_frame:
  assumes p: "tidy objs r k p" and q: "unchanged p q" "live m q"
    and owners: "owners_in {kInvalidNodeId, cfg_node_id (rc_config p), r} (rc_block_table q)"
    and copies: "copies_ok objs (logical r p) (rc_cache_manager q)"
  shows "tidy objs r m q"
  using p q(2) owners copies unchanged_sel(3,5,6,7) [OF q(1)] by (simp add: tidy_def ready_def)

lemma tidy_owners: "tidy objs r k p \<Longrightarrow> owners_in {kInvalidNodeId, cfg_node_id (rc_config p), r} (rc_block_table p)"
  by (simp add: tidy_def ready_def)

lemma tidy_stats [simp]: "tidy objs r k (p\<lparr>rc_stats := st\<rparr>) = tidy objs r k p"
  by (simp add: tidy_def ready_def queues_ok_def logical_def deliverable_def [abs_def])

lemma tidy_table:
  "tidy objs r k p \<Longrightarrow> owners_in {kInvalidNodeId, cfg_node_id (rc_config p), r} t \<Longrightarrow>
   tidy objs r k (p\<lparr>rc_block_table := t\<rparr>)"
  by (rule tidy_frame [of objs r k p]) (simp_all add: tidy_parts)

lemma tidy_updates:
  "tidy objs r k p \<Longrightarrow> (\<And>m. bm_owner_node (f m) = bm_owner_node m) \<Longrightarrow>
   tidy objs r k (p\<lparr>rc_block_table := update_metas f metas (rc_block_table p)\<rparr>)"
  by (intro tidy_table) (auto simp: tidy_def ready_def intro!: owners_in_updates)

lemma tidy_cache:
  assumes p: "tidy objs r k p" and cm: "cache_kept (rc_cache_manager p) cm"
    "cm_write_queues cm = cm_write_queues (rc_cache_manager p)" "copies_ok objs (logical r p) cm"
  shows "tidy objs r k (p\<lparr>rc_cache_manager := cm\<rparr>)"
  by (rule tidy_frame [OF p]) (simp_all add: cm tidy_owners [OF p] live_cache [OF tidy_parts(1) [OF p]])

lemma tidy_mono: "tidy objs r k p \<Longrightarrow> k \<le> m \<Longrightarrow> tidy objs r m p"
  using live_mono [of k p m] by (simp add: tidy_def ready_def)

text \<open>The accesses of a program: to an object of this node or of the other one.\<close>

definition in_reach :: "(GlobalAddr \<times> u64) set \<Rightarrow> NodeId \<Rightarrow> Process \<Rightarrow> GlobalAddr \<Rightarrow> u64 \<Rightarrow> bool" where
  "in_reach objs r p addr n \<longleftrightarrow> addressable p addr n \<and> ga_home_node addr \<in> {cfg_node_id (rc_config p), r} \<and> (addr, n) \<in> objs"

text \<open>No queued write touches the range.\<close>

definition unqueued :: "Process \<Rightarrow> GlobalAddr \<Rightarrow> u64 \<Rightarrow> bool" where
  "unqueued p addr n \<longleftrightarrow> list_all (\<lambda>w. \<forall>node region x. \<not> (writes_byte w node region x \<and> in_bytes addr (unat n) node region x))
     (queue_of (rc_cache_manager p) (ga_home_node addr))"

lemma unqueued_same: "unchanged p q \<Longrightarrow> unqueued q = unqueued p"
  by (simp add: unqueued_def fun_eq_iff unchanged_sel(5))

lemma unqueued_empty: "queue_of (rc_cache_manager p) (ga_home_node addr) = [] \<Longrightarrow> unqueued p addr n"
  by (simp add: unqueued_def)

lemma unqueued_other:
  assumes "queues_ok r p" "unqueued p addr n" "w \<in> set (queue_of (rc_cache_manager p) r)"
  shows "\<not> (writes_byte w node region x \<and> in_bytes addr (unat n) node region x)"
proof -
  have "ga_home_node (pw_addr w) = r"
    using queues_inv_queue [of "rc_cache_manager p" r] assms(1,3) by (auto simp: queues_ok_def list_all_iff)
  then have "\<not> writes_byte w (ga_home_node addr) region x" if "ga_home_node addr \<noteq> r" for region x
    using that by (simp add: writes_byte_def in_bytes_def)
  with assms show ?thesis by (auto simp: unqueued_def list_all_iff in_bytes_def)
qed

lemma load_cong: "(\<And>i. i < n \<Longrightarrow> M (ga_home_node a) (ga_region_id a) (unat (ga_offset a) + i) =
   N (ga_home_node a) (ga_region_id a) (unat (ga_offset a) + i)) \<Longrightarrow> load M a n = load N a n"
  by (simp add: list_eq_iff_nth_eq)

lemma logical_load:
  assumes "queues_ok r p" "unqueued p addr n"
  shows "load (logical r p) addr (unat n) = load (view p) addr (unat n)"
  unfolding logical_def
proof (intro load_cong apply_writes_uncovered)
  fix i w
  assume "i < unat n" "w \<in> set (queue_of (rc_cache_manager p) r)"
  with unqueued_other [OF assms, of w "ga_home_node addr" "ga_region_id addr" "unat (ga_offset addr) + i"]
  show "\<not> writes_byte w (ga_home_node addr) (ga_region_id addr) (unat (ga_offset addr) + i)" by (simp add: in_bytes_def)
qed

lemma logical_empty: "queue_of (rc_cache_manager p) r = [] \<Longrightarrow> logical r p = view p"
  by (simp add: logical_def)

text \<open>A write may also hit a queued range when the objects do not touch each other.\<close>

definition writable :: "(GlobalAddr \<times> u64) set \<Rightarrow> Process \<Rightarrow> GlobalAddr \<Rightarrow> u64 \<Rightarrow> bool" where
  "writable objs p addr n \<longleftrightarrow> unqueued p addr n \<or> spaced_objects objs"

lemma writable_same: "unchanged p q \<Longrightarrow> writable objs q = writable objs p"
  by (simp add: writable_def unqueued_same fun_eq_iff)

lemma writableI: "unqueued p addr n \<Longrightarrow> writable objs p addr n"
  by (simp add: writable_def)

section \<open>Reads\<close>

lemma tidy_memory:
  assumes p: "tidy objs r k p" and q: "memory_update p q" "stub_inv q" "view q = view p"
  shows "tidy objs r k q" "unchanged p q"
proof -
  show u: "unchanged p q" using same_layout_memory [OF q(1)] q(3) by (simp add: unchanged_def memory_update_sel [OF q(1)])
  show "tidy objs r k q"
    by (rule tidy_frame [OF p u live_memory [OF tidy_parts(1) [OF p] q(1,2)]])
       (simp_all add: memory_update_sel [OF q(1)] tidy_owners [OF p] tidy_parts [OF p])
qed

lemma tidy_Read:
  assumes p: "tidy objs r k p" and ok: "addressable p addr n" "unqueued p addr n"
  shows "\<exists>q. Transport_Read p addr n = Some (kOk, load (logical r p) addr (unat n), q) \<and> tidy objs r k q \<and> unchanged p q"
  using stub.read_usable [OF tidy_parts(2) [OF p] ok(1)] tidy_memory [OF p]
  unfolding logical_load [OF tidy_parts(5) [OF p] ok(2)] by blast

lemma tidy_hit:
  assumes p: "tidy objs r k p" and sp: "in_space addr n"
  shows "\<exists>hit cm. (if c then TryReadCached (rc_cache_manager p) addr True n else Some (None, rc_cache_manager p)) = Some (hit, cm) \<and>
    (hit = None \<or> hit = Some (load (logical r p) addr (unat n))) \<and>
    tidy objs r k (p\<lparr>rc_cache_manager := cm\<rparr>) \<and> unchanged p (p\<lparr>rc_cache_manager := cm\<rparr>)"
proof (cases c)
  case True
  from TryReadCached_coherent [OF tidy_parts(4,8) [OF p] sp] obtain cm where
    cm: "TryReadCached (rc_cache_manager p) addr True n =
        Some (if cached_covers (rc_cache_manager p) addr n then Some (load (logical r p) addr (unat n)) else None, cm)"
      "cm_cached_reads cm = cm_cached_reads (rc_cache_manager p)" "cache_inv cm" by blast
  note kept = TryReadCached_kept [OF cm(1)]
  have "copies_ok objs (logical r p) cm"
    by (rule copies_ok_reads [OF tidy_parts(6) [OF p]]) (use kept(1) cm(2) in \<open>simp_all add: cache_kept_def\<close>)
  with tidy_cache [OF p kept(1,3)] kept(3) cm(1) True show ?thesis by auto
qed (use p in auto)

lemma InsertCached_copies:
  assumes inv: "cache_inv cm" and copies: "copies_ok objs M cm" and obj: "(addr, n) \<in> objs"
    and addr: "in_space addr n" "ga_home_node addr \<noteq> cfg_node_id (cm_cfg cm)"
    and src: "unat n \<le> length src" "take (unat n) src = load M addr (unat n)"
    and on: "uncached (cm_cfg cm) \<Longrightarrow> \<not> cfg_enable_cache (cm_cfg cm)"
  shows "\<exists>cm'. InsertCached cm addr (Some src) n = Some cm' \<and> copies_ok objs M cm' \<and> cache_kept cm cm' \<and>
    cm_write_queues cm' = cm_write_queues cm"
proof -
  let ?key = "\<lparr>ck_addr = addr, ck_size = n\<rparr>" and ?bytes = "load M addr (unat n)"
  have sub: "set (cm_cached_reads (inserted ?key ?bytes cm)) \<subseteq> insert (?key, ?bytes) (set (cm_cached_reads cm))"
    by (rule inserted_reads_subset [OF inv]) simp
  have run: "InsertCached cm addr (Some src) n = Some (if admits cm n then inserted ?key ?bytes cm else cm)"
    using InsertCached_inserted [OF inv src(1), of addr] by (simp add: src(2))
  note kept = InsertCached_kept [OF inv run]
  have "copies_ok objs M (inserted ?key ?bytes cm)" if "admits cm n"
  proof -
    have "\<not> uncached (cm_cfg cm)" using that on by (auto simp: admits_def)
    moreover have "cm_cfg (inserted ?key ?bytes cm) = cm_cfg cm" using kept(1) that by (simp add: cache_kept_def)
    ultimately show ?thesis using sub copies obj addr by (auto simp: copies_ok_def coherent_def)
  qed
  with run kept copies show ?thesis by auto
qed

lemma tidy_OwnerAwareRead:
  assumes p: "tidy objs r k p" and ok: "addressable p addr n" "unqueued p addr n" and home: "ga_home_node addr = r"
  shows "\<exists>redirected q. TryOwnerAwareRead p addr n metas = Some (kOk, load (logical r p) addr (unat n), redirected, q) \<and>
    tidy objs r k q \<and> unchanged p q"
proof -
  let ?owner = "DominantOwnerNode (rc_block_table p) metas (ga_home_node addr)"
  let ?valid = "AllMetasValidated (rc_block_table p) metas"
  have sp: "in_space addr n" using ok by (simp add: addressable_def)
  from tidy_hit [OF p sp, of ?valid] obtain hit cm where
    hit: "(if ?valid then TryReadCached (rc_cache_manager p) addr True n else Some (None, rc_cache_manager p)) = Some (hit, cm)"
      "hit = None \<or> hit = Some (load (logical r p) addr (unat n))"
    and cm: "tidy objs r k (p\<lparr>rc_cache_manager := cm\<rparr>)" "unchanged p (p\<lparr>rc_cache_manager := cm\<rparr>)" by blast
  have read: "\<exists>q. Transport_Read s addr n = Some (kOk, load (logical r p) addr (unat n), q) \<and> tidy objs r k q \<and> unchanged p q"
    if s: "tidy objs r k s" "unchanged p s" for s
    using tidy_Read [OF s(1), of addr n] ok unchanged_sel(4,6) [OF s(2)] unqueued_same [OF s(2)] unchanged_trans [OF s(2)] by auto
  have marked: "tidy objs r k (q\<lparr>rc_block_table := MarkReadValidated metas (rc_block_table q)\<rparr>)" if "tidy objs r k q" for q
    unfolding MarkReadValidated_def by (rule tidy_updates [OF that]) simp
  have claimed: "tidy objs r k (q\<lparr>rc_block_table := update_metas
      (\<lambda>meta. if bm_state meta = kInvalid then meta\<lparr>bm_state := kShared, bm_owner_node := ga_home_node addr\<rparr> else meta)
      metas (MarkReadValidated metas (rc_block_table q))\<rparr>)" if "tidy objs r k q" for q
    by (intro tidy_table [OF that] owners_in_updates owners_in_MarkReadValidated tidy_owners [OF that]) (simp_all add: home)
  have "?owner \<in> {kInvalidNodeId, cfg_node_id (rc_config p), r}"
    by (intro owners_in_DominantOwner tidy_owners [OF p]) (simp add: home)
  then consider "?owner = cfg_node_id (rc_config p)"
    | "?owner \<noteq> cfg_node_id (rc_config p)" "\<not> (?owner \<noteq> kInvalidNodeId \<and> ?owner \<noteq> ga_home_node addr)"
    using home by auto
  then show ?thesis
  proof cases
    case 1
    with hit cm read [OF cm] marked show ?thesis unfolding TryOwnerAwareRead_def Let_def by fastforce
  next
    case 2
    with read [OF p unchanged_refl] claimed show ?thesis unfolding TryOwnerAwareRead_def Let_def by fastforce
  qed
qed

lemma tidy_admit:
  assumes p: "tidy objs r k p" and obj: "(addr, n) \<in> objs" "in_space addr n" "ga_home_node addr \<noteq> cfg_node_id (rc_config p)"
    and wi: "cfg_coherence_mode_override (rc_config p) = mode_int kWI \<Longrightarrow> HasMode modes kWI"
  shows "\<exists>q. admit_read p addr (load (logical r p) addr (unat n)) n metas modes = Some q \<and> tidy objs r k q \<and> unchanged p q"
proof (cases "HasMode modes kWI \<or> \<not> fst (ShouldAdmitCached p metas)")
  case True
  moreover have "snd (ShouldAdmitCached p metas) = p" if "\<not> fst (ShouldAdmitCached p metas)"
    using that by (auto simp: ShouldAdmitCached_def split: if_splits)
  ultimately show ?thesis using p by (auto simp: admit_read_def split_beta)
next
  case False
  define q where "q = update_stats (IncCacheAdmission True) (snd (ShouldAdmitCached p metas))"
  have q: "tidy objs r k q" "unchanged p q"
    using tidy_updates [OF p, of "\<lambda>meta. meta\<lparr>bm_cache_admitted := True\<rparr>" metas] False
    by (auto simp: q_def ShouldAdmitCached_def split: if_splits)
  note same = unchanged_sel(3,6) [OF q(2)] tidy_parts [OF q(1)]
  have "\<exists>cm. InsertCached (rc_cache_manager q) addr (Some (load (logical r p) addr (unat n))) n = Some cm \<and>
      copies_ok objs (logical r q) cm \<and> cache_kept (rc_cache_manager q) cm \<and>
      cm_write_queues cm = cm_write_queues (rc_cache_manager q)"
    using False wi obj by (intro InsertCached_copies same(6,8)) (auto simp: same(1,2,5) uncached_def)
  then obtain cm where cm: "InsertCached (rc_cache_manager q) addr (Some (load (logical r p) addr (unat n))) n = Some cm"
      "copies_ok objs (logical r q) cm" "cache_kept (rc_cache_manager q) cm"
      "cm_write_queues cm = cm_write_queues (rc_cache_manager q)" by blast
  from tidy_cache [OF q(1) cm(3,4,2)] q(2) cm(1,4) False show ?thesis
    by (auto simp: admit_read_def split_beta q_def unchanged_def)
qed

lemma tidy_read_miss:
  assumes p: "tidy objs r k p" and ok: "in_reach objs r p addr n" "unqueued p addr n"
    and wi: "cfg_coherence_mode_override (rc_config p) = mode_int kWI \<Longrightarrow> HasMode modes kWI"
    and loc: "is_local \<longleftrightarrow> ga_home_node addr = cfg_node_id (rc_config p)"
  shows "\<exists>q. read_miss p addr n metas modes is_local = Some (kOk, load (logical r p) addr (unat n), q) \<and>
    tidy objs r k q \<and> unchanged p q"
proof (cases is_local)
  case True
  with tidy_Read [OF p _ ok(2)] ok(1) show ?thesis by (auto simp: read_miss_def in_reach_def)
next
  case False
  have addr: "addressable p addr n" "in_space addr n" "ga_home_node addr = r" "(addr, n) \<in> objs"
    "ga_home_node addr \<noteq> cfg_node_id (rc_config p)" using ok(1) False loc by (auto simp: in_reach_def addressable_def)
  define p1 where "p1 = (update_stats IncCacheMiss p)\<lparr>rc_block_table :=
    update_metas (\<lambda>meta. meta\<lparr>bm_remote_miss_count := bm_remote_miss_count meta + 1\<rparr>) metas (rc_block_table p)\<rparr>"
  have p1: "tidy objs r k p1" "unchanged p p1"
    unfolding p1_def
    using tidy_updates [of objs r k "update_stats IncCacheMiss p" "\<lambda>meta. meta\<lparr>bm_remote_miss_count := bm_remote_miss_count meta + 1\<rparr>"] p
    by simp_all
  from tidy_OwnerAwareRead [OF p1(1), of addr n metas] addr ok(2) obtain redirected q where
    q: "TryOwnerAwareRead p1 addr n metas = Some (kOk, load (logical r p) addr (unat n), redirected, q)"
      "tidy objs r k q" "unchanged p q"
    using unchanged_trans [OF p1(2)] by (auto simp: unchanged_sel(4,6) [OF p1(2)] unqueued_same [OF p1(2)])
  define q1 where "q1 = (if redirected then q\<lparr>rc_block_table :=
      update_metas (\<lambda>meta. meta\<lparr>bm_state := kOwner, bm_version := MaxObservedVersion (rc_block_table q) metas\<rparr>)
        metas (rc_block_table q)\<rparr> else q)"
  have q1: "tidy objs r k q1" "unchanged p q1" using q(2,3) tidy_updates [OF q(2)] by (simp_all add: q1_def)
  from tidy_admit [OF q1(1), of addr n modes metas] addr wi obtain s where
    s: "admit_read q1 addr (load (logical r p) addr (unat n)) n metas modes = Some s" "tidy objs r k s" "unchanged p s"
    using unchanged_trans [OF q1(2)] by (auto simp: unchanged_sel(3,6) [OF q1(2)])
  then show ?thesis
    using False q(1) unfolding read_miss_def by (auto simp: Let_def q1_def simp flip: p1_def)
qed

lemma tidy_access:
  assumes p: "tidy objs r k p" and ok: "in_reach objs r p addr n"
  obtains brange metas q modes q' where "ValidateAndResolveRange p addr n = Inr brange"
    "PrepareMetadata p brange addr type = Some (metas, q)" "ObserveMetas q metas type is_local = (modes, q')"
    "tidy objs r k q'" "unchanged p q'"
    "cfg_coherence_mode_override (rc_config p) = mode_int kWI \<Longrightarrow> HasMode modes kWI \<and> \<not> HasMode modes kAdaptive"
proof -
  let ?S = "{kInvalidNodeId, cfg_node_id (rc_config p), r}"
  have S: "cfg_node_id (rc_config p) \<in> ?S" "ga_home_node addr \<in> ?S" and addr: "addressable p addr n"
    and bs: "cfg_block_size (rc_config p) \<noteq> 0" using p ok by (auto simp: tidy_def ready_def in_reach_def)
  from access_front [OF tidy_parts(2) [OF p] bs addr tidy_owners [OF p] S, of type is_local] obtain brange metas q modes t st e where
    front: "ValidateAndResolveRange p addr n = Inr brange" "PrepareMetadata p brange addr type = Some (metas, q)"
      "ObserveMetas q metas type is_local = (modes, p\<lparr>rc_block_table := t, rc_stats := st,
         rc_cache_manager := (rc_cache_manager p)\<lparr>cm_access_epoch := e\<rparr>\<rparr>)"
    and t: "owners_in ?S t"
    and modes: "cfg_coherence_mode_override (cm_cfg (rc_cache_manager p)) = mode_int kWI \<Longrightarrow>
       HasMode modes kWI \<and> \<not> HasMode modes kAdaptive" by metis
  have q: "tidy objs r k (p\<lparr>rc_block_table := t, rc_stats := st\<rparr>)" using tidy_table [OF p t] by simp
  have "copies_ok objs (logical r p) ((rc_cache_manager p)\<lparr>cm_access_epoch := e\<rparr>)"
    by (rule copies_ok_reads [OF tidy_parts(6) [OF p]]) simp_all
  then have "tidy objs r k (p\<lparr>rc_block_table := t, rc_stats := st,
      rc_cache_manager := (rc_cache_manager p)\<lparr>cm_access_epoch := e\<rparr>\<rparr>)"
    using tidy_cache [OF q] by (simp add: cache_kept_def logical_def)
  with that [OF front] modes tidy_parts(3) [OF p] show thesis by simp
qed

lemma in_reach_same: "unchanged p q \<Longrightarrow> in_reach objs r q = in_reach objs r p"
  by (simp add: in_reach_def fun_eq_iff unchanged_sel(3,4))

lemma tidy_checked_read:
  assumes p: "tidy objs r k p" and ok: "in_reach objs r p addr n" "unqueued p addr n"
  shows "\<exists>q. checked_read p addr n = Some (kOk, load (logical r p) addr (unat n), q) \<and> tidy objs r k q \<and> unchanged p q"
proof -
  let ?local = "ga_home_node addr = cfg_node_id (rc_config p)"
  from tidy_access [OF p ok(1), of kRead ?local] obtain brange metas q modes q' where
    front: "ValidateAndResolveRange p addr n = Inr brange" "PrepareMetadata p brange addr kRead = Some (metas, q)"
      "ObserveMetas q metas kRead ?local = (modes, q')"
    and q': "tidy objs r k q'" "unchanged p q'"
    and wi: "cfg_coherence_mode_override (rc_config p) = mode_int kWI \<Longrightarrow> HasMode modes kWI"
    by metis
  have "in_space addr n" using ok(1) by (simp add: in_reach_def addressable_def)
  from tidy_hit [OF q'(1) this, of "\<not> ?local"] obtain hit cm where
    hit: "(if \<not> ?local then TryReadCached (rc_cache_manager q') addr True n else Some (None, rc_cache_manager q')) = Some (hit, cm)"
      "hit = None \<or> hit = Some (load (logical r q') addr (unat n))"
    and cm: "tidy objs r k (q'\<lparr>rc_cache_manager := cm\<rparr>)" "unchanged q' (q'\<lparr>rc_cache_manager := cm\<rparr>)" by blast
  let ?s = "q'\<lparr>rc_cache_manager := cm\<rparr>"
  have s: "unchanged p ?s" by (rule unchanged_trans [OF q'(2) cm(2)])
  have "\<exists>q. read_miss ?s addr n metas modes ?local = Some (kOk, load (logical r ?s) addr (unat n), q) \<and>
      tidy objs r k q \<and> unchanged ?s q"
    using ok wi unqueued_same [OF s] in_reach_same [OF s] unchanged_sel(3) [OF s] by (intro tidy_read_miss [OF cm(1)]) simp_all
  then obtain t where t: "read_miss ?s addr n metas modes ?local = Some (kOk, load (logical r p) addr (unat n), t)"
    "tidy objs r k t" "unchanged p t" using unchanged_trans [OF s] unchanged_sel(6) [OF s] by auto
  from hit(2) show ?thesis
  proof
    assume "hit = None"
    with front hit(1) t show ?thesis by (auto simp: checked_read_def Let_def)
  next
    assume "hit = Some (load (logical r q') addr (unat n))"
    with front hit(1) cm(1) s unchanged_sel(6) [OF q'(2)] show ?thesis by (auto simp: checked_read_def Let_def)
  qed
qed

section \<open>Writes\<close>

text \<open>A write to memory, seen from the copies and from the queue.\<close>

lemma copies_store:
  assumes "copies_ok objs M cm" "in_space addr n" "length bs = unat n"
    and apart: "\<And>key payload. (key, payload) \<in> set (cm_cached_reads cm) \<Longrightarrow> \<not> RangesOverlap (ck_addr key) (ck_size key) addr n"
  shows "copies_ok objs (store M addr bs) cm"
proof -
  have "load (store M addr bs) (ck_addr key) (unat (ck_size key)) = load M (ck_addr key) (unat (ck_size key))"
    if "(key, payload) \<in> set (cm_cached_reads cm)" "in_space (ck_addr key) (ck_size key)" for key payload
    using apart [OF that(1)] unfolding RangesOverlap_iff [OF that(2) assms(2)]
    by (intro load_store_disjoint) (auto simp: assms(3))
  then have "coherent (store M addr bs) cm" using assms(1) by (auto simp: copies_ok_def coherent_def)
  with assms(1) show ?thesis by (simp add: copies_ok_def)
qed

lemma invalidated_copies:
  assumes inv: "cache_inv cm" and copies: "copies_ok objs M cm" and obj: "(addr, n) \<in> objs"
    and sp: "in_space addr n" and len: "length bs = unat n" and objs: "uncached (cm_cfg cm) \<or> disjoint_objects objs"
    and run: "(if c then InvalidateRange cm addr n else Invalidate cm addr n) = (i, cm')"
  shows "copies_ok objs M cm'" "copies_ok objs (store M addr bs) cm'" "cache_kept cm cm'" "cm_write_queues cm' = cm_write_queues cm"
proof -
  have cm': "cm' = (if c then snd (InvalidateRange cm addr n) else drop_entry \<lparr>ck_addr = addr, ck_size = n\<rparr> cm)"
    using run by (auto simp flip: Invalidate_drop_entry split: if_splits)
  then have reads: "set (cm_cached_reads cm') =
      {e \<in> set (cm_cached_reads cm). if c then \<not> overlapping addr n e else fst e \<noteq> \<lparr>ck_addr = addr, ck_size = n\<rparr>}"
    by (auto simp: InvalidateRange_reads [OF inv] drop_entry_reads)
  show kept: "cache_kept cm cm'" "cm_write_queues cm' = cm_write_queues cm"
    using InvalidateRange_kept [OF inv] Invalidate_kept [of cm addr n] by (simp_all add: cm' Invalidate_drop_entry)
  show ok: "copies_ok objs M cm'" by (rule copies_ok_reads [OF copies]) (use reads kept in \<open>auto simp: cache_kept_def\<close>)
  show "copies_ok objs (store M addr bs) cm'"
  proof (rule copies_store [OF ok sp len])
    fix key payload assume e: "(key, payload) \<in> set (cm_cached_reads cm')"
    then have old: "(key, payload) \<in> set (cm_cached_reads cm)" using reads by simp
    then have "\<not> uncached (cm_cfg cm)" "(ck_addr key, ck_size key) \<in> objs" using copies by (auto simp: copies_ok_def)
    with objs have sep: "(ck_addr key, ck_size key) = (addr, n) \<or> \<not> RangesOverlap (ck_addr key) (ck_size key) addr n"
      using obj by (auto simp: disjoint_objects_def)
    then show "\<not> RangesOverlap (ck_addr key) (ck_size key) addr n"
      using e unfolding reads by (cases key) (auto simp: overlapping_def split: if_splits)
  qed
qed

text \<open>Some queued write touches the byte.\<close>

definition queued_byte :: "NodeId \<Rightarrow> Process \<Rightarrow> NodeId \<Rightarrow> RegionId \<Rightarrow> nat \<Rightarrow> bool" where
  "queued_byte r p node region x \<longleftrightarrow> list_ex (\<lambda>w. writes_byte w node region x) (queue_of (rc_cache_manager p) r)"

text \<open>The effect of a write: the memory changes by it, and no other byte is queued.\<close>

definition stored :: "(GlobalAddr \<times> u64) set \<Rightarrow> NodeId \<Rightarrow> nat \<Rightarrow> GlobalAddr \<Rightarrow> byte list \<Rightarrow> Process \<Rightarrow> Process \<Rightarrow> bool" where
  "stored objs r k addr bs p q \<longleftrightarrow> tidy objs r k q \<and> same_layout p q \<and> logical r q = store (logical r p) addr bs \<and>
     (\<forall>node region x. queued_byte r q node region x \<longrightarrow> queued_byte r p node region x \<or> in_bytes addr (length bs) node region x)"

lemma stored_unchanged: "unchanged p s \<Longrightarrow> stored objs r k addr bs s q \<Longrightarrow> stored objs r k addr bs p q"
  using same_layout_trans [of p s q] unchanged_sel(1,5,6) [of p s] by (simp add: stored_def queued_byte_def)

lemma stored_stats [simp]: "stored objs r k addr bs p (q\<lparr>rc_stats := st\<rparr>) = stored objs r k addr bs p q"
  by (simp add: stored_def queued_byte_def logical_def)

lemma tidy_ready: "tidy objs r k p \<Longrightarrow> ready objs r k p"
  by (simp add: tidy_def)

lemma ready_moved:
  assumes "ready objs r k p" "same_layout p q" "live m q" "rc_block_table q = rc_block_table p" "queues_ok r q"
    "spaced_objects objs \<longrightarrow> keyed objs (queue_of (rc_cache_manager q) r)" "copies_ok objs (logical r q) (rc_cache_manager q)"
  shows "ready objs r m q"
  using assms same_layout_config [OF assms(2)] by (simp add: ready_def)

lemma store_local:
  assumes "queues_ok r p" "ga_home_node addr \<noteq> r"
  shows "apply_writes (queue_of (rc_cache_manager p) r) (store M addr bs) =
    store (apply_writes (queue_of (rc_cache_manager p) r) M) addr bs"
proof -
  define w where "w = incoming_write addr bs kSI False False"
  have w: "apply_write w M = store M addr bs" for M by (simp add: apply_write_def w_def incoming_write_def)
  have "\<not> (writes_byte v node region x \<and> writes_byte w node region x)"
    if "v \<in> set (queue_of (rc_cache_manager p) r)" for v node region x
    using queues_inv_queue [of "rc_cache_manager p" r] that assms
    by (auto simp: queues_ok_def list_all_iff writes_byte_def in_bytes_def w_def incoming_write_def)
  from apply_behind_disjoint [OF this] show ?thesis
    using apply_writes_behind [of _ w M] by (simp add: w)
qed

lemma tidy_local_write:
  assumes p: "tidy objs r k p" and ok: "in_reach objs r p addr n" and len: "unat n \<le> length src"
    and loc: "ga_home_node addr = cfg_node_id (rc_config p)"
  shows "\<exists>q. Transport_Write p addr src n = Some (kOk, q) \<and> stored objs r k addr (take (unat n) src) p q"
proof -
  let ?bs = "take (unat n) src"
  have addr: "addressable p addr n" "in_space addr n" using ok by (simp_all add: in_reach_def addressable_def)
  from stub.write_usable [OF tidy_parts(2) [OF p] addr(1) len] obtain q where
    q: "Transport_Write p addr src n = Some (kOk, q)" "stub_inv q" "view q = store (view p) addr ?bs" "memory_update p q" by blast
  note same = memory_update_sel [OF q(4)] same_layout_memory [OF q(4)]
  have logical: "logical r q = store (logical r p) addr ?bs"
    using store_local [OF tidy_parts(5) [OF p], of addr] loc tidy_parts(7) [OF p] by (simp add: logical_def q(3) same)
  have "copies_ok objs (logical r q) (rc_cache_manager q)"
    unfolding logical same using tidy_parts(6) [OF p] addr(2)
  proof (rule copies_store)
    fix key payload
    assume "(key, payload) \<in> set (cm_cached_reads (rc_cache_manager p))"
    with tidy_parts(3,6) [OF p] loc show "\<not> RangesOverlap (ck_addr key) (ck_size key) addr n"
      by (auto simp: copies_ok_def RangesOverlap_def)
  qed (use len in simp)
  moreover have "queues_ok r q"
    using tidy_parts(5) [OF p] same_layout_deliverable [OF same_layout_memory [OF q(4)]] by (simp add: queues_ok_def same)
  ultimately have "ready objs r k q"
    using live_memory [OF tidy_parts(1) [OF p] q(4,2)] tidy_parts(9) [OF p]
    by (intro ready_moved [OF tidy_ready [OF p]]) (simp_all add: same)
  then have "tidy objs r k q" using p by (simp add: tidy_def same)
  with q(1) logical show ?thesis by (auto simp: stored_def same queued_byte_def)
qed

lemma ready_flush:
  assumes p: "ready objs r k p"
  shows "\<exists>q. FlushDestination p r = Some (kOk, q) \<and> tidy objs r k q \<and> same_layout p q \<and> logical r q = logical r p \<and>
    queue_of (rc_cache_manager q) r = []"
proof -
  have live: "live k p" "queues_ok r p" and copies: "copies_ok objs (logical r p) (rc_cache_manager p)"
    using p by (simp_all add: ready_def)
  from Flush_effect [OF live(1), of r] live(2) obtain q where
    q: "FlushDestination p r = Some (kOk, q)" "live k q" "same_layout p q" "view q = logical r p"
      "rc_cache_manager q = snd (DrainRemoteWrites (rc_cache_manager p) r)" "rc_block_table q = rc_block_table p"
    by (auto simp: queues_ok_def logical_def)
  have queue: "queue_of (rc_cache_manager q) node = []" for node
    using live(2) by (simp add: q(5) Drain_queue_of(2) queues_ok_def)
  have logical: "logical r q = logical r p" by (simp add: logical_empty [OF queue] q(4))
  have "queues_ok r q" using live(2) queue Drain_inv by (simp add: queues_ok_def q(5))
  moreover have "copies_ok objs (logical r q) (rc_cache_manager q)"
    unfolding logical using Drain_kept [of "rc_cache_manager p" r]
    by (intro copies_ok_reads [OF copies]) (simp_all add: q(5) cache_kept_def)
  ultimately have "tidy objs r k q" using ready_moved [OF p q(3,2,6)] queue by (simp add: tidy_def keyed_def)
  with q(1,3) logical queue show ?thesis by blast
qed

text \<open>Queueing a write keeps the process ready; a process that writes through must flush.\<close>

lemma queued_deliverable:
  assumes ok: "queues_ok r p" "r \<noteq> cfg_node_id (rc_config p)" and addr: "addressable p addr n" "ga_home_node addr = r"
    and cm: "queues_inv cm" "\<And>node. node \<noteq> r \<Longrightarrow> queue_of cm node = queue_of (rc_cache_manager p) node"
    and bytes: "\<And>node region x. list_ex (\<lambda>w. writes_byte w node region x) (queue_of cm r) \<longleftrightarrow>
      queued_byte r p node region x \<or> in_bytes addr (unat n) node region x"
  shows "queues_ok r (p\<lparr>rc_cache_manager := cm, rc_stats := st\<rparr>)"
proof -
  have home: "write_ok w \<and> ga_home_node (pw_addr w) = r" if "w \<in> set (queue_of cm r)" for w
    using queues_inv_queue [OF cm(1), of r] that by (auto simp: list_all_iff)
  have old: "region = kDefaultRegionId \<and> x < unat (cfg_local_region_size (rc_config p))" if "queued_byte r p r region x" for region x
  proof -
    from that obtain v where v: "v \<in> set (queue_of (rc_cache_manager p) r)" "writes_byte v r region x"
      by (auto simp: queued_byte_def list_ex_iff)
    then have "write_ok v" "ga_home_node (pw_addr v) = r" "deliverable p v"
      using ok(1) queues_inv_queue [of "rc_cache_manager p" r] by (auto simp: queues_ok_def list_all_iff)
    with deliverable_bytes [of v p] ok(2) v(2) show ?thesis by auto
  qed
  have "deliverable p w" if w: "w \<in> set (queue_of cm r)" for w
  proof -
    have "region = kDefaultRegionId \<and> x < unat (cfg_local_region_size (rc_config p))" if "writes_byte w r region x" for region x
    proof -
      have "queued_byte r p r region x \<or> in_bytes addr (unat n) r region x"
        using bytes [of r region x] that w by (auto simp: list_ex_iff)
      then show ?thesis using old addr ok(2) by (auto simp: in_bytes_def addressable_def)
    qed
    then show ?thesis using deliverable_bytes [of w p] home [OF w] ok(2) by auto
  qed
  then show ?thesis using ok(1) cm by (auto simp: queues_ok_def list_all_iff deliverable_def)
qed

lemma tidy_queue:
  assumes p: "tidy objs r k p" and ok: "in_reach objs r p addr n" "writable objs p addr n" "ga_home_node addr = r"
    and len: "unat n \<le> length src" and on: "cfg_enable_write_batching (rc_config p)"
    and biased: "ob \<Longrightarrow> cfg_coherence_mode_override (rc_config p) \<noteq> mode_int kWI"
    and copies: "copies_ok objs (store (logical r p) addr (take (unat n) src)) (rc_cache_manager p)"
  obtains merged cm cm' where "QueueRemoteWrite (rc_cache_manager p) addr (Some src) n mode ob oh = Some (merged, cm)"
    "(if ob then InsertCached cm addr (Some src) n else Some cm) = Some cm'"
    "\<And>st. ready objs r k (p\<lparr>rc_cache_manager := cm', rc_stats := st\<rparr>)"
    "\<And>st. logical r (p\<lparr>rc_cache_manager := cm', rc_stats := st\<rparr>) = store (logical r p) addr (take (unat n) src)"
    "\<And>node region x. list_ex (\<lambda>w. writes_byte w node region x) (queue_of cm' r) \<longleftrightarrow>
       queued_byte r p node region x \<or> in_bytes addr (unat n) node region x"
    "queue_of (rc_cache_manager p) r = [] \<Longrightarrow> \<exists>w. map_of (cm_write_queues cm') r = Some [w]"
    "cm_cfg cm' = rc_config p"
proof -
  let ?bs = "take (unat n) src" and ?cm = "rc_cache_manager p"
  have addr: "addressable p addr n" "in_space addr n" "(addr, n) \<in> objs" "n \<noteq> 0"
    using ok(1) by (simp_all add: in_reach_def addressable_def in_space_def)
  have inv: "queues_inv ?cm" using tidy_parts(5) [OF p] by (simp add: queues_ok_def)
  define w where "w = incoming_write addr ?bs mode ob oh"
  have w: "write_ok w" "write_key w = (addr, n)" "writes_byte w = in_bytes addr (unat n)"
    using incoming_write_ok [OF addr(2), of ?bs mode ob oh] len
    by (simp_all add: w_def write_key_def payload_size_def writes_byte_def) (simp_all add: incoming_write_def)
  have oks: "list_all write_ok (queue_of ?cm r)" by (rule queues_inv_ok [OF inv])
  have clean: "\<not> (writes_byte v node region x \<and> in_bytes addr (unat n) node region x)"
    if "v \<in> set (later w (queue_of ?cm (ga_home_node addr)))" for v node region x
  proof (cases "spaced_objects objs")
    case True
    with tidy_parts(9) [OF p] spaced_later [OF True w(1) _ oks, of v node region x] that ok(3) addr(3) w(2,3) show ?thesis by simp
  next
    case False
    with ok(2) that later_subset [of w "queue_of ?cm (ga_home_node addr)"] show ?thesis
      by (auto simp: writable_def unqueued_def list_all_iff)
  qed
  obtain merged queue cm where run: "QueueRemoteWrite ?cm addr (Some src) n mode ob oh = Some (merged, cm)"
    and ins: "queue_insert w (queue_of ?cm r) = Some (merged, queue)" and queue: "queue_of cm r = queue" and cm: "queues_inv cm"
      "\<And>M. apply_writes (queue_of cm r) M = store (apply_writes (queue_of ?cm r) M) addr ?bs"
      "\<And>node. node \<noteq> r \<Longrightarrow> queue_of cm node = queue_of ?cm node"
      "\<And>node region x. list_ex (\<lambda>w. writes_byte w node region x) (queue_of cm r) \<longleftrightarrow>
         queued_byte r p node region x \<or> in_bytes addr (unat n) node region x"
    by (rule QueueRemoteWrite_store [OF inv _ addr(2) len w_def clean]) (use on ok(3) in \<open>simp_all add: tidy_parts [OF p] queued_byte_def\<close>)
  have keyed: "spaced_objects objs \<longrightarrow> keyed objs (queue_of cm r)"
    using keyed_insert [OF _ w(1) _ oks _ ins] tidy_parts(9) [OF p] addr(3) by (simp add: w(2) queue)
  note kept = QueueRemoteWrite_kept [OF run]
  have cfg: "cm_cfg cm = rc_config p" and cinv: "cache_inv cm" using kept(1) tidy_parts(3,4) [OF p] by (simp_all add: cache_kept_def)
  have copies1: "copies_ok objs (store (logical r p) addr ?bs) cm"
    by (rule copies_ok_reads [OF copies]) (simp_all add: kept(2) cfg tidy_parts [OF p])
  have load: "load (store (logical r p) addr ?bs) addr (unat n) = ?bs"
    using load_store_same [of _ addr ?bs] len by simp
  have "\<exists>cm'. InsertCached cm addr (Some src) n = Some cm' \<and> copies_ok objs (store (logical r p) addr ?bs) cm' \<and>
      cache_kept cm cm' \<and> cm_write_queues cm' = cm_write_queues cm" if ob
    using biased [OF that] ok(3) tidy_parts(7) [OF p]
    by (intro InsertCached_copies [OF cinv copies1 addr(3,2) _ len]) (auto simp: cfg uncached_def load)
  then obtain cm' where put: "(if ob then InsertCached cm addr (Some src) n else Some cm) = Some cm'"
    and cm': "copies_ok objs (store (logical r p) addr ?bs) cm'" "cache_kept cm cm'" "cm_write_queues cm' = cm_write_queues cm"
    using copies1 by (cases ob) auto
  note same = queue_of_queues [OF cm'(3)] queues_inv_queues [OF cm'(3)]
  have kept': "cache_kept ?cm cm'" using kept(1) cm'(2) by (simp add: cache_kept_def)
  have logical: "logical r (p\<lparr>rc_cache_manager := cm', rc_stats := st\<rparr>) = store (logical r p) addr ?bs" for st
    by (simp add: logical_def same cm(2))
  have "queues_ok r (p\<lparr>rc_cache_manager := cm', rc_stats := st\<rparr>)" for st
    using cm by (intro queued_deliverable [OF tidy_parts(5,7) [OF p] addr(1) ok(3)]) (simp_all add: same)
  then have ready: "ready objs r k (p\<lparr>rc_cache_manager := cm', rc_stats := st\<rparr>)" for st
    using live_cache [OF tidy_parts(1) [OF p] kept'] cm'(1) keyed
    by (intro ready_moved [OF tidy_ready [OF p]]) (simp_all add: logical same)
  have "\<exists>w. map_of (cm_write_queues cm') r = Some [w]" if "queue_of ?cm r = []"
    using QueueRemoteWrite_insert [OF addr(4) len, of ?cm addr mode ob oh] run on that ok(3)
    by (auto simp: tidy_parts [OF p] cm'(3) update_conv')
  then show ?thesis using that [OF run put ready logical] cm(4) kept' by (simp add: same cache_kept_def tidy_parts [OF p])
qed

lemma must_flush:
  assumes "write_through cfg" "cfg_enable_write_batching cfg" "map_of (cm_write_queues cm) r = Some [w]" "cm_cfg cm = cfg"
    and "cfg_coherence_mode_override cfg = mode_int kWI \<Longrightarrow> HasMode modes kWI"
  shows "HasMode modes kWI \<or> ShouldFlushDestination cm r (MostAggressiveBatchThreshold cfg modes)"
proof -
  have "HasMode modes kWI \<or> EffectiveBatchThreshold cfg kSI \<le> 1"
    using assms by (auto simp: write_through_def EffectiveBatchThreshold_def max_def)
  with assms(3) threshold_le [of cfg modes] show ?thesis by (auto simp: ShouldFlushDestination_def max_def)
qed

lemma tidy_after_queueing:
  assumes p: "tidy objs r k p" and on: "cfg_enable_write_batching (rc_config p)" and home: "ga_home_node addr = r"
    and wi: "cfg_coherence_mode_override (rc_config p) = mode_int kWI \<Longrightarrow> HasMode modes kWI"
    and ins: "(if ob then InsertCached cm addr (Some src) n else Some cm) = Some cm'"
    and ready: "ready objs r k (p\<lparr>rc_cache_manager := cm', rc_stats := st\<rparr>)"
    and logical: "logical r (p\<lparr>rc_cache_manager := cm', rc_stats := st\<rparr>) = store (logical r p) addr bs"
    and bytes: "\<And>node region x. list_ex (\<lambda>w. writes_byte w node region x) (queue_of cm' r) \<Longrightarrow>
       queued_byte r p node region x \<or> in_bytes addr (length bs) node region x"
    and first: "queue_of (rc_cache_manager p) r = [] \<Longrightarrow> \<exists>w. map_of (cm_write_queues cm') r = Some [w]"
    and cfg: "cm_cfg cm' = rc_config p"
  shows "\<exists>q. after_queueing (p\<lparr>rc_cache_manager := cm, rc_stats := st\<rparr>) addr src n modes ob = Some (kOk, q) \<and>
    stored objs r k addr bs p q"
proof -
  let ?p = "p\<lparr>rc_cache_manager := cm', rc_stats := st\<rparr>"
  let ?flush = "HasMode modes kWI \<or> ShouldFlushDestination cm' r (MostAggressiveBatchThreshold (rc_config p) modes)"
  have swap: "p\<lparr>rc_stats := st, rc_cache_manager := c\<rparr> = p\<lparr>rc_cache_manager := c, rc_stats := st\<rparr>" for c by simp
  show ?thesis
  proof (cases ?flush)
    case True
    from ready_flush [OF ready] obtain q where q: "FlushDestination ?p r = Some (kOk, q)" "tidy objs r k q" "same_layout ?p q"
      "logical r q = store (logical r p) addr bs" "queue_of (rc_cache_manager q) r = []" unfolding logical by blast
    then have "stored objs r k addr bs p q" by (simp add: stored_def queued_byte_def same_layout_def)
    with True q(1) ins home cfg show ?thesis by (auto simp: after_queueing_def Let_def swap)
  next
    case False
    have "\<not> write_through (rc_config p)"
    proof
      assume wt: "write_through (rc_config p)"
      then have "queue_of (rc_cache_manager p) r = []" using p by (simp add: tidy_def)
      with first obtain w where "map_of (cm_write_queues cm') r = Some [w]" by blast
      from must_flush [OF wt on this cfg wi] False show False by simp
    qed
    then have "tidy objs r k ?p" using ready by (simp add: tidy_def)
    then have "stored objs r k addr bs p ?p" using bytes logical by (auto simp: stored_def queued_byte_def)
    with False ins home cfg show ?thesis by (auto simp: after_queueing_def Let_def swap)
  qed
qed

lemma tidy_deliver:
  assumes p: "tidy objs r k p" and ok: "in_reach objs r p addr n" "writable objs p addr n" "ga_home_node addr = r"
    and len: "unat n \<le> length src"
    and wi: "cfg_coherence_mode_override (rc_config p) = mode_int kWI \<Longrightarrow> HasMode modes kWI \<and> \<not> ob"
    and copies: "copies_ok objs (store (logical r p) addr (take (unat n) src)) (rc_cache_manager p)"
  shows "\<exists>q. deliver_write p addr src n modes ob oh = Some (kOk, q) \<and> stored objs r k addr (take (unat n) src) p q"
proof (cases "cfg_enable_write_batching (rc_config p)")
  case False
  let ?bs = "take (unat n) src"
  have addr: "addressable p addr n" using ok(1) by (simp add: in_reach_def)
  from stub.write_usable [OF tidy_parts(2) [OF p] addr len] obtain q where
    q: "Transport_Write p addr src n = Some (kOk, q)" "stub_inv q" "view q = store (view p) addr ?bs" "memory_update p q" by blast
  note same = memory_update_sel [OF q(4)] same_layout_memory [OF q(4)]
  have "queue_of (rc_cache_manager p) r = []" using p False by (simp add: tidy_def write_through_def)
  then have logical: "logical r q = store (logical r p) addr ?bs" by (simp add: logical_empty same q(3))
  have "queues_ok r q"
    using tidy_parts(5) [OF p] same_layout_deliverable [OF same_layout_memory [OF q(4)]] by (simp add: queues_ok_def same)
  then have "ready objs r k q"
    using live_memory [OF tidy_parts(1) [OF p] q(4,2)] copies tidy_parts(9) [OF p]
    by (intro ready_moved [OF tidy_ready [OF p]]) (simp_all add: same logical)
  then have "tidy objs r k q" using p by (simp add: tidy_def same)
  then have "stored objs r k addr ?bs p q" using logical by (simp add: stored_def same queued_byte_def)
  with False q(1) show ?thesis by (auto simp: deliver_write_def)
next
  case True
  let ?mode = "if HasMode modes kWI then kWI else if HasMode modes kAdaptive then kAdaptive else kSI"
  have biased: "cfg_coherence_mode_override (rc_config p) \<noteq> mode_int kWI" if ob using wi that by blast
  have size: "length (take (unat n) src) = unat n" using len by simp
  show ?thesis
  proof (rule tidy_queue [OF p ok len True biased copies, where mode = ?mode and oh = oh])
    fix merged cm cm'
    assume run: "QueueRemoteWrite (rc_cache_manager p) addr (Some src) n ?mode ob oh = Some (merged, cm)"
      and *: "(if ob then InsertCached cm addr (Some src) n else Some cm) = Some cm'"
        "\<And>st. ready objs r k (p\<lparr>rc_cache_manager := cm', rc_stats := st\<rparr>)"
        "\<And>st. logical r (p\<lparr>rc_cache_manager := cm', rc_stats := st\<rparr>) = store (logical r p) addr (take (unat n) src)"
      and bytes: "\<And>node region x. list_ex (\<lambda>w. writes_byte w node region x) (queue_of cm' r) \<longleftrightarrow>
        queued_byte r p node region x \<or> in_bytes addr (unat n) node region x"
      and **: "queue_of (rc_cache_manager p) r = [] \<Longrightarrow> \<exists>w. map_of (cm_write_queues cm') r = Some [w]" "cm_cfg cm' = rc_config p"
    define st where "st = (if merged then IncMergedRemoteWrite else id) (IncQueuedRemoteWrite (rc_stats p))"
    have "\<exists>q. after_queueing (p\<lparr>rc_cache_manager := cm, rc_stats := st\<rparr>) addr src n modes ob = Some (kOk, q) \<and>
        stored objs r k addr (take (unat n) src) p q"
      by (rule tidy_after_queueing [OF p True ok(3) _ *(1) *(2,3) _ **]) (use wi bytes size in auto)
    then show ?thesis using True run by (cases merged) (auto simp: deliver_write_def Let_def st_def)
  qed
qed

lemma tidy_control:
  assumes p: "tidy objs r k p" and q: "control_update p q" "live m q"
  shows "tidy objs r m q" "unchanged p q"
proof -
  note sel = control_update_sel [OF q(1)]
  show u: "unchanged p q" using same_layout_control [OF q(1)] view_control [OF q(1)] by (simp add: unchanged_def sel)
  show "tidy objs r m q" by (rule tidy_frame [OF p u q(2)]) (simp_all add: sel tidy_owners [OF p] tidy_parts [OF p])
qed

lemma tidy_remote_write:
  assumes p: "tidy objs r 0 p" and ok: "in_reach objs r p addr n" "writable objs p addr n" "ga_home_node addr = r"
    and len: "unat n \<le> length src"
    and wi: "cfg_coherence_mode_override (rc_config p) = mode_int kWI \<Longrightarrow> HasMode modes kWI \<and> \<not> HasMode modes kAdaptive"
  shows "\<exists>q. remote_write p addr src n brange metas modes = Some (kOk, q) \<and> stored objs r 2 addr (take (unat n) src) p q"
proof -
  let ?bs = "take (unat n) src" and ?inval = "HasMode modes kWI"
  obtain ob oh t where meta: "ApplyWriteMetadata (rc_config p) addr metas modes (False, False, rc_block_table p) = (ob, oh, t)"
    by (metis prod_cases3)
  have "owners_in {kInvalidNodeId, cfg_node_id (rc_config p), r} t"
    using owners_in_ApplyWriteMetadata [OF tidy_owners [OF p], of "rc_config p" addr metas modes False False] meta ok(3) by simp
  note p1 = tidy_table [OF p this]
  have ob: "HasMode modes kAdaptive" if ob
    using ApplyWriteMetadata_biased [of "rc_config p" addr metas modes False False "rc_block_table p"] meta that by simp
  let ?p1 = "p\<lparr>rc_block_table := t\<rparr>"
  from live_announce [OF tidy_parts(1) [OF p1], of addr brange ?inval oh "MaxObservedVersion t metas"] ok(3) tidy_parts(7) [OF p]
  obtain q where ann: "announce_write ?p1 addr brange ?inval oh (MaxObservedVersion t metas) = (kOk, q)"
    and ctl: "live 2 q" "control_update ?p1 q" by auto
  note q = tidy_control [OF p1 ctl(2,1)]
  have u: "unchanged p q" using unchanged_trans [of p ?p1 q] q(2) by simp
  obtain c cm where inv: "(if ?inval then InvalidateRange (rc_cache_manager q) addr n
      else Invalidate (rc_cache_manager q) addr n) = (c, cm)" by force
  have addr: "(addr, n) \<in> objs" "in_space addr n" "length ?bs = unat n" using ok(1) len by (simp_all add: in_reach_def addressable_def)
  have objs: "uncached (cm_cfg (rc_cache_manager q)) \<or> disjoint_objects objs"
    using q(1) tidy_parts(3) [OF q(1)] by (simp add: tidy_def ready_def)
  note cm = invalidated_copies [OF tidy_parts(4,6) [OF q(1)] addr objs inv]
  let ?q = "q\<lparr>rc_cache_manager := cm\<rparr>"
  have q': "tidy objs r 2 ?q" by (rule tidy_cache [OF q(1) cm(3,4,1)])
  have u': "unchanged p ?q" using u cm(4) by (simp add: unchanged_def)
  let ?s = "update_stats (AddCacheInvalidations ?inval c) ?q"
  have us: "unchanged p ?s" using u' by simp
  have "\<exists>t. deliver_write ?s addr src n modes ob oh = Some (kOk, t) \<and> stored objs r 2 addr ?bs ?s t"
    using q' cm(2) ok wi ob writable_same [OF us] in_reach_same [OF us] unchanged_sel(3,6) [OF us] unchanged_sel(6) [OF u]
    by (intro tidy_deliver len) auto
  then obtain s where s: "deliver_write ?s addr src n modes ob oh = Some (kOk, s)" "stored objs r 2 addr ?bs p s"
    using stored_unchanged [OF us] by blast
  then show ?thesis unfolding remote_write_def using meta ann inv by (auto simp: Let_def)
qed

lemma tidy_checked_write:
  assumes p: "tidy objs r 0 p" and ok: "in_reach objs r p addr n" "writable objs p addr n" and len: "unat n \<le> length src"
  shows "\<exists>q. checked_write p addr src n = Some (kOk, q) \<and> stored objs r 2 addr (take (unat n) src) p q"
proof -
  let ?local = "ga_home_node addr = cfg_node_id (rc_config p)"
  from tidy_access [OF p ok(1), of kWrite ?local] obtain brange metas q modes q' where
    front: "ValidateAndResolveRange p addr n = Inr brange" "PrepareMetadata p brange addr kWrite = Some (metas, q)"
      "ObserveMetas q metas kWrite ?local = (modes, q')"
    and q': "tidy objs r 0 q'" "unchanged p q'"
    and wi: "cfg_coherence_mode_override (rc_config p) = mode_int kWI \<Longrightarrow> HasMode modes kWI \<and> \<not> HasMode modes kAdaptive"
    by metis
  have ok': "in_reach objs r q' addr n" "writable objs q' addr n"
    using ok in_reach_same [OF q'(2)] writable_same [OF q'(2)] by simp_all
  note cfg = unchanged_sel(3) [OF q'(2)]
  show ?thesis
  proof (cases ?local)
    case True
    from tidy_local_write [OF tidy_mono [OF q'(1), of 2] ok'(1) len] True obtain s where
      "Transport_Write q' addr src n = Some (kOk, s)" "stored objs r 2 addr (take (unat n) src) p s"
      using stored_unchanged [OF q'(2)] by (auto simp: cfg)
    with True front show ?thesis by (auto simp: checked_write_def)
  next
    case False
    then have "ga_home_node addr = r" using ok(1) by (auto simp: in_reach_def)
    from tidy_remote_write [OF q'(1) ok' this len, of modes brange metas] wi obtain s where
      "remote_write q' addr src n brange metas modes = Some (kOk, s)" "stored objs r 2 addr (take (unat n) src) p s"
      using stored_unchanged [OF q'(2)] by (auto simp: cfg)
    with False front show ?thesis by (auto simp: checked_write_def)
  qed
qed

section \<open>The interface as a memory\<close>

lemma tidy_settled:
  assumes p: "tidy objs r 2 p"
  shows "running p" "tidy objs r 0 (settled p)" "unchanged p (settled p)"
proof -
  show run: "running p" using tidy_parts(1) [OF p] by (simp add: running_live)
  show u: "unchanged p (settled p)" by (simp add: unchanged_def same_layout_def view_def node_bytes_def fun_eq_iff)
  show "tidy objs r 0 (settled p)"
    by (rule tidy_frame [OF p u live_settled [OF run]]) (simp_all add: tidy_owners [OF p] tidy_parts [OF p])
qed

lemma in_reach_valid: "tidy objs r k p \<Longrightarrow> in_reach objs r p addr n \<Longrightarrow> IsValid addr \<and> n \<noteq> 0"
  by (auto simp: in_reach_def tidy_def ready_def live_def IsValid_def addressable_def in_space_def)

lemma tidy_lm_read:
  assumes p: "tidy objs r 2 p" and ok: "in_reach objs r p addr n" "unqueued p addr n"
  shows "\<exists>q. lm_read p addr True n = Some (kOk, load (logical r p) addr (unat n), q) \<and> tidy objs r 2 q \<and> unchanged p q"
proof -
  note s = tidy_settled [OF p]
  from tidy_checked_read [OF s(2), of addr n] ok obtain q where
    "checked_read (settled p) addr n = Some (kOk, load (logical r p) addr (unat n), q)" "tidy objs r 0 q" "unchanged p q"
    using unchanged_trans [OF s(3)] by (auto simp: unqueued_same [OF s(3)] in_reach_same [OF s(3)] unchanged_sel(6) [OF s(3)])
  with in_reach_valid [OF p ok(1)] tidy_mono [of objs r 0 q 2] show ?thesis by (auto simp: lm_read_checked [OF s(1)])
qed

lemma tidy_lm_write:
  assumes p: "tidy objs r 2 p" and ok: "in_reach objs r p addr n" "writable objs p addr n" and len: "unat n \<le> length bs"
  shows "\<exists>q. lm_write p addr (Some bs) n = Some (kOk, q) \<and> stored objs r 2 addr (take (unat n) bs) p q"
proof -
  note s = tidy_settled [OF p]
  from tidy_checked_write [OF s(2) _ _ len, of addr] ok obtain q where
    "checked_write (settled p) addr bs n = Some (kOk, q)" "stored objs r 2 addr (take (unat n) bs) p q"
    using stored_unchanged [OF s(3)] by (auto simp: writable_same [OF s(3)] in_reach_same [OF s(3)])
  with in_reach_valid [OF p ok(1)] show ?thesis by (auto simp: lm_write_checked [OF s(1)])
qed

text \<open>A fence delivers the queue: the regions then hold the memory.\<close>

lemma tidy_lm_fence:
  assumes p: "tidy objs r 2 p"
  shows "\<exists>q. lm_fence p = Some (kOk, q) \<and> tidy objs r 2 q \<and> same_layout p q \<and> logical r q = logical r p \<and>
    view q = logical r p \<and> queue_of (rc_cache_manager q) r = []"
proof -
  note s = tidy_settled [OF p]
  let ?nodes = "PendingDestinations (rc_cache_manager p)"
  have inv: "queues_inv (rc_cache_manager p)" and other: "\<And>node. node \<noteq> r \<Longrightarrow> queue_of (rc_cache_manager p) node = []"
    using tidy_parts(5) [OF p] by (simp_all add: queues_ok_def)
  have "set ?nodes \<subseteq> {r}" using PendingDestinations_iff [OF inv] other by auto
  moreover have "distinct ?nodes" by (rule Pending_distinct [OF inv])
  ultimately have nodes: "?nodes = (if queue_of (rc_cache_manager p) r = [] then [] else [r])"
    using PendingDestinations_iff [OF inv, of r] by (cases ?nodes rule: list.exhaust) (auto simp: subset_singleton_iff Suc_le_eq)
  have "\<exists>q. flush_all (settled p) ?nodes = Some (kOk, q) \<and> tidy objs r 0 q \<and> same_layout p q \<and> logical r q = logical r p \<and>
      queue_of (rc_cache_manager q) r = []"
  proof (cases "queue_of (rc_cache_manager p) r = []")
    case True
    with s nodes unchanged_sel(1,5,6) [OF s(3)] show ?thesis by simp
  next
    case False
    from ready_flush [OF tidy_ready [OF s(2)]] obtain q where "FlushDestination (settled p) r = Some (kOk, q)" "tidy objs r 0 q"
      "same_layout (settled p) q" "logical r q = logical r p" "queue_of (rc_cache_manager q) r = []"
      unfolding unchanged_sel(6) [OF s(3)] by blast
    with False nodes same_layout_trans [OF unchanged_sel(1) [OF s(3)]] show ?thesis by auto
  qed
  then obtain q where q: "flush_all (settled p) ?nodes = Some (kOk, q)" "tidy objs r 0 q" "same_layout p q"
    "logical r q = logical r p" "queue_of (rc_cache_manager q) r = []" by blast
  note t = tidy_settled [OF tidy_mono [OF q(2), of 2, simplified]]
  have "stub_inv p" "control_inv p" "rc_initialized p" "stub_inv q" "control_inv q"
    using s(1) t(1) by (simp_all add: running_def)
  then have "lm_fence p = Some (kOk, settled q)"
    using q(1) DrainControl_settles [of p] DrainControl_settles [of q]
    by (auto simp: lm_fence_def Transport_Fence_def elim: stub_inv_stub)
  moreover have "view q = logical r q" by (simp add: logical_empty [OF q(5)])
  ultimately show ?thesis
    using tidy_mono [OF t(2), of 2] same_layout_trans [OF q(3) unchanged_sel(1) [OF t(3)]] q(4,5) unchanged_sel(2,5,6) [OF t(3)] by auto
qed

abbreviation api_read :: "Process \<Rightarrow> GlobalAddr \<Rightarrow> u64 \<Rightarrow> (Status \<times> byte list \<times> Process) option" where
  "api_read p addr n \<equiv> lm_read p addr True n"

abbreviation api_write :: "Process \<Rightarrow> GlobalAddr \<Rightarrow> byte list \<Rightarrow> u64 \<Rightarrow> (Status \<times> Process) option" where
  "api_write p addr bs n \<equiv> lm_write p addr (Some bs) n"

lemma in_reach_layout: "same_layout p q \<Longrightarrow> in_reach objs r q = in_reach objs r p"
  using same_layout_addressable [of p q] same_layout_config [of p q] by (simp add: in_reach_def fun_eq_iff)

lemma not_late_unqueued:
  assumes "tidy objs r k p" "in_reach objs r p addr n"
    and "\<And>node region x. queued_byte r p node region x \<Longrightarrow> \<not> in_bytes addr (unat n) node region x"
  shows "unqueued p addr n"
  using assms tidy_parts(5,7) [OF assms(1)]
  by (cases "ga_home_node addr = r") (auto simp: unqueued_def queued_byte_def list_all_iff list_ex_iff in_reach_def queues_ok_def)

lemma write_through_logical: "tidy objs r k p \<Longrightarrow> write_through (rc_config p) \<Longrightarrow> logical r p = view p"
  by (simp add: tidy_def logical_empty)

lemma write_through_unqueued:
  assumes "tidy objs r k p" "write_through (rc_config p)" "in_reach objs r p addr n"
  shows "unqueued p addr n"
  using assms by (intro not_late_unqueued [OF assms(1,3)]) (simp add: queued_byte_def tidy_def)

text \<open>A process that writes through is a memory; any tidy process is one once it is fenced.\<close>

interpretation node: byte_memory api_read api_write view "in_reach objs r"
  "\<lambda>p. tidy objs r 2 p \<and> write_through (rc_config p)" same_layout for objs r
proof (unfold_locales, goal_cases)
  case (1 p addr n)
  then have p: "tidy objs r 2 p" "write_through (rc_config p)" by simp_all
  from tidy_lm_read [OF p(1) 1(2) write_through_unqueued [OF p 1(2)]] obtain q where
    "lm_read p addr True n = Some (kOk, load (view p) addr (unat n), q)" "tidy objs r 2 q" "unchanged p q"
    unfolding write_through_logical [OF p] by blast
  with p(2) unchanged_sel(1-3) [of p q] show ?case by auto
next
  case (2 p addr n bs)
  then have p: "tidy objs r 2 p" "write_through (rc_config p)" by simp_all
  from tidy_lm_write [OF p(1) 2(2) writableI [OF write_through_unqueued [OF p 2(2)]] 2(3)] obtain q where
    q: "lm_write p addr (Some bs) n = Some (kOk, q)" "stored objs r 2 addr (take (unat n) bs) p q" by blast
  then have "tidy objs r 2 q" "same_layout p q" "logical r q = store (view p) addr (take (unat n) bs)"
    using write_through_logical [OF p] by (simp_all add: stored_def)
  with q(1) p(2) same_layout_config [of p q] write_through_logical [of objs r 2 q] show ?case by auto
next
  case (5 p q)
  then show ?case by (rule in_reach_layout)
qed (auto intro: same_layout_trans)

interpretation delayed: fenced_memory api_read api_write lm_fence "logical r" "queued_byte r"
  "\<lambda>p. cfg_node_id (rc_config p)" "in_reach objs r" "tidy objs r 2" same_layout "spaced_objects objs" for objs r
proof (unfold_locales, goal_cases)
  case (1 p addr n)
  from tidy_lm_read [OF 1(1,2) not_late_unqueued [OF 1]] obtain q where
    q: "lm_read p addr True n = Some (kOk, load (logical r p) addr (unat n), q)" "tidy objs r 2 q" "unchanged p q" by blast
  then have "queued_byte r q = queued_byte r p" by (simp add: queued_byte_def fun_eq_iff unchanged_sel(5))
  with q unchanged_sel(1,6) [OF q(3)] show ?case by blast
next
  case (2 p addr n bs)
  have "writable objs p addr n" using 2(3) not_late_unqueued [OF 2(1,2)] by (auto simp: writable_def)
  from tidy_lm_write [OF 2(1,2) this, of bs] 2(4) obtain q where
    "lm_write p addr (Some bs) n = Some (kOk, q)" "stored objs r 2 addr bs p q" by auto
  then show ?case unfolding stored_def by blast
next
  case (3 p)
  from tidy_lm_fence [OF 3] show ?case by (auto simp: queued_byte_def)
next
  case (4 p node region x)
  then obtain w where "w \<in> set (queue_of (rc_cache_manager p) r)" "writes_byte w node region x"
    by (auto simp: queued_byte_def list_ex_iff)
  with 4 tidy_parts(5,7) [OF 4(1)] queues_inv_queue [of "rc_cache_manager p" r] show ?case
    by (auto simp: queues_ok_def list_all_iff writes_byte_def in_bytes_def)
next
  case (7 p q)
  then show ?case by (rule in_reach_layout)
next
  case (8 p q)
  from same_layout_config [OF 8] show ?case by simp
qed (auto intro: same_layout_trans)

section \<open>Starting\<close>

lemma tidy_Init:
  assumes "\<not> rc_initialized p" "inboxes_ok p" "\<not> cfg_enable_rdma cfg" "cfg_local_region_size cfg \<noteq> 0"
    and "unat (cfg_local_region_size cfg) < 2 ^ 63" "cfg_node_id cfg \<noteq> kInvalidNodeId" "cfg_block_size cfg \<noteq> 0"
    and "uncached cfg \<or> disjoint_objects objs" "r \<noteq> kInvalidNodeId" "r \<noteq> cfg_node_id cfg"
  shows "RuntimeContext_Init p cfg = (kOk, brought_up p cfg)" "tidy objs r 2 (brought_up p cfg)"
proof -
  show "RuntimeContext_Init p cfg = (kOk, brought_up p cfg)" using assms by (simp add: Init_outcome)
  have "running (brought_up p cfg)" using assms by (intro brought_up_running)
  with assms show "tidy objs r 2 (brought_up p cfg)"
    by (simp add: tidy_def ready_def running_live brought_up_def queues_ok_def keyed_def copies_ok_def coherent_def new_CacheManager_def
        queues_inv_def queue_of_def owners_in_def meta_at_def new_BlockMeta_def)
qed

end
