(* ===== verification/Api_Memory.thy ===== *)
theory Api_Memory
  imports Api_Refinement
begin

text \<open>
  What the public calls do to memory: fenced programs and programs that write through see one flat
  memory, allocated memory can be used, local accesses reach the local region, and a fence delivers
  every queued write.
\<close>

section \<open>Local accesses\<close>


lemma running_settled:
  assumes "running p"
  shows "live 0 (settled p)" "same_layout p (settled p)" "view (settled p) = view p" "addressable (settled p) = addressable p"
  using live_settled [OF assms] same_layout_addressable [of p "settled p"]
  by (simp_all add: same_layout_def view_def node_bytes_def fun_eq_iff)



section \<open>Allocation\<close>


section \<open>Fences\<close>

lemma flush_all_effect:
  assumes "live k p" "distinct nodes" "\<forall>node \<in> set nodes. list_all (deliverable p) (queue_of (rc_cache_manager p) node)"
  shows "\<exists>q. flush_all p nodes = Some (kOk, q) \<and> live k q \<and> same_layout p q \<and>
    view q = fold (\<lambda>node. apply_writes (queue_of (rc_cache_manager p) node)) nodes (view p) \<and>
    (\<forall>node. queue_of (rc_cache_manager q) node = (if node \<in> set nodes then [] else queue_of (rc_cache_manager p) node))"
  using assms
proof (induction nodes arbitrary: p)
  case Nil
  then show ?case by simp
next
  case (Cons node nodes)
  from Flush_effect [OF Cons.prems(1), of node] Cons.prems(3) obtain q where
    q: "FlushDestination p node = Some (kOk, q)" "live k q" "same_layout p q"
      "view q = apply_writes (queue_of (rc_cache_manager p) node) (view p)"
      "rc_cache_manager q = snd (DrainRemoteWrites (rc_cache_manager p) node)" by auto
  have queue: "queue_of (rc_cache_manager q) node' = (if node' = node then [] else queue_of (rc_cache_manager p) node')" for node'
    using q(5) Drain_queue_of(2) by simp
  have "deliverable q = deliverable p" using same_layout_addressable [OF q(3)] by (simp add: deliverable_def fun_eq_iff)
  with Cons.prems queue have "\<forall>node \<in> set nodes. list_all (deliverable q) (queue_of (rc_cache_manager q) node)" by auto
  from Cons.IH [OF q(2) _ this] Cons.prems(2) obtain r where
    r: "flush_all q nodes = Some (kOk, r)" "live k r" "same_layout q r"
      "view r = fold (\<lambda>node. apply_writes (queue_of (rc_cache_manager q) node)) nodes (view q)"
      "\<forall>node. queue_of (rc_cache_manager r) node = (if node \<in> set nodes then [] else queue_of (rc_cache_manager q) node)" by auto
  have "fold (\<lambda>node. apply_writes (queue_of (rc_cache_manager q) node)) nodes M =
      fold (\<lambda>node. apply_writes (queue_of (rc_cache_manager p) node)) nodes M" for M
    using Cons.prems(2) queue by (intro fold_cong) auto
  with q(1-4) r same_layout_trans [OF q(3)] show ?case by (auto simp: queue)
qed

text \<open>Queues of different destinations write different nodes, so their order does not matter.\<close>

lemma fold_queues:
  assumes "queues_inv cm" "distinct nodes"
  shows "fold (\<lambda>node. apply_writes (queue_of cm node)) nodes M node' region x =
    (if node' \<in> set nodes then apply_writes (queue_of cm node') M node' region x else M node' region x)"
  using assms(2)
proof (induction nodes arbitrary: M)
  case (Cons node nodes)
  let ?M = "apply_writes (queue_of cm node) M"
  have other: "?M node' region x = M node' region x" if "node' \<noteq> node"
    using queues_inv_queue [OF assms(1), of node] that
    by (intro apply_writes_uncovered) (auto simp: list_all_iff writes_byte_def in_bytes_def)
  then have "apply_writes (queue_of cm node') ?M node' region x = apply_writes (queue_of cm node') M node' region x"
    if "node' \<noteq> node" using that by (intro apply_writes_cong)
  with Cons other show ?case by auto
qed simp

section \<open>Properties\<close>

text \<open>Processes of the witnesses: without a cache, and with a queue of two writes to node 2.\<close>

definition plain_cfg :: Config where
  "plain_cfg = wit_cfg\<lparr>cfg_enable_cache := False\<rparr>"

lemma plain_cfg_sel [simp]:
  "cfg_local_region_size plain_cfg = 64" "cfg_block_size plain_cfg = 16" "cfg_node_id plain_cfg = 0"
  "\<not> cfg_enable_cache plain_cfg" "\<not> cfg_enable_rdma plain_cfg" "cfg_remote_write_batch_threshold plain_cfg = 1"
  by (simp_all add: plain_cfg_def) (simp_all add: wit_cfg_def default_config_def)

definition plain_process :: Process where
  "plain_process = brought_up initial_process plain_cfg"

lemma plain_process_tidy: "tidy UNIV 2 2 plain_process"
  unfolding plain_process_def
  by (rule tidy_Init)
     (simp_all add: uncached_def kInvalidNodeId_def, simp_all add: initial_process_def inboxes_ok_def)

lemma plain_process_sel: "rc_config plain_process = plain_cfg" "view plain_process = (\<lambda>node region x. 0)"
  by (simp_all add: plain_process_def brought_up_def view_def node_bytes_def fun_eq_iff remote_region_def
      Allocator_Init_def new_DsmAllocator_def vec_resize_def)

lemma plain_process_reach:
  "unat off + unat n \<le> 64 \<Longrightarrow> n \<noteq> 0 \<Longrightarrow>
   in_reach UNIV 2 plain_process \<lparr>ga_home_node = 2, ga_region_id = 0, ga_offset = off\<rparr> n"
  by (simp add: in_reach_def addressable_def plain_process_sel in_space_def no_wrap_def kDefaultRegionId_def)

text \<open>With a cache, in shared-invalidate mode with batches of eight, and two objects.\<close>

definition batch_cfg :: Config where
  "batch_cfg = wit_cfg\<lparr>cfg_coherence_mode_override := 1, cfg_cache_admission_policy := 1,
     cfg_remote_write_batch_threshold := 8\<rparr>"

lemma batch_cfg_sel [simp]:
  "cfg_local_region_size batch_cfg = 64" "cfg_block_size batch_cfg = 16" "cfg_node_id batch_cfg = 0"
  "cfg_enable_cache batch_cfg" "\<not> cfg_enable_rdma batch_cfg" "cfg_remote_write_batch_threshold batch_cfg = 8"
  by (simp_all add: batch_cfg_def) (simp_all add: wit_cfg_def default_config_def)

definition batch_process :: Process where
  "batch_process = brought_up initial_process batch_cfg"

abbreviation spot :: "u64 \<Rightarrow> GlobalAddr" where
  "spot off \<equiv> \<lparr>ga_home_node = 2, ga_region_id = 0, ga_offset = off\<rparr>"

definition spots :: "(GlobalAddr \<times> u64) set" where
  "spots = {(spot 0, 2), (spot 16, 2)}"

lemma spots_spaced: "spaced_objects spots"
  by (simp add: spaced_objects_def spots_def)

lemma batch_process_tidy: "tidy spots 2 2 batch_process"
  unfolding batch_process_def
  by (rule tidy_Init)
     (simp_all add: disjoint_objects_def spots_def RangesOverlap_def kInvalidNodeId_def, simp_all add: initial_process_def inboxes_ok_def)

lemma batch_process_sel:
  "rc_config batch_process = batch_cfg" "view batch_process = (\<lambda>node region x. 0)"
  "queue_of (rc_cache_manager batch_process) 2 = []"
  by (simp_all add: batch_process_def brought_up_def view_def node_bytes_def fun_eq_iff remote_region_def
      Allocator_Init_def new_DsmAllocator_def vec_resize_def queue_of_def new_CacheManager_def)

lemma batch_process_reach: "in_reach spots 2 batch_process (spot 0) 2" "in_reach spots 2 batch_process (spot 16) 2"
  by (simp_all add: in_reach_def addressable_def batch_process_sel in_space_def no_wrap_def kDefaultRegionId_def spots_def)

definition queued_process :: Process where
  "queued_process = stub_process\<lparr>rc_cache_manager := (rc_cache_manager stub_process)\<lparr>cm_write_queues :=
     [(2, [cell 5 7, cell 5 9])]\<rparr>\<rparr>"

text \<open>
  C1: Fenced programs see one flat memory, in every configuration of cache, coherence mode and
  batching. A process that talks to one other node and has nothing queued runs a program of reads,
  writes and fences on objects of its own and of the other node. The objects do not overlap, unless
  nothing is cached. Between writing a remote range and the next fence the program does not read
  it, and it does not write it again unless the objects do not even touch each other. Then every
  call succeeds, every read returns the bytes most recently written, and after one more fence the
  regions hold exactly the final memory.
\<close>

theorem fenced_program_refines:
  assumes "tidy objs r 2 p" and "queue_of (rc_cache_manager p) r = []"
    and "list_all (event_usable (in_reach objs r p)) (accesses evs)" and "fenced (spaced_objects objs) (cfg_node_id (rc_config p)) [] evs"
  shows "\<exists>p' q. sync_run (\<lambda>p addr n. lm_read p addr True n) (\<lambda>p addr bs n. lm_write p addr (Some bs) n) lm_fence p evs =
      Some (replicate (length evs) kOk, fst (memory_run (view p) (accesses evs)), p') \<and>
    lm_fence p' = Some (kOk, q) \<and> view q = snd (memory_run (view p) (accesses evs)) \<and> tidy objs r 2 q \<and> same_layout p q"
proof -
  have "tracked [] (queued_byte r p)" by (simp add: tracked_def queued_byte_def assms(2))
  from delayed.fenced_refines [OF assms(1,3) this assms(4)] obtain p' where
    p': "sync_run (\<lambda>p addr n. lm_read p addr True n) (\<lambda>p addr bs n. lm_write p addr (Some bs) n) lm_fence p evs =
        Some (replicate (length evs) kOk, fst (memory_run (view p) (accesses evs)), p')"
      "logical r p' = snd (memory_run (view p) (accesses evs))" "tidy objs r 2 p'" "same_layout p p'"
    unfolding logical_empty [OF assms(2)] by blast
  from tidy_lm_fence [OF p'(3)] p' same_layout_trans [OF p'(4)] show ?thesis by auto
qed

theorem fenced_program_refines_witness:
  "\<exists>p' q. sync_run (\<lambda>p addr n. lm_read p addr True n) (\<lambda>p addr bs n. lm_write p addr (Some bs) n) lm_fence batch_process
      [Access (WriteEv (spot 0) [7, 8]), Access (WriteEv (spot 16) [3, 4]), Access (WriteEv (spot 0) [1, 2]), FenceEv,
       Access (ReadEv (spot 0) 2), Access (WriteEv (spot 0) [5, 6]), Access (ReadEv (spot 16) 2), FenceEv, Access (ReadEv (spot 0) 2)] =
      Some ([kOk, kOk, kOk, kOk, kOk, kOk, kOk, kOk, kOk], [[1, 2], [3, 4], [5, 6]], p') \<and> lm_fence p' = Some (kOk, q)"
proof -
  let ?evs = "[Access (WriteEv (spot 0) [7, 8]), Access (WriteEv (spot 16) [3, 4]), Access (WriteEv (spot 0) [1, 2]), FenceEv,
       Access (ReadEv (spot 0) 2), Access (WriteEv (spot 0) [5, 6]), Access (ReadEv (spot 16) 2), FenceEv, Access (ReadEv (spot 0) 2)]"
  have "list_all (event_usable (in_reach spots 2 batch_process)) (accesses ?evs)" by (simp add: batch_process_reach)
  moreover have "fenced (spaced_objects spots) (cfg_node_id (rc_config batch_process)) [] ?evs"
    by (simp add: batch_process_sel spots_spaced clean_def meet_def)
  moreover have "fst (memory_run (view batch_process) (accesses ?evs)) = [[1, 2], [3, 4], [5, 6]]"
    by (simp add: batch_process_sel(2) load_def store_def in_bytes_def upt_rec)
  moreover have "replicate (length ?evs) kOk = [kOk, kOk, kOk, kOk, kOk, kOk, kOk, kOk, kOk]" by (simp add: numeral_eq_Suc)
  ultimately show ?thesis
    using fenced_program_refines [OF batch_process_tidy batch_process_sel(3), of ?evs] by metis
qed

text \<open>
  C2: A process that writes through needs no fences. It talks to one other node and queues nothing
  (no batching, batches of one, or write-invalidate mode), and either caches nothing or only
  accesses objects that do not overlap. Any program of reads and writes inside the allocated local
  memory and the other node's region has exactly the results of a flat memory: every call
  succeeds, every read returns the bytes most recently written, and the final memory is the same.
\<close>

theorem api_refines_memory:
  assumes "tidy objs r 2 p" and "write_through (rc_config p)" and "list_all (event_usable (in_reach objs r p)) evs"
  shows "\<exists>p'. program_run (\<lambda>p addr n. lm_read p addr True n) (\<lambda>p addr bs n. lm_write p addr (Some bs) n) p evs =
      Some (fst (memory_run (view p) evs), p') \<and>
    view p' = snd (memory_run (view p) evs) \<and> tidy objs r 2 p' \<and> same_layout p p'"
  using node.program_refines [of objs r p evs] assms by blast

theorem api_refines_memory_witness:
  "\<exists>p'. program_run (\<lambda>p addr n. lm_read p addr True n) (\<lambda>p addr bs n. lm_write p addr (Some bs) n) plain_process
      [WriteEv (spot 14) [1, 2, 3, 4], WriteEv (spot 16) [9], ReadEv (spot 15) 4] = Some ([[2, 9, 4, 0]], p')"
proof -
  let ?evs = "[WriteEv (spot 14) [1, 2, 3, 4], WriteEv (spot 16) [9], ReadEv (spot 15) 4]"
  have "list_all (event_usable (in_reach UNIV 2 plain_process)) ?evs" by (simp add: plain_process_reach)
  moreover have "write_through (rc_config plain_process)" by (simp add: plain_process_sel write_through_def)
  ultimately show ?thesis
    using api_refines_memory [OF plain_process_tidy, of ?evs]
    by (auto simp: plain_process_sel load_def store_def in_bytes_def upt_rec)
qed



text \<open>
  C3: A fence delivers every queued write. On a running process with well-formed queues whose
  writes lie in their destinations' regions, \<^verbatim>\<open>lm_fence\<close> succeeds, leaves no queued write and
  no outstanding acknowledgement, and every byte of every node is what applying that node's queue
  in order leaves there, whatever the order of the destinations.
\<close>

theorem fence_delivers:
  assumes "running p" and "queues_inv (rc_cache_manager p)"
    and "\<And>node. list_all (deliverable p) (queue_of (rc_cache_manager p) node)"
  shows "\<exists>p'. lm_fence p = Some (kOk, p') \<and> (\<forall>node. queue_of (rc_cache_manager p') node = []) \<and>
    rc_pending_control_acks p' = [] \<and>
    (\<forall>node region x. view p' node region x = apply_writes (queue_of (rc_cache_manager p) node) (view p) node region x)"
proof -
  note s = running_settled [OF assms(1)]
  let ?nodes = "PendingDestinations (rc_cache_manager p)"
  have "deliverable (settled p) = deliverable p" using s(4) by (simp add: deliverable_def fun_eq_iff)
  with flush_all_effect [OF s(1) Pending_distinct [OF assms(2)]] assms(3) obtain q where
    q: "flush_all (settled p) ?nodes = Some (kOk, q)" "live 0 q"
      "view q = fold (\<lambda>node. apply_writes (queue_of (rc_cache_manager p) node)) ?nodes (view p)"
      "\<And>node. queue_of (rc_cache_manager q) node = (if node \<in> set ?nodes then [] else queue_of (rc_cache_manager p) node)"
    by (auto simp: s(3))
  have empty: "queue_of (rc_cache_manager q) node = []" for node
    using q(4) [of node] PendingDestinations_iff [OF assms(2), of node] by auto
  have bytes: "view q node region x = apply_writes (queue_of (rc_cache_manager p) node) (view p) node region x" for node region x
    using PendingDestinations_iff [OF assms(2), of node]
    by (auto simp: q(3) fold_queues [OF assms(2) Pending_distinct [OF assms(2)]])
  have inv: "stub_inv p" "control_inv p" "rc_initialized p" "stub_inv q" "control_inv q"
    using assms(1) q(2) by (simp_all add: running_def live_def control_upto_def)
  have "lm_fence p = Some (kOk, settled q)"
    using q(1) inv DrainControl_settles [of p] DrainControl_settles [of q]
    by (auto simp: lm_fence_def Transport_Fence_def elim: stub_inv_stub)
  moreover have "view (settled q) = view q" by (simp add: view_def node_bytes_def fun_eq_iff)
  ultimately show ?thesis using empty bytes by auto
qed

theorem fence_delivers_witness:
  "\<exists>p'. lm_fence queued_process = Some (kOk, p') \<and> view p' 2 0 5 = 9 \<and> rc_pending_control_acks p' = []"
proof -
  have "running queued_process"
    using stub_process_inv by (auto simp: running_def queued_process_def stub_process_def stub_inv_def
        control_inv_def initial_process_def kInvalidNodeId_def new_CacheManager_inv) (simp add: new_CacheManager_def)
  moreover have "queues_inv (rc_cache_manager queued_process)"
    by (simp add: queues_inv_def queued_process_def cell_ok) (simp add: cell_def incoming_write_def)
  moreover have "list_all (deliverable queued_process) (queue_of (rc_cache_manager queued_process) node)" for node
    using stub_process_remote [of 5 1]
    by (auto simp: queue_of_def queued_process_def deliverable_def cell_ok)
       (auto simp: cell_def incoming_write_def payload_size_def addressable_def)
  ultimately obtain p' where "lm_fence queued_process = Some (kOk, p')" "rc_pending_control_acks p' = []"
    "view p' 2 0 5 = apply_writes (queue_of (rc_cache_manager queued_process) 2) (view queued_process) 2 0 5"
    using fence_delivers [of queued_process] by metis
  then show ?thesis
    by (auto simp: queue_of_def queued_process_def cell_def incoming_write_def apply_write_def store_def in_bytes_def)
qed

end
