(* ===== verification/Api_Anomalies.thy ===== *)
theory Api_Anomalies
  imports Api_Memory
begin

text \<open>
  Why the refinement needs its hypotheses: with a third node, or with a cache outside the
  write-invalidate mode, the interface is no memory. The property says which node an owner-aware
  read reads from; the runs at the end, computed by the model, show the three effects at the interface.
\<close>

lemmas api_defs =
  kInvalidNodeId_def kDefaultRegionId_def IsValid_def InvalidGlobalAddr_def mode_of_int_def
  AlignUp_def new_BlockMeta_def GetOrCreate_def meta_at_def update_meta_def new_DsmAllocator_def
  vec_resize_def Allocator_Init_def region_size_def Allocate_def floor_entry_def
  ValidateRangeUnlocked_def TranslateLocal_def Allocator_ResolveBlockRange_def
  new_CacheManager_def SafeWindowSize_def DecideCoherenceMode_def observe_profile_def
  ObserveAccess_def ShouldCache_def EffectiveBatchThreshold_def RangesOverlap_def
  TouchLocked_def EvictIfNeededLocked_def covers_def TryReadCached_def InsertCached_def
  Invalidate_def InvalidateRange_def payload_size_def CanMergeWrites_def MergeWrites_def
  queue_of_def QueueRemoteWrite_def ShouldFlushDestination_def DrainRemoteWrites_def
  PendingDestinations_def default_BlockId_def new_ControlMessage_def IsAckOpcode_def
  AckOpcodeFor_def remote_region_def touch_region_def Stub_Read_def Stub_Write_def
  post_inbox_def Stub_PostControlMessage_def Stub_DrainControlMessages_def Transport_Read_def
  Transport_Write_def Transport_BatchWrite_def Transport_Fence_def
  Transport_PostControlMessage_def Transport_DrainControlMessages_def NextControlRequestId_def
  TrackPendingControlAck_def CompleteControlAck_def AdvanceControlAckTimeouts_def
  ResolveBlockRange_def ValidateAndResolveRange_def prepare_block_def prepare_step_def
  PrepareMetadata_def ShouldAdmitCached_def HasMode_def MostAggressiveBatchThreshold_def
  BlockRangeBaseAddr_def BlockRangeSize_def DrivePendingControlAcks_def ack_message_def
  block_loop_def ProcessPendingControlMessages_def MakeControlMessage_def DominantOwnerNode_def
  MaxObservedVersion_def AllMetasValidated_def MarkReadValidated_def TryOwnerAwareRead_def
  apply_write_block_def request_of_def FlushDestination_def lm_read_def post_tracked_def
  remote_write_def lm_write_def DrainControl_def lm_fence_def mem_read_def mem_write_def
  checked_read_def read_miss_def admit_read_def checked_write_def announce_write_def
  deliver_write_def after_queueing_def ObserveMetas.simps(2)

definition alias_cfg :: Config where
  "alias_cfg = wit_cfg\<lparr>cfg_nr_nodes := 3, cfg_coherence_mode_override := 0, cfg_control_ack_timeout_polls := 4\<rparr>"

lemma alias_cfg_sel [simp]:
  "cfg_local_region_size alias_cfg = 64" "cfg_block_size alias_cfg = 16" "cfg_node_id alias_cfg = 0"
  "cfg_enable_cache alias_cfg" "cfg_enable_write_batching alias_cfg" "\<not> cfg_enable_rdma alias_cfg"
  "cfg_remote_write_batch_threshold alias_cfg = 1" "cfg_coherence_mode_override alias_cfg = 0"
  "cfg_profiling_window_size alias_cfg = 8" "cfg_control_ack_timeout_polls alias_cfg = 4"
  "cfg_control_ack_max_retries alias_cfg = 2"
  by (simp_all add: alias_cfg_def) (simp_all add: wit_cfg_def default_config_def)

definition si_cfg :: Config where
  "si_cfg = wit_cfg\<lparr>cfg_nr_nodes := 2, cfg_coherence_mode_override := 1, cfg_cache_admission_policy := 1,
     cfg_remote_write_batch_threshold := 8\<rparr>"

lemma si_cfg_sel [simp]:
  "cfg_local_region_size si_cfg = 64" "cfg_block_size si_cfg = 16" "cfg_node_id si_cfg = 0"
  "cfg_enable_cache si_cfg" "cfg_enable_write_batching si_cfg" "\<not> cfg_enable_rdma si_cfg"
  "cfg_remote_write_batch_threshold si_cfg = 8" "cfg_coherence_mode_override si_cfg = 1"
  "cfg_profiling_window_size si_cfg = 8" "cfg_control_ack_timeout_polls si_cfg = 4"
  "cfg_control_ack_max_retries si_cfg = 2" "cfg_cache_admission_policy si_cfg = 1" "cfg_cache_capacity_bytes si_cfg = 0"
  by (simp_all add: si_cfg_def) (simp_all add: wit_cfg_def default_config_def)

abbreviation loc :: "NodeId \<Rightarrow> u64 \<Rightarrow> GlobalAddr" where
  "loc node off \<equiv> \<lparr>ga_home_node = node, ga_region_id = 0, ga_offset = off\<rparr>"

lemmas api_eval = api_defs brought_up_def initial_process_def for_incl.simps Let_def

section \<open>The node an owner-aware read reads from\<close>

definition owned_by :: "Process \<Rightarrow> BlockId list \<Rightarrow> NodeId \<Rightarrow> bool" where
  "owned_by p metas owner \<longleftrightarrow> metas \<noteq> [] \<and> owner \<noteq> kInvalidNodeId \<and>
     (\<forall>bid \<in> set metas. bm_owner_node (meta_at (rc_block_table p) bid) = owner)"

definition up_to_date :: "Process \<Rightarrow> BlockId list \<Rightarrow> bool" where
  "up_to_date p metas \<longleftrightarrow> (\<forall>bid \<in> set metas.
     bm_version (meta_at (rc_block_table p) bid) \<le> bm_last_validated_version (meta_at (rc_block_table p) bid))"

lemma AllMetasValidated_iff: "AllMetasValidated (rc_block_table p) metas \<longleftrightarrow> up_to_date p metas"
  by (auto simp: AllMetasValidated_def up_to_date_def list_all_iff not_less)

lemma DominantOwner_owned: "owned_by p metas owner \<Longrightarrow> DominantOwnerNode (rc_block_table p) metas home = owner"
  by (cases metas) (auto simp: owned_by_def DominantOwnerNode_def list_ex_iff)

lemma DominantOwner_mixed:
  "(\<nexists>owner. owned_by p metas owner) \<Longrightarrow> DominantOwnerNode (rc_block_table p) metas home = home"
  by (cases metas) (auto simp: owned_by_def DominantOwnerNode_def list_ex_iff Let_def)

lemma read_at:
  assumes "running p" "addressable p addr n" "ga_home_node addr \<noteq> cfg_node_id (rc_config p)" "node \<noteq> cfg_node_id (rc_config p)"
  obtains t where "Transport_Read p (addr\<lparr>ga_home_node := node\<rparr>) n =
      Some (kOk, load (view p) (addr\<lparr>ga_home_node := node\<rparr>) (unat n), p\<lparr>rc_transport := t\<rparr>)"
    "view (p\<lparr>rc_transport := t\<rparr>) = view p"
proof -
  have "addressable p (addr\<lparr>ga_home_node := node\<rparr>) n" using assms(2-4) by (simp add: addressable_def in_space_def)
  then show thesis using Transport_Read_addressable [of p] assms(1) that by (auto simp: running_def)
qed

lemma read_home:
  assumes "running p" "addressable p addr n"
  obtains t where "Transport_Read p addr n = Some (kOk, load (view p) addr (unat n), p\<lparr>rc_transport := t\<rparr>)"
    "view (p\<lparr>rc_transport := t\<rparr>) = view p"
  using Transport_Read_addressable [of p addr n] assms that by (auto simp: running_def)

text \<open>The three ways the read takes: through the process's own cache, at another owner, at the home node.\<close>

lemma read_as_owner:
  assumes "running p" "addressable p addr n" "coherent M (rc_cache_manager p)"
    and own: "DominantOwnerNode (rc_block_table p) metas (ga_home_node addr) = cfg_node_id (rc_config p)"
  shows "\<exists>redirected q. TryOwnerAwareRead p addr n metas =
      Some (kOk, if up_to_date p metas \<and> cached_covers (rc_cache_manager p) addr n then load M addr (unat n)
                 else load (view p) addr (unat n), redirected, q) \<and> view q = view p"
proof -
  have sp: "in_space addr n" and inv: "cache_inv (rc_cache_manager p)"
    using assms(1,2) by (simp_all add: addressable_def running_def)
  from TryReadCached_coherent [OF inv assms(3) sp] obtain cm where
    hit: "TryReadCached (rc_cache_manager p) addr True n =
        Some (if cached_covers (rc_cache_manager p) addr n then Some (load M addr (unat n)) else None, cm)" by blast
  have home: "\<exists>t. Transport_Read (p\<lparr>rc_cache_manager := c\<rparr>) addr n =
      Some (kOk, load (view p) addr (unat n), p\<lparr>rc_cache_manager := c, rc_transport := t\<rparr>) \<and>
      view (p\<lparr>rc_cache_manager := c, rc_transport := t\<rparr>) = view p" for c
    using Transport_Read_addressable [of "p\<lparr>rc_cache_manager := c\<rparr>" addr n] assms(1,2)
    by (auto simp: running_def stub_inv_def)
  show ?thesis
  proof (cases "up_to_date p metas")
    case True
    then show ?thesis
      using hit home [of cm] own by (auto simp: TryOwnerAwareRead_def AllMetasValidated_iff)
  next
    case False
    then show ?thesis
      using home [of "rc_cache_manager p"] own by (auto simp: TryOwnerAwareRead_def AllMetasValidated_iff)
  qed
qed

lemma read_elsewhere:
  assumes "running p" "addressable p addr n" "ga_home_node addr \<noteq> cfg_node_id (rc_config p)"
    and owner: "DominantOwnerNode (rc_block_table p) metas (ga_home_node addr) = owner" "owner \<noteq> cfg_node_id (rc_config p)"
      "owner \<noteq> kInvalidNodeId"
  shows "\<exists>redirected q. TryOwnerAwareRead p addr n metas =
      Some (kOk, load (view p) (if up_to_date p metas then addr\<lparr>ga_home_node := owner\<rparr> else addr) (unat n), redirected, q) \<and>
    view q = view p"
proof (cases "up_to_date p metas \<and> owner \<noteq> ga_home_node addr")
  case True
  obtain t where "Transport_Read p (addr\<lparr>ga_home_node := owner\<rparr>) n =
      Some (kOk, load (view p) (addr\<lparr>ga_home_node := owner\<rparr>) (unat n), p\<lparr>rc_transport := t\<rparr>)"
    "view (p\<lparr>rc_transport := t\<rparr>) = view p" by (rule read_at [OF assms(1-3) owner(2)])
  with True owner show ?thesis by (auto simp: TryOwnerAwareRead_def AllMetasValidated_iff)
next
  case False
  obtain t where home: "Transport_Read p addr n = Some (kOk, load (view p) addr (unat n), p\<lparr>rc_transport := t\<rparr>)"
    "view (p\<lparr>rc_transport := t\<rparr>) = view p" by (rule read_home [OF assms(1,2)])
  from False have "(if up_to_date p metas then addr\<lparr>ga_home_node := owner\<rparr> else addr) = addr" by auto
  moreover have "\<not> (AllMetasValidated (rc_block_table p) metas \<and> owner \<noteq> kInvalidNodeId \<and> owner \<noteq> ga_home_node addr)"
    using False by (simp add: AllMetasValidated_iff)
  ultimately show ?thesis using home owner by (simp add: TryOwnerAwareRead_def) auto
qed

section \<open>Properties\<close>

text \<open>
  C31: which node an owner-aware read reads from. In a running process, for a range inside a remote
  node's region: when all blocks of the range carry the same valid owner and are validated, the read
  returns the bytes of that owner's region at the same offset, whatever node the address names;
  when the owner is the process itself, it returns the bytes of its cache if some entry covers the
  range, and the home node's otherwise. In every other case it returns the home node's bytes. The call succeeds
  and changes no memory. The blocks of a range do not depend on the remote node it is on, so an
  owner recorded for a block of one node redirects the reads of the block with the same number of every other.
\<close>

theorem owner_aware_read_source:
  assumes "running p" "addressable p addr n" "ga_home_node addr \<noteq> cfg_node_id (rc_config p)"
    and "ga_home_node addr \<noteq> kInvalidNodeId" "coherent M (rc_cache_manager p)"
  shows "(\<exists>bytes redirected q. TryOwnerAwareRead p addr n metas = Some (kOk, bytes, redirected, q) \<and> view q = view p \<and>
      (\<forall>owner. owned_by p metas owner \<and> up_to_date p metas \<longrightarrow>
         bytes = (if owner \<noteq> cfg_node_id (rc_config p) then load (view p) (addr\<lparr>ga_home_node := owner\<rparr>) (unat n)
                  else if cached_covers (rc_cache_manager p) addr n then load M addr (unat n)
                  else load (view p) addr (unat n))) \<and>
      ((\<nexists>owner. owned_by p metas owner) \<or> \<not> up_to_date p metas \<longrightarrow> bytes = load (view p) addr (unat n))) \<and>
    (\<forall>node. node \<noteq> cfg_node_id (rc_config p) \<longrightarrow>
      ValidateAndResolveRange p (addr\<lparr>ga_home_node := node\<rparr>) n = ValidateAndResolveRange p addr n)"
proof (rule conjI)
  have unique: "owner' = owner" if "owned_by p metas owner" "owned_by p metas owner'" for owner owner'
    using DominantOwner_owned [OF that(1)] DominantOwner_owned [OF that(2)] by metis
  show "\<exists>bytes redirected q. TryOwnerAwareRead p addr n metas = Some (kOk, bytes, redirected, q) \<and> view q = view p \<and>
      (\<forall>owner. owned_by p metas owner \<and> up_to_date p metas \<longrightarrow>
         bytes = (if owner \<noteq> cfg_node_id (rc_config p) then load (view p) (addr\<lparr>ga_home_node := owner\<rparr>) (unat n)
                  else if cached_covers (rc_cache_manager p) addr n then load M addr (unat n)
                  else load (view p) addr (unat n))) \<and>
      ((\<nexists>owner. owned_by p metas owner) \<or> \<not> up_to_date p metas \<longrightarrow> bytes = load (view p) addr (unat n))"
  proof (cases "\<exists>owner. owned_by p metas owner")
    case True
    then obtain owner where owner: "owned_by p metas owner" by blast
    then have only: "owned_by p metas o' \<longleftrightarrow> o' = owner" for o' using unique by blast
    note dom = DominantOwner_owned [OF owner, of "ga_home_node addr"]
    have valid: "owner \<noteq> kInvalidNodeId" using owner by (simp add: owned_by_def)
    show ?thesis
    proof (cases "owner = cfg_node_id (rc_config p)")
      case True
      with read_as_owner [OF assms(1,2,5), of metas] dom obtain redirected q where
        "TryOwnerAwareRead p addr n metas =
          Some (kOk, if up_to_date p metas \<and> cached_covers (rc_cache_manager p) addr n then load M addr (unat n)
                     else load (view p) addr (unat n), redirected, q)" "view q = view p" by blast
      with True show ?thesis by (simp add: only)
    next
      case False
      from read_elsewhere [OF assms(1-3) dom this valid] obtain redirected q where
        "TryOwnerAwareRead p addr n metas =
          Some (kOk, load (view p) (if up_to_date p metas then addr\<lparr>ga_home_node := owner\<rparr> else addr) (unat n), redirected, q)"
        "view q = view p" by blast
      with False show ?thesis by (simp add: only)
    qed
  next
    case False
    from read_elsewhere [OF assms(1-3) DominantOwner_mixed [OF False] assms(3,4)] obtain redirected q where
      "TryOwnerAwareRead p addr n metas =
        Some (kOk, load (view p) (if up_to_date p metas then addr\<lparr>ga_home_node := ga_home_node addr\<rparr> else addr) (unat n), redirected, q)"
      "view q = view p" by blast
    with False show ?thesis by simp
  qed
  show "\<forall>node. node \<noteq> cfg_node_id (rc_config p) \<longrightarrow>
      ValidateAndResolveRange p (addr\<lparr>ga_home_node := node\<rparr>) n = ValidateAndResolveRange p addr n"
    using assms(3) by (simp add: ValidateAndResolveRange_def ResolveBlockRange_def Let_def)
qed

theorem owner_aware_read_source_witness:
  "\<exists>redirected q. TryOwnerAwareRead
      (first_process\<lparr>rc_block_table := [\<lparr>bi_region_id = 0, bi_block_index = 1\<rparr> \<mapsto> new_BlockMeta\<lparr>bm_owner_node := 2\<rparr>]\<rparr>)
      (loc 1 16) 2 [\<lparr>bi_region_id = 0, bi_block_index = 1\<rparr>] =
    Some (kOk, load (view first_process) (loc 2 16) 2, redirected, q)"
proof -
  let ?bid = "\<lparr>bi_region_id = 0, bi_block_index = 1\<rparr>"
  let ?p = "first_process\<lparr>rc_block_table := [?bid \<mapsto> new_BlockMeta\<lparr>bm_owner_node := 2\<rparr>]\<rparr>"
  have cfg: "rc_config first_process = wit_cfg" by (simp add: first_process_up brought_up_def)
  have "running first_process"
    using api.reachable_inv [OF first_process_reachable initial_process_inv] first_process_initialized
    by (simp add: process_inv_def)
  then have "running ?p" by (simp add: running_def stub_inv_def control_inv_def)
  moreover have "addressable ?p (loc 1 16) 2"
    by (simp add: addressable_def in_space_def no_wrap_def kDefaultRegionId_def cfg)
  moreover have "coherent (view first_process) (rc_cache_manager ?p)"
    by (simp add: first_process_up brought_up_def new_CacheManager_def coherent_def)
  moreover have "owned_by ?p [?bid] 2" "up_to_date ?p [?bid]"
    by (simp_all add: owned_by_def up_to_date_def meta_at_def new_BlockMeta_def kInvalidNodeId_def)
  ultimately show ?thesis
    using owner_aware_read_source [of ?p "loc 1 16" 2 "view first_process" "[?bid]"] by (auto simp: cfg kInvalidNodeId_def)
qed

section \<open>Runs\<close>

text \<open>
  In write-invalidate mode without copies a process writes two bytes to node 2 and then reads the
  same offset of node 1 twice: the first read returns node 1's bytes, the second one, redirected to
  the owner recorded for node 2, node 2's.
\<close>

lemma third_node_aliases:
  "uncached alias_cfg \<and> write_through alias_cfg \<and>
   do { (s1, p) \<leftarrow> lm_write (brought_up initial_process alias_cfg) (loc 2 16) (Some [9, 9]) 2;
        (s2, bytes, p) \<leftarrow> lm_read p (loc 1 16) True 2;
        (s3, bytes', p) \<leftarrow> lm_read p (loc 1 16) True 2;
        Some ([s1, s2, s3], bytes, bytes') } = Some ([kOk, kOk, kOk], [0, 0], [9, 9])"
proof (intro conjI)
  show "uncached alias_cfg" "write_through alias_cfg" by (simp_all add: uncached_def write_through_def)
qed (simp add: api_eval cong: bind_weak_cong let_eval_cong, simp add: numeral_2_eq_2)


text \<open>
  In the shared-invalidate mode with caching a process reads four bytes, overwrites the first two,
  fences and reads the four again: it still sees the old bytes, since the write invalidated only the
  entry of exactly its own address and size.
\<close>

lemma stale_read_after_fence:
  "do { (s1, bytes, p) \<leftarrow> lm_read (brought_up initial_process si_cfg) (loc 1 16) True 4;
        (s2, p) \<leftarrow> lm_write p (loc 1 16) (Some [9, 9]) 2;
        (s3, p) \<leftarrow> lm_fence p;
        (s4, bytes', p) \<leftarrow> lm_read p (loc 1 16) True 4;
        Some ([s1, s2, s3, s4], bytes', load (view p) (loc 1 16) 4) } =
     Some ([kOk, kOk, kOk, kOk], [0, 0, 0, 0], [9, 9, 0, 0])"
  by (simp add: api_eval cong: bind_weak_cong let_eval_cong,
      simp add: load_def view_def node_bytes_def remote_region_def kDefaultRegionId_def upt_rec nth_append)
     (simp add: numeral_eq_Suc)


text \<open>
  With batches of eight a process writes one byte each at offsets 0, 2, 1 and 2 again and fences:
  the byte at offset 2 is the one of the first write to it.
\<close>

lemma fence_loses_update:
  "do { (s1, p) \<leftarrow> lm_write (brought_up initial_process si_cfg) (loc 1 0) (Some [5]) 1;
        (s2, p) \<leftarrow> lm_write p (loc 1 2) (Some [6]) 1;
        (s3, p) \<leftarrow> lm_write p (loc 1 1) (Some [7]) 1;
        (s4, p) \<leftarrow> lm_write p (loc 1 2) (Some [8]) 1;
        (s5, p) \<leftarrow> lm_fence p;
        Some ([s1, s2, s3, s4, s5], load (view p) (loc 1 0) 3) } = Some ([kOk, kOk, kOk, kOk, kOk], [5, 7, 6])"
  by (simp add: api_eval cong: bind_weak_cong let_eval_cong)
     (simp add: load_def view_def node_bytes_def remote_region_def kDefaultRegionId_def upt_rec nth_append)

end
