(* ===== verification/Profile_Window.thy ===== *)
theory Profile_Window
  imports Api_Invariant
begin

text \<open>
  The profiling window of a block: how the counters of \<^verbatim>\<open>ObserveAccess\<close> are bounded by the
  window, and what the mode decision makes of a window with one kind of access.
\<close>

section \<open>Rounding of small integers\<close>

lemma two_pow_pos: "0 < two_pow e"
  by (simp add: two_pow_def)

lemma round_half_even_int: "round_half_even (of_int k) = k"
  by (simp add: round_half_even_def Let_def)

lemma round_at_integer:
  assumes "e \<le> 0"
  shows "round_at e (of_int k) = of_int k"
proof -
  have "(of_int k :: rat) / two_pow e = of_int (k * 2 ^ nat (- e))"
    using assms by (auto simp: two_pow_def)
  then have "round_half_even (of_int k / two_pow e) = k * 2 ^ nat (- e)"
    by (metis round_half_even_int)
  then show ?thesis using assms by (auto simp: round_at_def two_pow_def)
qed

lemma round64_integer:
  assumes "0 \<le> k" "k < 2 ^ 53"
  shows "round64 (of_int k) = of_int k"
proof (cases "k = 0")
  case True
  then show ?thesis by (simp add: round64_def)
next
  case False
  with assms have k: "0 < k" "k < 2 ^ 53" by simp_all
  have len: "bitlen k \<le> 53" using k bitlen_le_iff_power [of k 53] by simp
  have one: "bitlen 1 = 1" by (simp add: compute_bitlen)
  have "free_exp (of_int k) \<le> bitlen k - 53"
    using bitlen_nonneg [of k] one by (simp add: free_exp_def Let_def)
  then have "ulp_exp (of_int k) \<le> 0" using len by (simp add: ulp_exp_def)
  from round_at_integer [OF this] k show ?thesis by (simp add: round64_def round_pos_def)
qed

lemma double_small:
  assumes "unat w < 2 ^ 53"
  shows "double_of_u64 w = of_nat (unat w)"
proof -
  have "int (unat w) < int (2 ^ 53)" using assms by (simp only: of_nat_less_iff)
  then have "round64 (of_int (int (unat w))) = of_int (int (unat w))" by (intro round64_integer) simp_all
  then show ?thesis by (simp add: double_of_u64_def)
qed

lemma round64_simps [simp]: "round64 0 = 0" "round64 1 = 1"
  using round64_integer [of 1] by (simp_all add: round64_def)

section \<open>The window\<close>

text \<open>
  What the counters of a block say when \<open>e\<close> accesses have been observed: the block was last
  accessed in the window its counters belong to, and the counters count at most the accesses of
  that window up to it.
\<close>

definition profile_ok :: "u64 \<Rightarrow> u64 \<Rightarrow> BlockMeta \<Rightarrow> bool" where
  "profile_ok W e m \<longleftrightarrow> bm_last_access_epoch m \<le> e \<and>
     (if bm_last_access_epoch m = 0
      then bm_window_id m = 0 \<and> bm_window_reads m = 0 \<and> bm_window_writes m = 0 \<and> bm_phase_change_count m = 0
      else bm_window_id m = (bm_last_access_epoch m - 1) div W \<and>
           unat (bm_window_reads m) + unat (bm_window_writes m) \<le> unat ((bm_last_access_epoch m - 1) mod W) + 1 \<and>
           unat (bm_phase_change_count m) \<le> unat (bm_window_reads m) + unat (bm_window_writes m) \<and>
           0 < unat (bm_window_reads m) + unat (bm_window_writes m))"

lemma profile_ok_new: "profile_ok W e (new_BlockMeta\<lparr>bm_bid := bid\<rparr>)"
  by (simp add: profile_ok_def new_BlockMeta_def)

lemma profile_ok_mono: "profile_ok W e m \<Longrightarrow> e \<le> e' \<Longrightarrow> profile_ok W e' m"
  by (auto simp: profile_ok_def)

text \<open>Two accesses of one window, the later one further into it.\<close>

lemma same_window:
  fixes a b W :: u64
  assumes "W \<noteq> 0" "a < b" "a div W = b div W"
  shows "unat (a mod W) + 1 \<le> unat (b mod W)"
proof -
  have "unat a div unat W = unat b div unat W" using assms(3) by (metis unat_div)
  moreover have "unat a < unat b" using assms(2) by (simp add: word_less_nat_alt)
  ultimately have "unat a mod unat W < unat b mod unat W"
    by (metis add_less_cancel_left div_mult_mod_eq)
  then show ?thesis by (simp add: unat_mod)
qed

lemma observe_profile_sel:
  fixes ep W :: u64
  defines "fresh m \<equiv> bm_window_id m \<noteq> (ep - 1) div W"
  shows "bm_last_access_epoch (observe_profile ep W type is_local m) = ep"
    "bm_window_id (observe_profile ep W type is_local m) = (ep - 1) div W"
    "bm_window_reads (observe_profile ep W type is_local m) =
       (if fresh m then 0 else bm_window_reads m) + (if type = kRead then 1 else 0)"
    "bm_window_writes (observe_profile ep W type is_local m) =
       (if fresh m then 0 else bm_window_writes m) + (if type = kWrite then 1 else 0)"
    "bm_phase_change_count (observe_profile ep W type is_local m) =
       (if fresh m then 0 else bm_phase_change_count m) +
       (if bm_last_access_epoch m \<noteq> 0 \<and> bm_last_access_type m \<noteq> access_type_value type then 1 else 0)"
  by (cases type; simp add: observe_profile_def Let_def fresh_def)+

lemma unat_plus_one': "unat (w :: u64) + 1 < 2 ^ 64 \<Longrightarrow> unat (w + 1) = unat w + 1"
  by (simp add: unat_word_ariths)

text \<open>Counting one access: the counters that go up do not wrap.\<close>

lemma observe_counts:
  fixes r w c :: u64
  assumes "unat r + unat w \<le> k" "unat c \<le> unat r + unat w" "k + 1 < 2 ^ 64"
    and "r' = r + (if type = kRead then 1 else 0)" "w' = w + (if type = kWrite then 1 else 0)"
    and "c' = c + (if b then 1 else 0)"
  shows "unat r' + unat w' = unat r + unat w + 1 \<and> unat c' \<le> unat r' + unat w'"
proof -
  have "unat r + 1 < 2 ^ 64" "unat w + 1 < 2 ^ 64" "unat c + 1 < 2 ^ 64" using assms(1,2,3) by linarith+
  then have up: "unat (r + 1) = unat r + 1" "unat (w + 1) = unat w + 1" "unat (c + 1) = unat c + 1"
    by (simp_all only: unat_plus_one')
  have c: "unat c' \<le> unat c + 1" unfolding assms(6) using up(3) by simp
  show ?thesis unfolding assms(4,5) using up(1,2) c assms(2) by (cases type) simp_all
qed

lemma before_epoch:
  fixes l e :: u64
  assumes "l \<noteq> 0" "l \<le> e"
  shows "l - 1 < e"
proof -
  have "0 < unat l" using assms(1) by (simp add: unat_gt_0)
  moreover have "unat l \<le> unat e" using assms(2) by (simp add: word_le_nat_alt)
  ultimately have "unat l - 1 < unat e" by linarith
  then show ?thesis using unat_minus_one [OF assms(1)] by (simp only: word_less_nat_alt)
qed

lemma observe_profile_ok:
  assumes ok: "profile_ok W e m" and W: "W \<noteq> 0" and e: "e < u64_max"
  shows "profile_ok W (e + 1) (observe_profile (e + 1) W type is_local m)"
proof -
  let ?m = "observe_profile (e + 1) W type is_local m" and ?fresh = "bm_window_id m \<noteq> e div W"
  let ?r = "if ?fresh then 0 else bm_window_reads m" and ?w = "if ?fresh then 0 else bm_window_writes m"
  let ?c = "if ?fresh then 0 else bm_phase_change_count m"
  let ?b = "bm_last_access_epoch m \<noteq> 0 \<and> bm_last_access_type m \<noteq> access_type_value type"
  have small: "unat (e mod W) + 1 < 2 ^ 64"
  proof -
    have "unat (e mod W) < unat W" using W by (simp add: unat_mod unat_gt_0)
    then show ?thesis using unat_u64_lt [of W] by simp
  qed
  have base: "unat ?r + unat ?w \<le> unat (e mod W)" "unat ?c \<le> unat ?r + unat ?w"
  proof -
    consider (fresh) ?fresh | (new) "bm_last_access_epoch m = 0" | (used) "\<not> ?fresh" "bm_last_access_epoch m \<noteq> 0"
      by blast
    then have "unat ?r + unat ?w \<le> unat (e mod W) \<and> unat ?c \<le> unat ?r + unat ?w"
    proof cases
      case fresh
      then show ?thesis by simp
    next
      case new
      then have "bm_window_reads m = 0" "bm_window_writes m = 0" "bm_phase_change_count m = 0"
        using ok by (simp_all add: profile_ok_def)
      then show ?thesis by simp
    next
      case used
      have le: "bm_last_access_epoch m \<le> e" and win: "(bm_last_access_epoch m - 1) div W = e div W"
        and cnt: "unat (bm_window_reads m) + unat (bm_window_writes m) \<le> unat ((bm_last_access_epoch m - 1) mod W) + 1"
          "unat (bm_phase_change_count m) \<le> unat (bm_window_reads m) + unat (bm_window_writes m)"
        using ok used by (simp_all add: profile_ok_def)
      from le_trans [OF cnt(1) same_window [OF W before_epoch [OF used(2) le] win]] cnt(2) used(1)
      show ?thesis by simp
    qed
    then show "unat ?r + unat ?w \<le> unat (e mod W)" "unat ?c \<le> unat ?r + unat ?w" by blast+
  qed
  note counts = observe_counts [OF base small refl refl refl, of type ?b]
  have "bm_window_reads ?m = ?r + (if type = kRead then 1 else 0)"
    "bm_window_writes ?m = ?w + (if type = kWrite then 1 else 0)" "bm_phase_change_count ?m = ?c + (if ?b then 1 else 0)"
    by (simp_all only: observe_profile_sel add_diff_cancel_right')
  note counts' = counts [folded this]
  have "e + 1 \<noteq> 0" using e by (metis add_eq_0_iff2 less_irrefl)
  moreover have "unat (bm_window_reads ?m) + unat (bm_window_writes ?m) \<le> unat (e mod W) + 1"
    using counts' base(1) by linarith
  ultimately show ?thesis using counts' by (simp only: profile_ok_def observe_profile_sel(1,2)) simp
qed

section \<open>Observing a sequence of blocks\<close>

definition profiled :: "Process \<Rightarrow> bool" where
  "profiled p \<longleftrightarrow> (\<forall>bid. profile_ok (SafeWindowSize (cfg_profiling_window_size (cm_cfg (rc_cache_manager p))))
     (cm_access_epoch (rc_cache_manager p)) (meta_at (rc_block_table p) bid))"

lemma SafeWindowSize_pos: "SafeWindowSize w \<noteq> 0"
  by (auto simp: SafeWindowSize_def max_def)

lemma profile_ok_mode: "profile_ok W e (m\<lparr>bm_mode := a, bm_coherence_switch_count := b\<rparr>) = profile_ok W e m"
  "profile_ok W e (m\<lparr>bm_mode := a\<rparr>) = profile_ok W e m"
  by (simp_all add: profile_ok_def)

lemma ObserveAccess_profile_ok:
  fixes cm :: CacheManager
  defines "W \<equiv> SafeWindowSize (cfg_profiling_window_size (cm_cfg cm))"
  assumes "profile_ok W (cm_access_epoch cm) m" "cm_access_epoch cm < u64_max"
  shows "profile_ok W (cm_access_epoch cm + 1) (the (snd (snd (ObserveAccess cm (Some m) type is_local))))"
proof -
  have "profile_ok W (cm_access_epoch cm + 1) (observe_profile (cm_access_epoch cm + 1) W type is_local m)"
    using assms(2,3) unfolding W_def by (intro observe_profile_ok SafeWindowSize_pos)
  then show ?thesis by (simp add: ObserveAccess_def Let_def W_def profile_ok_mode)
qed

lemma profiled_observed:
  assumes "profiled p" "cm_access_epoch (rc_cache_manager p) < u64_max"
  shows "profiled (observed p bid type is_local)"
proof -
  let ?cm = "rc_cache_manager p" and ?m = "meta_at (rc_block_table p) bid"
  let ?W = "SafeWindowSize (cfg_profiling_window_size (cm_cfg ?cm))"
  have cm: "rc_cache_manager (observed p bid type is_local) = ?cm\<lparr>cm_access_epoch := cm_access_epoch ?cm + 1\<rparr>"
    using observed_shape [of p bid type is_local] by auto
  have table: "rc_block_table (observed p bid type is_local) =
      update_meta (rc_block_table p) bid (\<lambda>_. the (snd (snd (ObserveAccess ?cm (Some ?m) type is_local))))"
    by (simp add: observed_def split_beta)
  have "cm_access_epoch ?cm \<le> cm_access_epoch ?cm + 1"
    using unat_plus_one [OF assms(2)] by (simp add: word_le_nat_alt)
  then have "profile_ok ?W (cm_access_epoch ?cm + 1) (meta_at (rc_block_table p) b)" for b
    using assms(1) profile_ok_mono unfolding profiled_def by blast
  moreover have "profile_ok ?W (cm_access_epoch ?cm + 1) (the (snd (snd (ObserveAccess ?cm (Some ?m) type is_local))))"
    using assms by (intro ObserveAccess_profile_ok) (simp_all add: profiled_def)
  ultimately show ?thesis unfolding profiled_def cm table by (simp add: meta_at_update)
qed

lemma profiled_ObserveMetas:
  "profiled p \<Longrightarrow> unat (cm_access_epoch (rc_cache_manager p)) + length metas < 2 ^ 64 \<Longrightarrow>
   profiled (snd (ObserveMetas p metas type is_local))"
proof (induction metas arbitrary: p)
  case (Cons bid metas)
  let ?e = "cm_access_epoch (rc_cache_manager p)"
  have lt: "unat ?e + 1 < 2 ^ 64" using Cons.prems(2) by simp
  then have "?e < u64_max" by (simp add: word_less_nat_alt unat_u64_max)
  moreover have "unat (?e + 1) = unat ?e + 1" using lt by (rule unat_plus_one')
  moreover have "cm_access_epoch (rc_cache_manager (observed p bid type is_local)) = ?e + 1"
    using observed_shape [of p bid type is_local] by auto
  ultimately show ?case
    using Cons.prems Cons.IH [OF profiled_observed] by (simp add: ObserveMetas_Cons)
qed simp

lemma profile_ok_prepare: "profile_ok W e (prepare_block cfg addr type m) = profile_ok W e m"
  by (simp add: profile_ok_def prepare_block_def Let_def)

lemma profiled_Prepare:
  assumes "profiled p" "PrepareMetadata p brange addr type = Some (metas, q)"
  shows "profiled q"
proof -
  have "profiled (snd (metas, q))"
  proof (rule for_incl_inv [where I = "\<lambda>s. profiled (snd s)"])
    show "for_incl (prepare_step addr type) (bi_block_index (br_first brange)) (bi_block_index (br_last brange)) ([], p) =
        Some (metas, q)" using assms(2) by (simp add: PrepareMetadata_def)
    show "profiled (snd ([] :: BlockId list, p))" using assms(1) by simp
  next
    fix x s s'
    assume ok: "profiled (snd s)" and step: "prepare_step addr type x s = Some s'"
    obtain ms p' where s: "s = (ms, p')" by force
    let ?bid = "\<lparr>bi_region_id = ga_region_id addr, bi_block_index = x\<rparr>"
    have "snd s' = p'\<lparr>rc_block_table := update_meta (GetOrCreate (rc_block_table p') ?bid) ?bid
        (prepare_block (rc_config p') addr type)\<rparr>"
      using step unfolding s by (auto simp: prepare_step_def Let_def)
    then show "profiled (snd s')"
      using ok unfolding s by (simp add: profiled_def meta_at_update profile_ok_prepare)
  qed
  then show ?thesis by simp
qed

text \<open>What the invariant says of the counters the mode decision and the admission test divide by.\<close>

lemma profile_ok_window:
  assumes "profile_ok W e m" "W \<noteq> 0"
  shows "unat (bm_window_reads m) + unat (bm_window_writes m) \<le> unat W"
    "unat (bm_phase_change_count m) \<le> unat (bm_window_reads m) + unat (bm_window_writes m)"
    "bm_last_access_epoch m \<noteq> 0 \<Longrightarrow> 0 < unat (bm_window_reads m) + unat (bm_window_writes m)"
proof -
  have "unat (x mod W) < unat W" for x using assms(2) by (simp add: unat_mod unat_gt_0)
  from this [of "bm_last_access_epoch m - 1"] show "unat (bm_window_reads m) + unat (bm_window_writes m) \<le> unat W"
    using assms(1) by (cases "bm_last_access_epoch m = 0") (simp_all add: profile_ok_def)
  show "unat (bm_phase_change_count m) \<le> unat (bm_window_reads m) + unat (bm_window_writes m)"
    using assms(1) by (cases "bm_last_access_epoch m = 0") (simp_all add: profile_ok_def)
  show "bm_last_access_epoch m \<noteq> 0 \<Longrightarrow> 0 < unat (bm_window_reads m) + unat (bm_window_writes m)"
    using assms(1) by (simp add: profile_ok_def)
qed

text \<open>
  C20: the profile of every block stays well-formed under an access. When the metadata of the
  blocks of a range are prepared and the access is observed on each of them, the counters of every
  block still belong to the window of its last access, the reads and writes of a window never
  exceed the window size (so the 64-bit counters cannot wrap), there are never more phase changes
  than accesses, and a block that was accessed has a non-zero count, so the ratios of the mode
  decision and of the admission test are never a division by zero. The hypothesis on the epoch is
  that the global access counter does not wrap during the call.
\<close>

theorem profile_window_invariant:
  assumes "profiled p" "PrepareMetadata p brange addr type = Some (metas, q)"
    and "unat (cm_access_epoch (rc_cache_manager p)) + length metas < 2 ^ 64"
    and r: "r = snd (ObserveMetas q metas type is_local)"
    and m: "m = meta_at (rc_block_table r) bid"
  shows "profiled r \<and>
    unat (bm_window_reads m) + unat (bm_window_writes m)
      \<le> unat (SafeWindowSize (cfg_profiling_window_size (cm_cfg (rc_cache_manager r)))) \<and>
    unat (bm_phase_change_count m) \<le> unat (bm_window_reads m) + unat (bm_window_writes m) \<and>
    (bm_last_access_epoch m \<noteq> 0 \<longrightarrow> 0 < unat (bm_window_reads m) + unat (bm_window_writes m))"
proof -
  have "cm_access_epoch (rc_cache_manager q) = cm_access_epoch (rc_cache_manager p)"
    using PrepareMetadata_shape [OF assms(2)] by auto
  then have prof: "profiled r" unfolding r
    using assms(3) by (intro profiled_ObserveMetas profiled_Prepare [OF assms(1,2)]) simp
  then have "profile_ok (SafeWindowSize (cfg_profiling_window_size (cm_cfg (rc_cache_manager r))))
      (cm_access_epoch (rc_cache_manager r)) m"
    by (simp add: profiled_def m)
  from prof profile_ok_window [OF this SafeWindowSize_pos] show ?thesis by simp
qed

lemma profiled_first: "profiled first_process"
  unfolding first_process_up
  by (simp add: profiled_def brought_up_def meta_at_def profile_ok_new)

lemma first_epoch: "cm_access_epoch (rc_cache_manager first_process) = 0"
  by (simp add: first_process_up brought_up_def new_CacheManager_def)

theorem profile_window_invariant_witness:
  "\<exists>metas q. PrepareMetadata first_process
       \<lparr>br_first = \<lparr>bi_region_id = 0, bi_block_index = 1\<rparr>, br_last = \<lparr>bi_region_id = 0, bi_block_index = 2\<rparr>, br_count = 2\<rparr>
       \<lparr>ga_home_node = 0, ga_region_id = 0, ga_offset = 24\<rparr> kWrite = Some (metas, q) \<and>
     length metas = 2 \<and> profiled (snd (ObserveMetas q metas kWrite True))"
proof -
  let ?R = "\<lparr>br_first = \<lparr>bi_region_id = 0, bi_block_index = 1\<rparr>, br_last = \<lparr>bi_region_id = 0, bi_block_index = 2\<rparr>, br_count = 2\<rparr>"
  let ?A = "\<lparr>ga_home_node = 0, ga_region_id = 0, ga_offset = 24\<rparr>"
  have "index_range 1 2 = [1, 2]" by (simp add: index_range_def upt_rec)
  then obtain metas q where run: "PrepareMetadata first_process ?R ?A kWrite = Some (metas, q)" and len: "length metas = 2"
    by (simp add: PrepareMetadata_def for_incl_foldO prepare_step_def Let_def)
  from profile_window_invariant [OF profiled_first run _ refl refl] run len show ?thesis
    by (auto simp: first_epoch)
qed

section \<open>The mode of a uniform window\<close>

lemma double_share:
  assumes "unat w < 2 ^ 53" "w \<noteq> 0"
  shows "double_of_u64 w \<noteq> 0" "double_add (double_of_u64 w) 0 = double_of_u64 w"
    "double_add 0 (double_of_u64 w) = double_of_u64 w" "double_div (double_of_u64 w) (double_of_u64 w) = 1"
proof -
  have eq: "double_of_u64 w = of_nat (unat w)" by (rule double_small [OF assms(1)])
  have "unat w \<noteq> 0" using assms(2) by (simp only: unat_eq_0) simp
  then show nz: "double_of_u64 w \<noteq> 0" unfolding eq by (simp only: of_nat_eq_0_iff not_False_eq_True)
  have "round64 (double_of_u64 w) = double_of_u64 w"
    using double_of_u64_def [of w] unfolding eq by (rule sym)
  then show "double_add (double_of_u64 w) 0 = double_of_u64 w" "double_add 0 (double_of_u64 w) = double_of_u64 w"
    by (simp_all only: double_add_def add_0_left add_0_right)
  show "double_div (double_of_u64 w) (double_of_u64 w) = 1"
    using nz by (simp add: double_div_def)
qed

lemma double_zero [simp]: "double_of_u64 0 = 0"
  by (simp add: double_of_u64_def)

lemma double_div_zero: "double_div 0 b = 0"
  by (simp add: double_div_def)

lemma profile_ok_changes:
  assumes "profile_ok W e m" "bm_last_access_epoch m \<noteq> 0"
  shows "unat (bm_phase_change_count m) \<le> unat (bm_window_reads m) + unat (bm_window_writes m)"
  using assms by (simp add: profile_ok_def)

text \<open>
  C21: the mode decision on a window with one kind of access, when no mode is forced, for finite
  thresholds and the write threshold above 0 and at most 1. A window of writes only makes the block
  write-invalidate. A window of reads only still makes it write-invalidate when the share of phase
  changes among its accesses (its first read may follow a write of the window before), rounded to a
  double, reaches its threshold; otherwise it is self-invalidate, unless the sharer count or the
  invalidation cost has reached its promotion threshold, which makes it adaptive. The window is below
  \<open>2 ^ 53\<close> accesses, the range in which the counters convert to doubles exactly.
\<close>

theorem mode_of_uniform_window:
  assumes "cfg_coherence_mode_override cfg < 0 \<or> mode_int kAdaptive < cfg_coherence_mode_override cfg"
    and "cfg_coherence_write_dominant_ratio cfg = F64 t" "0 < t" "t \<le> 1"
    and "cfg_coherence_phase_change_promote_ratio cfg = F64 u"
    and "profile_ok W e m" "unat W < 2 ^ 53" "W \<noteq> 0" "bm_last_access_epoch m \<noteq> 0"
  shows "(bm_window_reads m = 0 \<longrightarrow> DecideCoherenceMode cfg m = kWI) \<and>
    (bm_window_writes m = 0 \<longrightarrow>
     DecideCoherenceMode cfg m =
       (if u \<le> round64 (of_nat (unat (bm_phase_change_count m)) / of_nat (unat (bm_window_reads m))) then kWI
        else if cfg_coherence_sharer_promote_threshold cfg \<le> ucast (bm_sharer_count m) \<or>
           cfg_coherence_invalidation_promote_threshold cfg \<le> bm_invalidation_cost m
        then kAdaptive else kSI))"
proof -
  note win = profile_ok_window [OF assms(6,8)]
  have small: "unat (bm_window_reads m) < 2 ^ 53" "unat (bm_window_writes m) < 2 ^ 53"
      "unat (bm_phase_change_count m) < 2 ^ 53"
    using win(1) profile_ok_changes [OF assms(6,9)] assms(7) by linarith+
  have forced: "(0 \<le> cfg_coherence_mode_override cfg \<and> cfg_coherence_mode_override cfg \<le> mode_int kAdaptive) = False"
    using assms(1) by auto
  have nz: "bm_window_reads m = 0 \<Longrightarrow> bm_window_writes m \<noteq> 0" using win(3) [OF assms(9)] by auto
  have "DecideCoherenceMode cfg m = kWI" if "bm_window_reads m = 0"
    using that double_share [OF small(2) nz [OF that]] assms(2,4)
    by (simp add: DecideCoherenceMode_def forced Let_def del: mode_int.simps)
  moreover have "DecideCoherenceMode cfg m =
      (if u \<le> round64 (of_nat (unat (bm_phase_change_count m)) / of_nat (unat (bm_window_reads m))) then kWI
       else if cfg_coherence_sharer_promote_threshold cfg \<le> ucast (bm_sharer_count m) \<or>
          cfg_coherence_invalidation_promote_threshold cfg \<le> bm_invalidation_cost m
       then kAdaptive else kSI)" if "bm_window_writes m = 0"
  proof -
    have "bm_window_reads m \<noteq> 0" using nz that by blast
    note share = double_share [OF small(1) this]
    have "double_div (double_of_u64 (bm_phase_change_count m)) (double_of_u64 (bm_window_reads m)) =
        round64 (of_nat (unat (bm_phase_change_count m)) / of_nat (unat (bm_window_reads m)))"
      unfolding double_div_def double_small [OF small(1)] double_small [OF small(3)] ..
    with share that assms(2,3,5) show ?thesis
      by (simp add: DecideCoherenceMode_def forced Let_def double_div_zero del: mode_int.simps)
  qed
  ultimately show ?thesis by blast
qed

theorem mode_of_uniform_window_witness:
  "DecideCoherenceMode (default_config\<lparr>cfg_coherence_write_dominant_ratio := F64 1, cfg_coherence_phase_change_promote_ratio := F64 (1 / 2)\<rparr>)
     (new_BlockMeta\<lparr>bm_last_access_epoch := 2, bm_window_writes := 2\<rparr>) = kWI \<and>
   DecideCoherenceMode (default_config\<lparr>cfg_coherence_write_dominant_ratio := F64 1, cfg_coherence_phase_change_promote_ratio := F64 (1 / 2)\<rparr>)
     (new_BlockMeta\<lparr>bm_last_access_epoch := 2, bm_window_reads := 2\<rparr>) = kSI"
  using mode_of_uniform_window [of "default_config\<lparr>cfg_coherence_write_dominant_ratio := F64 1, cfg_coherence_phase_change_promote_ratio := F64 (1 / 2)\<rparr>"
      1 "1 / 2" 8 2 "new_BlockMeta\<lparr>bm_last_access_epoch := 2, bm_window_writes := 2\<rparr>"]
    mode_of_uniform_window [of "default_config\<lparr>cfg_coherence_write_dominant_ratio := F64 1, cfg_coherence_phase_change_promote_ratio := F64 (1 / 2)\<rparr>"
      1 "1 / 2" 8 2 "new_BlockMeta\<lparr>bm_last_access_epoch := 2, bm_window_reads := 2\<rparr>"]
  by (simp add: profile_ok_def new_BlockMeta_def default_config_def round64_def)

end
