(* ===== verification/Text_Codec.thy ===== *)
theory Text_Codec
  imports Binary64
begin

text \<open>
  The parts of the C++ library the text formats use: \<^verbatim>\<open>operator<<\<close> on integers,
  \<^verbatim>\<open>std::getline\<close>, splitting a line at its first \<^verbatim>\<open>=\<close>, and the
  conversions \<^verbatim>\<open>std::stoul\<close>, \<^verbatim>\<open>std::stoull\<close>, \<^verbatim>\<open>std::stoi\<close> and
  \<^verbatim>\<open>std::stod\<close> with the exceptions they throw. \<^verbatim>\<open>unsigned long\<close> has 64 bits.
\<close>

section \<open>Model\<close>

datatype parse_error = invalid_argument | out_of_range

definition newline :: char where
  "newline = CHR 0x0A"

subsection \<open>Printing integers\<close>

text \<open>The decimal digits of a number that is not negative.\<close>

function dec_digits :: "int \<Rightarrow> string" where
  "dec_digits n = (if n < 10 then [char_of (48 + n)] else dec_digits (n div 10) @ [char_of (48 + n mod 10)])"
  by pat_completeness auto

termination
  by (relation "measure nat") auto

declare dec_digits.simps [simp del]

definition print_word :: "'a::len word \<Rightarrow> string" where
  "print_word w = dec_digits (uint w)"

definition print_int :: "int \<Rightarrow> string" where
  "print_int i = (if i < 0 then CHR ''-'' # dec_digits (- i) else dec_digits i)"

subsection \<open>Lines\<close>

text \<open>
  The strings successive calls of \<^verbatim>\<open>std::getline\<close> read up to the delimiter; a call that
  meets the end of the input before any character fails.
\<close>

function getlines :: "char \<Rightarrow> string \<Rightarrow> string list" where
  "getlines d [] = []"
| "getlines d (c # cs) =
     takeWhile (\<lambda>x. x \<noteq> d) (c # cs) # getlines d (tl (dropWhile (\<lambda>x. x \<noteq> d) (c # cs)))"
  by pat_completeness auto

termination
  by (relation "measure (length \<circ> snd)")
     (auto simp: less_Suc_eq_le intro: le_trans [OF diff_le_self] length_dropWhile_le split: if_splits)

definition key_value :: "string \<Rightarrow> (string \<times> string) option" where
  "key_value line =
     (case dropWhile (\<lambda>c. c \<noteq> CHR ''='') line of
        [] \<Rightarrow> None
      | _ # value' \<Rightarrow> Some (takeWhile (\<lambda>c. c \<noteq> CHR ''='') line, value'))"

text \<open>The loop over the lines of a text: a line without \<^verbatim>\<open>=\<close> is skipped, an exception leaves it.\<close>

fun apply_lines :: "(string \<Rightarrow> string \<Rightarrow> 's \<Rightarrow> parse_error + 's) \<Rightarrow> string list \<Rightarrow> 's \<Rightarrow> parse_error + 's" where
  "apply_lines f [] s = Inr s"
| "apply_lines f (line # lines) s =
     (case key_value line of
        None \<Rightarrow> apply_lines f lines s
      | Some (key, value') \<Rightarrow>
          (case f key value' s of Inl e \<Rightarrow> Inl e | Inr s \<Rightarrow> apply_lines f lines s))"

subsection \<open>Integers\<close>

definition is_space :: "char \<Rightarrow> bool" where
  "is_space c \<longleftrightarrow> c = CHR '' '' \<or> (9 \<le> (of_char c :: int) \<and> (of_char c :: int) \<le> 13)"

definition is_digit :: "char \<Rightarrow> bool" where
  "is_digit c \<longleftrightarrow> 48 \<le> (of_char c :: int) \<and> (of_char c :: int) \<le> 57"

definition digit_val :: "char \<Rightarrow> int" where
  "digit_val c = of_char c - 48"

definition digits_val :: "string \<Rightarrow> int" where
  "digits_val ds = foldl (\<lambda>n c. 10 * n + digit_val c) 0 ds"

text \<open>White space and a sign, as every conversion skips them: the sign and the rest.\<close>

definition scan_sign :: "string \<Rightarrow> bool \<times> string" where
  "scan_sign s =
     (case dropWhile is_space s of
        [] \<Rightarrow> (False, [])
      | c # cs \<Rightarrow> if c = CHR ''-'' then (True, cs) else if c = CHR ''+'' then (False, cs) else (False, c # cs))"

definition scan_integer :: "string \<Rightarrow> (bool \<times> int) option" where
  "scan_integer s =
     (let (neg, s) = scan_sign s; ds = takeWhile is_digit s
      in if ds = [] then None else Some (neg, digits_val ds))"

text \<open>A minus sign negates modulo \<open>2\<^sup>64\<close>; characters after the digits are ignored.\<close>

definition stoull :: "string \<Rightarrow> parse_error + u64" where
  "stoull s =
     (case scan_integer s of
        None \<Rightarrow> Inl invalid_argument
      | Some (neg, n) \<Rightarrow>
          if 2 ^ 64 \<le> n then Inl out_of_range else Inr (of_int (if neg then - n else n)))"

abbreviation stoul :: "string \<Rightarrow> parse_error + u64" where
  "stoul \<equiv> stoull"

definition stoi :: "string \<Rightarrow> parse_error + int" where
  "stoi s =
     (case scan_integer s of
        None \<Rightarrow> Inl invalid_argument
      | Some (neg, n) \<Rightarrow>
          let v = (if neg then - n else n)
          in if v < - (2 ^ 31) \<or> 2 ^ 31 \<le> v then Inl out_of_range else Inr v)"

subsection \<open>Floating point\<close>

definition hex_val :: "char \<Rightarrow> int option" where
  "hex_val c =
     (let v = of_char c :: int
      in if is_digit c then Some (v - 48)
         else if 65 \<le> v \<and> v \<le> 70 then Some (v - 55)
         else if 97 \<le> v \<and> v \<le> 102 then Some (v - 87) else None)"

definition hex_digits_val :: "string \<Rightarrow> int" where
  "hex_digits_val ds = foldl (\<lambda>n c. 16 * n + the (hex_val c)) 0 ds"

text \<open>The digits before and after an optional point, and the rest.\<close>

definition scan_point :: "(char \<Rightarrow> bool) \<Rightarrow> string \<Rightarrow> string \<times> string \<times> string" where
  "scan_point digit s =
     (case dropWhile digit s of
        [] \<Rightarrow> (takeWhile digit s, [], [])
      | c # cs \<Rightarrow>
          if c = CHR ''.'' then (takeWhile digit s, takeWhile digit cs, dropWhile digit cs)
          else (takeWhile digit s, [], c # cs))"

text \<open>An exponent introduced by one of two letters; without digits there is none.\<close>

definition scan_exponent :: "char \<Rightarrow> char \<Rightarrow> string \<Rightarrow> int" where
  "scan_exponent lower upper s =
     (case s of
        [] \<Rightarrow> 0
      | c # cs \<Rightarrow>
          if c = lower \<or> c = upper then
            let (neg, cs) = (case cs of
                               [] \<Rightarrow> (False, [])
                             | d # ds \<Rightarrow> if d = CHR ''-'' then (True, ds)
                                         else if d = CHR ''+'' then (False, ds) else (False, cs));
                n = digits_val (takeWhile is_digit cs)
            in if neg then - n else n
          else 0)"

definition ten_pow :: "int \<Rightarrow> rat" where
  "ten_pow e = (if 0 \<le> e then 10 ^ nat e else 1 / 10 ^ nat (- e))"

definition scan_decimal :: "string \<Rightarrow> rat option" where
  "scan_decimal s =
     (let (ip, fp, rest) = scan_point is_digit s
      in if ip @ fp = [] then None
         else Some (of_int (digits_val (ip @ fp)) *
                    ten_pow (scan_exponent CHR ''e'' CHR ''E'' rest - int (length fp))))"

definition scan_hex :: "string \<Rightarrow> rat option" where
  "scan_hex s =
     (let (ip, fp, rest) = scan_point (\<lambda>c. hex_val c \<noteq> None) s
      in if ip @ fp = [] then None
         else Some (of_int (hex_digits_val (ip @ fp)) *
                    two_pow (scan_exponent CHR ''p'' CHR ''P'' rest - 4 * int (length fp))))"

definition scan_magnitude :: "string \<Rightarrow> rat option" where
  "scan_magnitude s =
     (if take 2 s = ''0x'' \<or> take 2 s = ''0X''
      then (case scan_hex (drop 2 s) of None \<Rightarrow> Some 0 | Some q \<Rightarrow> Some q)
      else scan_decimal s)"

definition lower_case :: "char \<Rightarrow> char" where
  "lower_case c = (let v = of_char c :: int in if 65 \<le> v \<and> v \<le> 90 then char_of (v + 32) else c)"

text \<open>
  A magnitude beyond the largest double is out of range, and so is an inexact one that is
  subnormal after rounding.
\<close>

definition stod :: "string \<Rightarrow> parse_error + f64" where
  "stod s =
     (let (neg, s) = scan_sign s in
      if map lower_case (take 3 s) = ''inf'' then Inr (F64_inf neg)
      else if map lower_case (take 3 s) = ''nan'' then Inr F64_nan
      else case scan_magnitude s of
             None \<Rightarrow> Inl invalid_argument
           | Some q \<Rightarrow>
               let r = round64 q in
               if 2 ^ 1024 \<le> r \<or> r \<noteq> q \<and> round_at (free_exp q) q < two_pow (- 1022) then Inl out_of_range
               else Inr (F64 (if neg then - r else r)))"

section \<open>Round trips\<close>

lemma is_digit_char [simp]: "0 \<le> k \<Longrightarrow> k < 10 \<Longrightarrow> is_digit (char_of (48 + k :: int))"
  by (simp add: is_digit_def)

lemma digit_val_char [simp]: "0 \<le> k \<Longrightarrow> k < 10 \<Longrightarrow> digit_val (char_of (48 + k :: int)) = k"
  by (simp add: digit_val_def)

lemma dec_digits_all: "0 \<le> n \<Longrightarrow> list_all is_digit (dec_digits n)"
  by (induction n rule: dec_digits.induct) (subst dec_digits.simps, auto)

lemma dec_digits_nonempty [simp]: "dec_digits n \<noteq> []"
  by (subst dec_digits.simps) simp

lemma digits_val_dec [simp]: "0 \<le> n \<Longrightarrow> digits_val (dec_digits n) = n"
  by (induction n rule: dec_digits.induct) (subst dec_digits.simps, auto simp: digits_val_def)

lemma digit_no_space: "is_digit c \<Longrightarrow> \<not> is_space c \<and> c \<noteq> CHR ''-'' \<and> c \<noteq> CHR ''+'' \<and> c \<noteq> CHR '':'' \<and> c \<noteq> newline"
  by (auto simp: is_digit_def is_space_def newline_def)

lemma dec_digits_set: "c \<in> set (dec_digits n) \<Longrightarrow> 0 \<le> n \<Longrightarrow> is_digit c"
  using dec_digits_all [of n] by (auto simp: list_all_iff)

lemma scan_integer_dec [simp]:
  assumes "0 \<le> n"
  shows "scan_integer (dec_digits n) = Some (False, n)" "scan_integer (CHR ''-'' # dec_digits n) = Some (True, n)"
proof -
  obtain c cs where d: "dec_digits n = c # cs" by (cases "dec_digits n") auto
  then have "is_digit c" using dec_digits_set [of c n] assms by simp
  then have "scan_sign (dec_digits n) = (False, dec_digits n)"
    using digit_no_space [of c] by (simp add: d scan_sign_def)
  moreover have "scan_sign (CHR ''-'' # dec_digits n) = (True, dec_digits n)" by (simp add: scan_sign_def is_space_def)
  moreover have "takeWhile is_digit (dec_digits n) = dec_digits n"
    using assms by (auto simp: takeWhile_eq_all_conv dest: dec_digits_set)
  ultimately show "scan_integer (dec_digits n) = Some (False, n)" "scan_integer (CHR ''-'' # dec_digits n) = Some (True, n)"
    using assms unfolding scan_integer_def Let_def by (simp_all only: prod.case) simp_all
qed

lemma stoull_print: "LENGTH('a) \<le> 64 \<Longrightarrow> stoull (print_word (w :: 'a::len word)) = Inr (ucast w)"
proof -
  assume "LENGTH('a) \<le> 64"
  then have "uint w < 2 ^ 64" by (rule order_less_le_trans [OF unsigned_less power_increasing]) simp
  then show ?thesis by (simp add: stoull_def print_word_def)
qed

lemma narrow_widen [simp]: "LENGTH('a) \<le> LENGTH('b) \<Longrightarrow> ucast (ucast w :: 'b::len word) = (w :: 'a::len word)"
  by (rule bit_word_eqI) (simp add: bit_ucast_iff)

lemma stoi_print: "- (2 ^ 31) \<le> i \<Longrightarrow> i < 2 ^ 31 \<Longrightarrow> stoi (print_int i) = Inr i"
  by (auto simp: stoi_def print_int_def)

lemma print_no_newline: "newline \<notin> set (print_word w)" "newline \<notin> set (print_int i)" "CHR '':'' \<notin> set (print_word w)"
  by (auto simp: print_word_def print_int_def dest!: dec_digits_set dest: digit_no_space) (simp add: newline_def)

text \<open>A text of lines that each end with the delimiter, and one whose last line does not.\<close>

lemma getlines_line: "d \<notin> set l \<Longrightarrow> getlines d (l @ d # rest) = l # getlines d rest"
proof -
  assume "d \<notin> set l"
  then have "takeWhile (\<lambda>x. x \<noteq> d) (l @ d # rest) = l" "dropWhile (\<lambda>x. x \<noteq> d) (l @ d # rest) = d # rest"
    by (auto simp: takeWhile_append dropWhile_append takeWhile_eq_all_conv)
  then show ?thesis by (cases "l @ d # rest") auto
qed

lemma getlines_last: "d \<notin> set l \<Longrightarrow> l \<noteq> [] \<Longrightarrow> getlines d l = [l]"
proof -
  assume "d \<notin> set l" "l \<noteq> []"
  then have "takeWhile (\<lambda>x. x \<noteq> d) l = l" "dropWhile (\<lambda>x. x \<noteq> d) l = []"
    by (auto simp: takeWhile_eq_all_conv)
  then show ?thesis using \<open>l \<noteq> []\<close> by (cases l) auto
qed

lemma key_value_field: "CHR ''='' \<notin> set key \<Longrightarrow> key_value (key @ CHR ''='' # value') = Some (key, value')"
  by (simp add: key_value_def takeWhile_append dropWhile_append takeWhile_eq_all_conv)

text \<open>The conversions on the numbers of the shipped configuration files.\<close>

lemmas scan_defs = scan_integer_def scan_sign_def is_space_def is_digit_def digits_val_def digit_val_def
  scan_magnitude_def scan_decimal_def scan_point_def scan_exponent_def ten_pow_def lower_case_def

lemma number_values:
  "stoull ''0'' = Inr 0" "stoull ''1'' = Inr 1" "stoull ''2'' = Inr 2" "stoull ''4'' = Inr 4" "stoull ''8'' = Inr 8"
  "stoull ''4096'' = Inr 4096" "stoull ''67108864'' = Inr 67108864"
  by (simp_all add: stoull_def scan_defs)

text \<open>A decimal whose rounding is an ordinary double.\<close>

lemma stod_normal:
  assumes "scan_sign s = (False, s)" "map lower_case (take 3 s) \<notin> {''inf'', ''nan''}" "scan_magnitude s = Some q"
    and "0 < q" "- 1074 \<le> free_exp q" "two_pow (- 1022) \<le> round_at (free_exp q) q" "round_at (free_exp q) q < 2 ^ 1024"
  shows "stod s = Inr (f64_of_rat q)"
proof -
  have "round64 q = round_at (free_exp q) q"
    using assms(4,5) by (simp add: round64_def round_pos_def ulp_exp_def max_def)
  with assms show ?thesis by (simp add: stod_def Let_def f64_of_rat_def)
qed

lemma ratio_exps: "free_exp (60 / 100) = - 53" "free_exp (35 / 100) = - 54" "free_exp (55 / 100) = - 53" "free_exp (30 / 100) = - 54"
  by code_simp+

lemma ratio_values:
  "round_at (- 53) (60 / 100) = 5404319552844595 / 9007199254740992"
  "round_at (- 54) (35 / 100) = 6305039478318694 / 18014398509481984"
  "round_at (- 53) (55 / 100) = 4953959590107546 / 9007199254740992"
  "round_at (- 54) (30 / 100) = 5404319552844595 / 18014398509481984"
  by code_simp+

lemma decimal_values:
  "stod ''0.60'' = Inr (f64_of_rat (60 / 100))" "stod ''0.35'' = Inr (f64_of_rat (35 / 100))"
  "stod ''0.55'' = Inr (f64_of_rat (55 / 100))" "stod ''0.30'' = Inr (f64_of_rat (30 / 100))"
proof -
  show "stod ''0.60'' = Inr (f64_of_rat (60 / 100))"
    by (rule stod_normal, unfold ratio_exps ratio_values) (simp_all add: scan_defs two_pow_def)
  show "stod ''0.35'' = Inr (f64_of_rat (35 / 100))"
    by (rule stod_normal, unfold ratio_exps ratio_values) (simp_all add: scan_defs two_pow_def)
  show "stod ''0.55'' = Inr (f64_of_rat (55 / 100))"
    by (rule stod_normal, unfold ratio_exps ratio_values) (simp_all add: scan_defs two_pow_def)
  show "stod ''0.30'' = Inr (f64_of_rat (30 / 100))"
    by (rule stod_normal, unfold ratio_exps ratio_values) (simp_all add: scan_defs two_pow_def)
qed

end
