(* ===== verification/Logging.thy ===== *)
theory Logging
  imports Text_Codec Leo_Types
begin

text \<open>
  The log of \<^verbatim>\<open>src/common/log.cc\<close>: the levels, the line a message adds to the standard
  error stream, and the messages the library sends. The time of day is an argument, as
  \<^verbatim>\<open>localtime_r\<close> gives it.
\<close>

section \<open>Model\<close>

datatype LogLevel = kDebug | kInfo | kWarn | kError

definition LogLevel_ToString :: "LogLevel \<Rightarrow> string" where
  "LogLevel_ToString level =
     (case level of kDebug \<Rightarrow> ''DEBUG'' | kInfo \<Rightarrow> ''INFO'' | kWarn \<Rightarrow> ''WARN'' | kError \<Rightarrow> ''ERROR'')"

record tm =
  tm_hour :: int
  tm_min :: int
  tm_sec :: int

text \<open>The conversion \<^verbatim>\<open>%02d\<close>.\<close>

definition pad2 :: "int \<Rightarrow> string" where
  "pad2 i = (let s = print_int i in
     if 2 \<le> length s then s
     else replicate (2 - length s) (CHR ''0'') @ s)"

text \<open>
  The arguments of a message and the conversions the library uses. A conversion without an argument
  of its type has no defined result; arguments left over are ignored.
\<close>

datatype fmt_arg = U32Arg u32 | SizeArg u64 | StrArg string

fun vfprintf :: "string \<Rightarrow> fmt_arg list \<Rightarrow> string option" where
  "vfprintf [] args = Some []"
| "vfprintf (c # cs) args =
     (if c \<noteq> CHR ''%'' then map_option ((#) c) (vfprintf cs args)
      else case (cs, args) of
          (d # cs', U32Arg w # args') \<Rightarrow>
            if d = CHR ''u'' then map_option ((@) (print_word w)) (vfprintf cs' args') else None
        | (d # cs', StrArg s # args') \<Rightarrow>
            if d = CHR ''s'' then map_option ((@) s) (vfprintf cs' args') else None
        | (d # e # cs', SizeArg w # args') \<Rightarrow>
            if d = CHR ''z'' \<and> e = CHR ''u'' then map_option ((@) (print_word w)) (vfprintf cs' args') else None
        | _ \<Rightarrow> None)"

definition log_prefix :: "tm \<Rightarrow> LogLevel \<Rightarrow> string \<Rightarrow> int \<Rightarrow> string" where
  "log_prefix now level file line =
     ''['' @ pad2 (tm_hour now) @ '':'' @ pad2 (tm_min now) @ '':'' @ pad2 (tm_sec now) @ '']['' @
     LogLevel_ToString level @ '']['' @ file @ '':'' @ print_int line @ ''] ''"

definition LogMessage :: "tm \<Rightarrow> string \<Rightarrow> LogLevel \<Rightarrow> string \<Rightarrow> int \<Rightarrow> string \<Rightarrow> fmt_arg list \<Rightarrow> string option" where
  "LogMessage now stderr level file line fmt args =
     map_option (\<lambda>body. stderr @ log_prefix now level file line @ body @ [newline]) (vfprintf fmt args)"

text \<open>
  The messages of a successful \<^verbatim>\<open>RuntimeContext::Init\<close> and of the two transports. The
  16-bit node numbers and the port are promoted to \<^verbatim>\<open>int\<close>, the device name is that of the
  configuration or of the opened device. A macro call that spans several lines reports its last one.
\<close>

definition log_runtime_initialized :: "tm \<Rightarrow> string \<Rightarrow> string \<Rightarrow> Config \<Rightarrow> string option" where
  "log_runtime_initialized now stderr file cfg =
     LogMessage now stderr kInfo file 51 ''LeoMem runtime initialized: node_id=%u nr_nodes=%u block_size=%zu''
       [U32Arg (ucast (cfg_node_id cfg)), U32Arg (ucast (cfg_nr_nodes cfg)), SizeArg (cfg_block_size cfg)]"

definition log_stub_transport :: "tm \<Rightarrow> string \<Rightarrow> string \<Rightarrow> string option" where
  "log_stub_transport now stderr file = LogMessage now stderr kInfo file 51 ''Using stub transport'' []"

definition log_rdma_initialized :: "tm \<Rightarrow> string \<Rightarrow> string \<Rightarrow> Config \<Rightarrow> string \<Rightarrow> string option" where
  "log_rdma_initialized now stderr file cfg opened =
     LogMessage now stderr kInfo file 210 ''RDMA resources initialized: node=%u device=%s port=%u''
       [U32Arg (ucast (cfg_node_id cfg)),
        StrArg (if cfg_rdma_device_name cfg = [] then opened else cfg_rdma_device_name cfg),
        U32Arg (ucast (cfg_rdma_port cfg))]"

section \<open>Lines of the log\<close>

text \<open>A stream that is empty or ends with a line break.\<close>

definition whole_lines :: "string \<Rightarrow> bool" where
  "whole_lines s \<longleftrightarrow> s = [] \<or> last s = newline"

lemma getlines_append: "s = [] \<or> last s = d \<Longrightarrow> getlines d (s @ t) = getlines d s @ getlines d t"
proof (induction "length s" arbitrary: s rule: less_induct)
  case less
  show ?case
  proof (cases "s = []")
    case False
    then have "d \<in> set s" using less.prems last_in_set [of s] by auto
    then obtain l rest where s: "s = l @ d # rest" and l: "d \<notin> set l" by (meson split_list_first)
    have "getlines d (rest @ t) = getlines d rest @ getlines d t"
      using less.prems s by (intro less.hyps) (auto split: if_splits)
    with getlines_line [OF l] s show ?thesis by simp
  qed simp
qed

lemma level_one_word: "newline \<notin> set (LogLevel_ToString level)"
  by (cases level) (simp_all add: LogLevel_ToString_def newline_def)

lemma prefix_one_line: "newline \<notin> set file \<Longrightarrow> newline \<notin> set (log_prefix now level file line)"
  using print_no_newline(2) level_one_word by (auto simp: log_prefix_def pad2_def Let_def newline_def)

text \<open>Every message adds exactly one line, its prefix and its text, to a log of whole lines.\<close>

lemma LogMessage_one_line:
  assumes "whole_lines stderr" "newline \<notin> set file" "vfprintf fmt args = Some body" "newline \<notin> set body"
  shows "\<exists>log. LogMessage now stderr level file line fmt args = Some log \<and> whole_lines log \<and>
    getlines newline log = getlines newline stderr @ [log_prefix now level file line @ body]"
proof -
  let ?line = "log_prefix now level file line @ body"
  have "newline \<notin> set ?line" using prefix_one_line [OF assms(2)] assms(4) by simp
  then have "getlines newline (?line @ [newline]) = [?line]" using getlines_line [of newline ?line "[]"] by simp
  with assms(1,3) getlines_append [of stderr newline "?line @ [newline]"] show ?thesis
    by (simp add: LogMessage_def whole_lines_def)
qed

text \<open>The messages of the library are well-formed: their conversions match their arguments.\<close>

lemma print_promoted: "print_word (ucast w :: u32) = print_word (w :: u16)"
  by (simp add: print_word_def uint_up_ucast is_up)

lemma log_initialized_text:
  "log_runtime_initialized now stderr file cfg = Some (stderr @ log_prefix now kInfo file 51 @
     ''LeoMem runtime initialized: node_id='' @ print_word (cfg_node_id cfg) @ '' nr_nodes='' @ print_word (cfg_nr_nodes cfg) @
     '' block_size='' @ print_word (cfg_block_size cfg) @ [newline])"
  by (simp add: log_runtime_initialized_def LogMessage_def print_promoted)

lemma log_stub_text:
  "log_stub_transport now stderr file = Some (stderr @ log_prefix now kInfo file 51 @ ''Using stub transport'' @ [newline])"
  by (simp add: log_stub_transport_def LogMessage_def)

lemma log_rdma_returns: "log_rdma_initialized now stderr file cfg opened \<noteq> None"
  by (simp add: log_rdma_initialized_def LogMessage_def)

end
