(* ===== verification/Config_Loader.thy ===== *)
theory Config_Loader
  imports Text_Codec Api_Invariant
begin

text \<open>
  The configuration file (\<^verbatim>\<open>src/runtime/config_loader.cc\<close>) and the start of the runtime
  (\<^verbatim>\<open>src/runtime/init.cc\<close>, \<^verbatim>\<open>lm_init\<close> of \<^verbatim>\<open>src/api/admin_api.cc\<close>). The
  file system is an argument: the contents of the file a path names, if it can be opened.
\<close>

section \<open>Model\<close>

definition ParseCoherenceModeOverride :: "string \<Rightarrow> parse_error + int" where
  "ParseCoherenceModeOverride value' =
     (if value' = ''wi'' \<or> value' = ''WI'' then Inr 0
      else if value' = ''si'' \<or> value' = ''SI'' then Inr 1
      else if value' = ''adaptive'' \<or> value' = ''ADAPTIVE'' then Inr 2
      else stoi value')"

definition ParseAdmissionPolicy :: "string \<Rightarrow> parse_error + int" where
  "ParseAdmissionPolicy value' =
     (if value' = ''profiled'' then Inr 0
      else if value' = ''always'' then Inr 1
      else if value' = ''never'' then Inr 2
      else stoi value')"

definition ApplyKV :: "string \<Rightarrow> string \<Rightarrow> Config \<Rightarrow> parse_error + Config" where
  "ApplyKV key value' cfg =
     (if key = ''node_id'' then
        map_sum id (\<lambda>v. cfg\<lparr>cfg_node_id := ucast v\<rparr>) (stoul value')
      else if key = ''nr_nodes'' then
        map_sum id (\<lambda>v. cfg\<lparr>cfg_nr_nodes := ucast v\<rparr>) (stoul value')
      else if key = ''block_size'' then
        map_sum id (\<lambda>v. cfg\<lparr>cfg_block_size := v\<rparr>) (stoull value')
      else if key = ''local_region_size'' then
        map_sum id (\<lambda>v. cfg\<lparr>cfg_local_region_size := v\<rparr>) (stoull value')
      else if key = ''enable_rdma'' then
        Inr (cfg\<lparr>cfg_enable_rdma := (value' = ''1'' \<or> value' = ''true'')\<rparr>)
      else if key = ''enable_cache'' then
        Inr (cfg\<lparr>cfg_enable_cache := (value' = ''1'' \<or> value' = ''true'')\<rparr>)
      else if key = ''enable_write_batching'' then
        Inr (cfg\<lparr>cfg_enable_write_batching := (value' = ''1'' \<or> value' = ''true'')\<rparr>)
      else if key = ''rdma_enable_control_path'' then
        Inr (cfg\<lparr>cfg_rdma_enable_control_path := (value' = ''1'' \<or> value' = ''true'')\<rparr>)
      else if key = ''coherence_mode_override'' then
        map_sum id (\<lambda>v. cfg\<lparr>cfg_coherence_mode_override := v\<rparr>) (ParseCoherenceModeOverride value')
      else if key = ''cache_admission_policy'' then
        map_sum id (\<lambda>v. cfg\<lparr>cfg_cache_admission_policy := v\<rparr>) (ParseAdmissionPolicy value')
      else if key = ''control_ack_timeout_polls'' then
        map_sum id (\<lambda>v. cfg\<lparr>cfg_control_ack_timeout_polls := v\<rparr>) (stoull value')
      else if key = ''control_ack_max_retries'' then
        map_sum id (\<lambda>v. cfg\<lparr>cfg_control_ack_max_retries := v\<rparr>) (stoull value')
      else if key = ''rdma_device_name'' then Inr (cfg\<lparr>cfg_rdma_device_name := value'\<rparr>)
      else if key = ''rdma_port'' then
        map_sum id (\<lambda>v. cfg\<lparr>cfg_rdma_port := ucast v\<rparr>) (stoul value')
      else if key = ''rdma_gid_index'' then
        map_sum id (\<lambda>v. cfg\<lparr>cfg_rdma_gid_index := ucast v\<rparr>) (stoul value')
      else if key = ''rdma_max_inline_bytes'' then
        map_sum id (\<lambda>v. cfg\<lparr>cfg_rdma_max_inline_bytes := v\<rparr>) (stoull value')
      else if key = ''rdma_cq_depth'' then
        map_sum id (\<lambda>v. cfg\<lparr>cfg_rdma_cq_depth := v\<rparr>) (stoull value')
      else if key = ''rdma_sq_depth'' then
        map_sum id (\<lambda>v. cfg\<lparr>cfg_rdma_sq_depth := v\<rparr>) (stoull value')
      else if key = ''rdma_rq_depth'' then
        map_sum id (\<lambda>v. cfg\<lparr>cfg_rdma_rq_depth := v\<rparr>) (stoull value')
      else if key = ''rdma_bootstrap_timeout_ms'' then
        map_sum id (\<lambda>v. cfg\<lparr>cfg_rdma_bootstrap_timeout_ms := v\<rparr>) (stoull value')
      else if key = ''rdma_exchange_dir'' then Inr (cfg\<lparr>cfg_rdma_exchange_dir := value'\<rparr>)
      else if key = ''profiling_window_size'' then
        map_sum id (\<lambda>v. cfg\<lparr>cfg_profiling_window_size := v\<rparr>) (stoull value')
      else if key = ''cache_capacity_bytes'' then
        map_sum id (\<lambda>v. cfg\<lparr>cfg_cache_capacity_bytes := v\<rparr>) (stoull value')
      else if key = ''cache_admission_min_reads'' then
        map_sum id (\<lambda>v. cfg\<lparr>cfg_cache_admission_min_reads := v\<rparr>) (stoull value')
      else if key = ''cache_admission_max_writes'' then
        map_sum id (\<lambda>v. cfg\<lparr>cfg_cache_admission_max_writes := v\<rparr>) (stoull value')
      else if key = ''cache_admission_max_sharers'' then
        map_sum id (\<lambda>v. cfg\<lparr>cfg_cache_admission_max_sharers := v\<rparr>) (stoull value')
      else if key = ''cache_admission_max_reuse_distance'' then
        map_sum id (\<lambda>v. cfg\<lparr>cfg_cache_admission_max_reuse_distance := v\<rparr>) (stoull value')
      else if key = ''cache_admission_min_read_ratio'' then
        map_sum id (\<lambda>v. cfg\<lparr>cfg_cache_admission_min_read_ratio := v\<rparr>) (stod value')
      else if key = ''cache_admission_max_phase_change_ratio'' then
        map_sum id (\<lambda>v. cfg\<lparr>cfg_cache_admission_max_phase_change_ratio := v\<rparr>) (stod value')
      else if key = ''remote_write_batch_threshold'' then
        map_sum id (\<lambda>v. cfg\<lparr>cfg_remote_write_batch_threshold := v\<rparr>) (stoull value')
      else if key = ''coherence_sharer_promote_threshold'' then
        map_sum id (\<lambda>v. cfg\<lparr>cfg_coherence_sharer_promote_threshold := v\<rparr>) (stoull value')
      else if key = ''coherence_invalidation_promote_threshold'' then
        map_sum id (\<lambda>v. cfg\<lparr>cfg_coherence_invalidation_promote_threshold := v\<rparr>) (stoull value')
      else if key = ''coherence_write_dominant_ratio'' then
        map_sum id (\<lambda>v. cfg\<lparr>cfg_coherence_write_dominant_ratio := v\<rparr>) (stod value')
      else if key = ''coherence_phase_change_promote_ratio'' then
        map_sum id (\<lambda>v. cfg\<lparr>cfg_coherence_phase_change_promote_ratio := v\<rparr>) (stod value')
      else if key = ''adaptive_mode_batch_threshold'' then
        map_sum id (\<lambda>v. cfg\<lparr>cfg_adaptive_mode_batch_threshold := v\<rparr>) (stoull value')
      else Inr cfg)"

text \<open>The loop of \<^verbatim>\<open>LoadConfigFile\<close>: empty lines, comments and lines without \<^verbatim>\<open>=\<close> are skipped.\<close>

fun load_lines :: "string list \<Rightarrow> Config \<Rightarrow> parse_error + Config" where
  "load_lines [] cfg = Inr cfg"
| "load_lines (line # lines) cfg =
     (if line = [] \<or> hd line = CHR ''#'' then load_lines lines cfg
      else case key_value line of
             None \<Rightarrow> load_lines lines cfg
           | Some (key, value') \<Rightarrow>
               (case ApplyKV key value' cfg of Inl e \<Rightarrow> Inl e | Inr cfg \<Rightarrow> load_lines lines cfg))"

text \<open>The status and the configuration behind the pointer, null when it is \<^term>\<open>None\<close>.\<close>

definition LoadConfigFile ::
    "(string \<Rightarrow> string option) \<Rightarrow> string \<Rightarrow> Config option \<Rightarrow> parse_error + (Status \<times> Config option)" where
  "LoadConfigFile files path cfg_ptr =
     (case cfg_ptr of
        None \<Rightarrow> Inr (kInvalidArg, None)
      | Some cfg \<Rightarrow>
          if path = [] then Inr (kOk, Some cfg)
          else case files path of
                 None \<Rightarrow> Inr (kNotFound, Some cfg)
               | Some text' \<Rightarrow>
                   (case load_lines (getlines newline text') cfg of
                      Inl e \<Rightarrow> Inl e
                    | Inr cfg \<Rightarrow> Inr (kOk, Some (cfg\<lparr>cfg_cluster_config_path := path\<rparr>))))"

text \<open>An exception of the loader leaves \<^verbatim>\<open>RuntimeInit\<close> before the context is touched.\<close>

definition RuntimeInit ::
    "(string \<Rightarrow> string option) \<Rightarrow> string option \<Rightarrow> Process \<Rightarrow> (parse_error + Status) \<times> Process" where
  "RuntimeInit files config_path p =
     (case config_path of
        None \<Rightarrow> (let (s, p) = RuntimeContext_Init p default_config in (Inr s, p))
      | Some path \<Rightarrow>
          (case LoadConfigFile files path (Some default_config) of
             Inl e \<Rightarrow> (Inl e, p)
           | Inr (s, cfg) \<Rightarrow>
               if s \<noteq> kOk then (Inr s, p)
               else let (s, p) = RuntimeContext_Init p (the cfg) in (Inr s, p)))"

definition lm_init ::
    "(string \<Rightarrow> string option) \<Rightarrow> string option \<Rightarrow> Process \<Rightarrow> (parse_error + Status) \<times> Process" where
  "lm_init files config_path p = RuntimeInit files config_path p"

text \<open>\<^verbatim>\<open>configs/stub_4node_node0.conf\<close> of the repository.\<close>

definition stub_4node_node0_conf :: string where
  "stub_4node_node0_conf = concat (map (\<lambda>line. line @ [newline])
     [''node_id=0'',
      ''nr_nodes=4'',
      ''enable_rdma=0'',
      ''enable_cache=1'',
      ''enable_write_batching=1'',
      [],
      ''block_size=4096'',
      ''local_region_size=67108864'',
      [],
      ''profiling_window_size=8'',
      ''cache_admission_min_reads=2'',
      ''cache_admission_max_writes=1'',
      ''cache_admission_max_sharers=4'',
      ''cache_admission_max_reuse_distance=4'',
      ''cache_admission_min_read_ratio=0.60'',
      ''cache_admission_max_phase_change_ratio=0.35'',
      ''remote_write_batch_threshold=2'',
      ''adaptive_mode_batch_threshold=1'',
      ''coherence_sharer_promote_threshold=2'',
      ''coherence_invalidation_promote_threshold=2'',
      ''coherence_write_dominant_ratio=0.55'',
      ''coherence_phase_change_promote_ratio=0.30''])"

section \<open>Loading\<close>

definition stub_4node_config :: Config where
  "stub_4node_config = default_config\<lparr>cfg_nr_nodes := 4, cfg_cache_admission_max_sharers := 4,
     cfg_remote_write_batch_threshold := 2\<rparr>"

lemma conf_lines: "getlines newline (concat (map (\<lambda>line. line @ [newline]) ls)) = ls"
  if "list_all (\<lambda>line. newline \<notin> set line) ls"
  using that by (induction ls) (auto simp: getlines_line)

lemma stub_4node_loads:
  "load_lines (getlines newline stub_4node_node0_conf) default_config = Inr stub_4node_config"
  unfolding stub_4node_node0_conf_def
  by (subst conf_lines)
     (simp_all add: newline_def key_value_def ApplyKV_def decimal_values number_values stub_4node_config_def default_config_def)

section \<open>A file that sets every key\<close>

definition print_bool :: "bool \<Rightarrow> string" where
  "print_bool b = (if b then ''1'' else ''0'')"

text \<open>
  One line for each key of \<^verbatim>\<open>ApplyKV\<close>, in its order, for a configuration and four texts for its ratios.
\<close>

definition config_settings :: "Config \<Rightarrow> string \<Rightarrow> string \<Rightarrow> string \<Rightarrow> string \<Rightarrow> (string \<times> string) list" where
  "config_settings c r1 r2 r3 r4 =
     [(''node_id'', print_word (cfg_node_id c)),
      (''nr_nodes'', print_word (cfg_nr_nodes c)),
      (''block_size'', print_word (cfg_block_size c)),
      (''local_region_size'', print_word (cfg_local_region_size c)),
      (''enable_rdma'', print_bool (cfg_enable_rdma c)),
      (''enable_cache'', print_bool (cfg_enable_cache c)),
      (''enable_write_batching'', print_bool (cfg_enable_write_batching c)),
      (''rdma_enable_control_path'', print_bool (cfg_rdma_enable_control_path c)),
      (''coherence_mode_override'', print_int (cfg_coherence_mode_override c)),
      (''cache_admission_policy'', print_int (cfg_cache_admission_policy c)),
      (''control_ack_timeout_polls'', print_word (cfg_control_ack_timeout_polls c)),
      (''control_ack_max_retries'', print_word (cfg_control_ack_max_retries c)),
      (''rdma_device_name'', cfg_rdma_device_name c),
      (''rdma_port'', print_word (cfg_rdma_port c)),
      (''rdma_gid_index'', print_word (cfg_rdma_gid_index c)),
      (''rdma_max_inline_bytes'', print_word (cfg_rdma_max_inline_bytes c)),
      (''rdma_cq_depth'', print_word (cfg_rdma_cq_depth c)),
      (''rdma_sq_depth'', print_word (cfg_rdma_sq_depth c)),
      (''rdma_rq_depth'', print_word (cfg_rdma_rq_depth c)),
      (''rdma_bootstrap_timeout_ms'', print_word (cfg_rdma_bootstrap_timeout_ms c)),
      (''rdma_exchange_dir'', cfg_rdma_exchange_dir c),
      (''profiling_window_size'', print_word (cfg_profiling_window_size c)),
      (''cache_capacity_bytes'', print_word (cfg_cache_capacity_bytes c)),
      (''cache_admission_min_reads'', print_word (cfg_cache_admission_min_reads c)),
      (''cache_admission_max_writes'', print_word (cfg_cache_admission_max_writes c)),
      (''cache_admission_max_sharers'', print_word (cfg_cache_admission_max_sharers c)),
      (''cache_admission_max_reuse_distance'', print_word (cfg_cache_admission_max_reuse_distance c)),
      (''cache_admission_min_read_ratio'', r1),
      (''cache_admission_max_phase_change_ratio'', r2),
      (''remote_write_batch_threshold'', print_word (cfg_remote_write_batch_threshold c)),
      (''coherence_sharer_promote_threshold'', print_word (cfg_coherence_sharer_promote_threshold c)),
      (''coherence_invalidation_promote_threshold'', print_word (cfg_coherence_invalidation_promote_threshold c)),
      (''coherence_write_dominant_ratio'', r3),
      (''coherence_phase_change_promote_ratio'', r4),
      (''adaptive_mode_batch_threshold'', print_word (cfg_adaptive_mode_batch_threshold c))]"

definition setting_line :: "string \<times> string \<Rightarrow> string" where
  "setting_line = (\<lambda>(key, value'). key @ CHR ''='' # value')"

definition config_text :: "Config \<Rightarrow> string \<Rightarrow> string \<Rightarrow> string \<Rightarrow> string \<Rightarrow> string" where
  "config_text c r1 r2 r3 r4 =
     concat (map (\<lambda>kv. setting_line kv @ [newline]) (config_settings c r1 r2 r3 r4))"

lemma apply_key:
  "ApplyKV ''node_id'' value' cfg = map_sum id (\<lambda>v. cfg\<lparr>cfg_node_id := ucast v\<rparr>) (stoul value')"
  "ApplyKV ''nr_nodes'' value' cfg = map_sum id (\<lambda>v. cfg\<lparr>cfg_nr_nodes := ucast v\<rparr>) (stoul value')"
  "ApplyKV ''block_size'' value' cfg = map_sum id (\<lambda>v. cfg\<lparr>cfg_block_size := v\<rparr>) (stoull value')"
  "ApplyKV ''local_region_size'' value' cfg = map_sum id (\<lambda>v. cfg\<lparr>cfg_local_region_size := v\<rparr>) (stoull value')"
  "ApplyKV ''enable_rdma'' value' cfg = Inr (cfg\<lparr>cfg_enable_rdma := (value' = ''1'' \<or> value' = ''true'')\<rparr>)"
  "ApplyKV ''enable_cache'' value' cfg = Inr (cfg\<lparr>cfg_enable_cache := (value' = ''1'' \<or> value' = ''true'')\<rparr>)"
  "ApplyKV ''enable_write_batching'' value' cfg = Inr (cfg\<lparr>cfg_enable_write_batching := (value' = ''1'' \<or> value' = ''true'')\<rparr>)"
  "ApplyKV ''rdma_enable_control_path'' value' cfg = Inr (cfg\<lparr>cfg_rdma_enable_control_path := (value' = ''1'' \<or> value' = ''true'')\<rparr>)"
  "ApplyKV ''coherence_mode_override'' value' cfg = map_sum id (\<lambda>v. cfg\<lparr>cfg_coherence_mode_override := v\<rparr>) (ParseCoherenceModeOverride value')"
  "ApplyKV ''cache_admission_policy'' value' cfg = map_sum id (\<lambda>v. cfg\<lparr>cfg_cache_admission_policy := v\<rparr>) (ParseAdmissionPolicy value')"
  "ApplyKV ''control_ack_timeout_polls'' value' cfg = map_sum id (\<lambda>v. cfg\<lparr>cfg_control_ack_timeout_polls := v\<rparr>) (stoull value')"
  "ApplyKV ''control_ack_max_retries'' value' cfg = map_sum id (\<lambda>v. cfg\<lparr>cfg_control_ack_max_retries := v\<rparr>) (stoull value')"
  "ApplyKV ''rdma_device_name'' value' cfg = Inr (cfg\<lparr>cfg_rdma_device_name := value'\<rparr>)"
  "ApplyKV ''rdma_port'' value' cfg = map_sum id (\<lambda>v. cfg\<lparr>cfg_rdma_port := ucast v\<rparr>) (stoul value')"
  "ApplyKV ''rdma_gid_index'' value' cfg = map_sum id (\<lambda>v. cfg\<lparr>cfg_rdma_gid_index := ucast v\<rparr>) (stoul value')"
  "ApplyKV ''rdma_max_inline_bytes'' value' cfg = map_sum id (\<lambda>v. cfg\<lparr>cfg_rdma_max_inline_bytes := v\<rparr>) (stoull value')"
  "ApplyKV ''rdma_cq_depth'' value' cfg = map_sum id (\<lambda>v. cfg\<lparr>cfg_rdma_cq_depth := v\<rparr>) (stoull value')"
  "ApplyKV ''rdma_sq_depth'' value' cfg = map_sum id (\<lambda>v. cfg\<lparr>cfg_rdma_sq_depth := v\<rparr>) (stoull value')"
  "ApplyKV ''rdma_rq_depth'' value' cfg = map_sum id (\<lambda>v. cfg\<lparr>cfg_rdma_rq_depth := v\<rparr>) (stoull value')"
  "ApplyKV ''rdma_bootstrap_timeout_ms'' value' cfg = map_sum id (\<lambda>v. cfg\<lparr>cfg_rdma_bootstrap_timeout_ms := v\<rparr>) (stoull value')"
  "ApplyKV ''rdma_exchange_dir'' value' cfg = Inr (cfg\<lparr>cfg_rdma_exchange_dir := value'\<rparr>)"
  "ApplyKV ''profiling_window_size'' value' cfg = map_sum id (\<lambda>v. cfg\<lparr>cfg_profiling_window_size := v\<rparr>) (stoull value')"
  "ApplyKV ''cache_capacity_bytes'' value' cfg = map_sum id (\<lambda>v. cfg\<lparr>cfg_cache_capacity_bytes := v\<rparr>) (stoull value')"
  "ApplyKV ''cache_admission_min_reads'' value' cfg = map_sum id (\<lambda>v. cfg\<lparr>cfg_cache_admission_min_reads := v\<rparr>) (stoull value')"
  "ApplyKV ''cache_admission_max_writes'' value' cfg = map_sum id (\<lambda>v. cfg\<lparr>cfg_cache_admission_max_writes := v\<rparr>) (stoull value')"
  "ApplyKV ''cache_admission_max_sharers'' value' cfg = map_sum id (\<lambda>v. cfg\<lparr>cfg_cache_admission_max_sharers := v\<rparr>) (stoull value')"
  "ApplyKV ''cache_admission_max_reuse_distance'' value' cfg = map_sum id (\<lambda>v. cfg\<lparr>cfg_cache_admission_max_reuse_distance := v\<rparr>) (stoull value')"
  "ApplyKV ''cache_admission_min_read_ratio'' value' cfg = map_sum id (\<lambda>v. cfg\<lparr>cfg_cache_admission_min_read_ratio := v\<rparr>) (stod value')"
  "ApplyKV ''cache_admission_max_phase_change_ratio'' value' cfg = map_sum id (\<lambda>v. cfg\<lparr>cfg_cache_admission_max_phase_change_ratio := v\<rparr>) (stod value')"
  "ApplyKV ''remote_write_batch_threshold'' value' cfg = map_sum id (\<lambda>v. cfg\<lparr>cfg_remote_write_batch_threshold := v\<rparr>) (stoull value')"
  "ApplyKV ''coherence_sharer_promote_threshold'' value' cfg = map_sum id (\<lambda>v. cfg\<lparr>cfg_coherence_sharer_promote_threshold := v\<rparr>) (stoull value')"
  "ApplyKV ''coherence_invalidation_promote_threshold'' value' cfg = map_sum id (\<lambda>v. cfg\<lparr>cfg_coherence_invalidation_promote_threshold := v\<rparr>) (stoull value')"
  "ApplyKV ''coherence_write_dominant_ratio'' value' cfg = map_sum id (\<lambda>v. cfg\<lparr>cfg_coherence_write_dominant_ratio := v\<rparr>) (stod value')"
  "ApplyKV ''coherence_phase_change_promote_ratio'' value' cfg = map_sum id (\<lambda>v. cfg\<lparr>cfg_coherence_phase_change_promote_ratio := v\<rparr>) (stod value')"
  "ApplyKV ''adaptive_mode_batch_threshold'' value' cfg = map_sum id (\<lambda>v. cfg\<lparr>cfg_adaptive_mode_batch_threshold := v\<rparr>) (stoull value')"
  by (simp_all add: ApplyKV_def)

lemma parse_printed_int:
  assumes "- (2 ^ 31) \<le> i" "i < 2 ^ 31"
  shows "ParseCoherenceModeOverride (print_int i) = Inr i" "ParseAdmissionPolicy (print_int i) = Inr i"
proof -
  have num: "stoi (print_int i) = Inr i" by (rule stoi_print [OF assms])
  have "stoi word \<noteq> Inr i"
    if "word \<in> {''wi'', ''WI'', ''si'', ''SI'', ''adaptive'', ''ADAPTIVE'', ''profiled'', ''always'', ''never''}" for word
    using that by (auto simp: stoi_def scan_defs)
  with num have "print_int i \<notin> {''wi'', ''WI'', ''si'', ''SI'', ''adaptive'', ''ADAPTIVE'', ''profiled'', ''always'', ''never''}"
    by blast
  with num show "ParseCoherenceModeOverride (print_int i) = Inr i" "ParseAdmissionPolicy (print_int i) = Inr i"
    by (simp_all add: ParseCoherenceModeOverride_def ParseAdmissionPolicy_def)
qed

lemma load_setting:
  "key \<noteq> [] \<Longrightarrow> hd key \<noteq> CHR ''#'' \<Longrightarrow> CHR ''='' \<notin> set key \<Longrightarrow>
   load_lines (setting_line (key, value') # ls) cfg =
     (case ApplyKV key value' cfg of Inl e \<Rightarrow> Inl e | Inr cfg \<Rightarrow> load_lines ls cfg)"
  by (simp add: setting_line_def key_value_field hd_append)

lemma print_bool_flag: "(print_bool b = ''1'' \<or> print_bool b = ''true'') = b"
  by (simp add: print_bool_def)

lemma config_text_lines:
  assumes "newline \<notin> set (cfg_rdma_device_name c @ cfg_rdma_exchange_dir c @ r1 @ r2 @ r3 @ r4)"
  shows "getlines newline (config_text c r1 r2 r3 r4) = map setting_line (config_settings c r1 r2 r3 r4)"
proof -
  have "list_all (\<lambda>line. newline \<notin> set line) (map setting_line (config_settings c r1 r2 r3 r4))"
    using assms by (simp add: config_settings_def setting_line_def print_no_newline print_bool_def)
      (simp add: newline_def)
  from conf_lines [OF this] show ?thesis by (simp add: config_text_def comp_def)
qed

lemma config_settings_load:
  assumes "- (2 ^ 31) \<le> cfg_coherence_mode_override c" "cfg_coherence_mode_override c < 2 ^ 31"
    and "- (2 ^ 31) \<le> cfg_cache_admission_policy c" "cfg_cache_admission_policy c < 2 ^ 31"
    and "stod r1 = Inr (cfg_cache_admission_min_read_ratio c)"
    and "stod r2 = Inr (cfg_cache_admission_max_phase_change_ratio c)"
    and "stod r3 = Inr (cfg_coherence_write_dominant_ratio c)"
    and "stod r4 = Inr (cfg_coherence_phase_change_promote_ratio c)"
  shows "load_lines (map setting_line (config_settings c r1 r2 r3 r4)) before =
    Inr (c\<lparr>cfg_cluster_config_path := cfg_cluster_config_path before\<rparr>)"
proof -
  note ints = parse_printed_int(1) [OF assms(1,2)] parse_printed_int(2) [OF assms(3,4)]
  show ?thesis
    unfolding config_settings_def list.map
    by (simp add: load_setting apply_key ints stoull_print print_bool_flag assms(5-) del: load_lines.simps(2))
qed

section \<open>Properties\<close>

text \<open>
  C29: \<^verbatim>\<open>lm_init\<close> is all or nothing. Whatever the path and the contents of the file: when a
  number cannot be converted, the exception leaves the process untouched; on an initialised process
  the call fails and changes nothing; otherwise the process is initialised exactly when the call
  returns success.
\<close>

theorem lm_init_atomic:
  "case lm_init files path p of
     (Inl e, p') \<Rightarrow> p' = p
   | (Inr s, p') \<Rightarrow> if rc_initialized p then p' = p \<and> s \<noteq> kOk else rc_initialized p' = (s = kOk)"
proof -
  have init: "case RuntimeContext_Init p cfg of
      (s, p') \<Rightarrow> if rc_initialized p then p' = p \<and> s \<noteq> kOk else rc_initialized p' = (s = kOk)" for cfg
    by (auto simp: Init_outcome brought_up_def)
  show ?thesis
  proof (cases path)
    case None
    with init [of default_config] show ?thesis by (auto simp: lm_init_def RuntimeInit_def split: prod.splits)
  next
    case (Some name)
    show ?thesis
    proof (cases "LoadConfigFile files name (Some default_config)")
      case (Inl e)
      with Some show ?thesis by (simp add: lm_init_def RuntimeInit_def)
    next
      case (Inr r)
      then obtain s cfg where r: "r = (s, cfg)" "s \<in> {kOk, kNotFound}"
        by (auto simp: LoadConfigFile_def split: if_splits option.splits sum.splits)
      with Some Inr init [of "the cfg"] show ?thesis
        by (auto simp: lm_init_def RuntimeInit_def split: prod.splits)
    qed
  qed
qed

text \<open>
  C30: A file that sets every key yields exactly the configuration it names. For any configuration
  (its two integers within 32 bits, no newline in its strings) written out as one line per key,
  decimal numbers, \<^verbatim>\<open>1\<close> and \<^verbatim>\<open>0\<close> for flags and, for the four ratios, any texts that
  \<^verbatim>\<open>stod\<close> converts to them, loading the file over any other configuration succeeds and gives
  that configuration with the path of the file recorded: every key reaches its own field, at its
  own width, and no other.
\<close>

theorem config_file_roundtrip:
  assumes "- (2 ^ 31) \<le> cfg_coherence_mode_override c" "cfg_coherence_mode_override c < 2 ^ 31"
    and "- (2 ^ 31) \<le> cfg_cache_admission_policy c" "cfg_cache_admission_policy c < 2 ^ 31"
    and "newline \<notin> set (cfg_rdma_device_name c @ cfg_rdma_exchange_dir c @ r1 @ r2 @ r3 @ r4)"
    and "stod r1 = Inr (cfg_cache_admission_min_read_ratio c)"
    and "stod r2 = Inr (cfg_cache_admission_max_phase_change_ratio c)"
    and "stod r3 = Inr (cfg_coherence_write_dominant_ratio c)"
    and "stod r4 = Inr (cfg_coherence_phase_change_promote_ratio c)"
    and "path \<noteq> []" "files path = Some (config_text c r1 r2 r3 r4)"
  shows "LoadConfigFile files path (Some before) = Inr (kOk, Some (c\<lparr>cfg_cluster_config_path := path\<rparr>))"
proof -
  have "load_lines (getlines newline (config_text c r1 r2 r3 r4)) before =
      Inr (c\<lparr>cfg_cluster_config_path := cfg_cluster_config_path before\<rparr>)"
    using config_text_lines [OF assms(5)] config_settings_load [OF assms(1-4,6-9)] by simp
  with assms(10,11) show ?thesis by (simp add: LoadConfigFile_def)
qed

theorem config_file_roundtrip_witness:
  "LoadConfigFile (\<lambda>path. Some (config_text default_config ''0.60'' ''0.35'' ''0.55'' ''0.30'')) ''leo.conf'' (Some wit_cfg) =
     Inr (kOk, Some (default_config\<lparr>cfg_cluster_config_path := ''leo.conf''\<rparr>))"
  by (rule config_file_roundtrip) (simp_all add: decimal_values, simp_all add: default_config_def newline_def)

end
