(* ===== verification/Wire_Format.thy ===== *)
theory Wire_Format
  imports Text_Codec Runtime_State
begin

text \<open>
  The text files two RDMA nodes exchange (\<^verbatim>\<open>src/transport/rdma_transport.cc\<close>): the
  connection data of a peer and the control messages, as they are printed and parsed.
\<close>

section \<open>Model\<close>

record PeerExchangeInfo =
  px_node_id :: NodeId
  px_qpn :: u32
  px_psn :: u32
  px_lid :: u16
  px_remote_addr :: u64
  px_rkey :: u32
  px_length :: u64
  px_has_gid :: bool
  px_gid_raw :: "byte list"

definition new_PeerExchangeInfo :: PeerExchangeInfo where
  "new_PeerExchangeInfo = \<lparr>px_node_id = kInvalidNodeId, px_qpn = 0, px_psn = 0, px_lid = 0,
     px_remote_addr = 0, px_rkey = 0, px_length = 0, px_has_gid = False, px_gid_raw = replicate 16 0\<rparr>"

text \<open>One line \<^verbatim>\<open>key=value\<close>.\<close>

definition field :: "string \<times> string \<Rightarrow> string" where
  "field = (\<lambda>(key, value'). key @ CHR ''='' # value' @ [newline])"

fun gid_text :: "byte list \<Rightarrow> string" where
  "gid_text [] = []"
| "gid_text [b] = print_word b"
| "gid_text (b # bs) = print_word b @ CHR '':'' # gid_text bs"

definition FormatExchangeInfo :: "PeerExchangeInfo \<Rightarrow> string" where
  "FormatExchangeInfo info = concat (map field
     [(''node_id'', print_word (px_node_id info)),
      (''qpn'', print_word (px_qpn info)),
      (''psn'', print_word (px_psn info)),
      (''lid'', print_word (px_lid info)),
      (''remote_addr'', print_word (px_remote_addr info)),
      (''rkey'', print_word (px_rkey info)),
      (''length'', print_word (px_length info)),
      (''has_gid'', print_int (if px_has_gid info then 1 else 0)),
      (''gid'', gid_text (px_gid_raw info))])"

text \<open>The conversions between \<^verbatim>\<open>ControlOpcode\<close> and \<^verbatim>\<open>int\<close>.\<close>

fun opcode_int :: "ControlOpcode \<Rightarrow> int" where
  "opcode_int kInvalidateRange = 0"
| "opcode_int kOwnerTransfer = 1"
| "opcode_int kInvalidateAck = 2"
| "opcode_int kOwnerTransferAck = 3"
| "opcode_int (kOpcodeValue v) = v"

definition opcode_of_int :: "int \<Rightarrow> ControlOpcode" where
  "opcode_of_int v =
     (if v = 0 then kInvalidateRange else if v = 1 then kOwnerTransfer
      else if v = 2 then kInvalidateAck else if v = 3 then kOwnerTransferAck else kOpcodeValue v)"

definition FormatControlMessage :: "ControlMessage \<Rightarrow> string" where
  "FormatControlMessage message = concat (map field
     [(''opcode'', print_int (opcode_int (cmsg_opcode message))),
      (''source_node'', print_word (cmsg_source_node message)),
      (''target_node'', print_word (cmsg_target_node message)),
      (''request_id'', print_word (cmsg_request_id message)),
      (''first_region'', print_word (bi_region_id (cmsg_first_block message))),
      (''first_block'', print_word (bi_block_index (cmsg_first_block message))),
      (''last_region'', print_word (bi_region_id (cmsg_last_block message))),
      (''last_block'', print_word (bi_block_index (cmsg_last_block message))),
      (''version'', print_word (cmsg_version message)),
      (''mode'', print_int (mode_int (cmsg_mode message)))])"

text \<open>The chain of comparisons in the loop of \<^verbatim>\<open>ParseControlMessage\<close>.\<close>

definition control_field :: "string \<Rightarrow> string \<Rightarrow> ControlMessage \<Rightarrow> parse_error + ControlMessage" where
  "control_field key value' msg =
     (if key = ''opcode'' then map_sum id (\<lambda>v. msg\<lparr>cmsg_opcode := opcode_of_int v\<rparr>) (stoi value')
      else if key = ''source_node'' then map_sum id (\<lambda>v. msg\<lparr>cmsg_source_node := ucast v\<rparr>) (stoul value')
      else if key = ''target_node'' then map_sum id (\<lambda>v. msg\<lparr>cmsg_target_node := ucast v\<rparr>) (stoul value')
      else if key = ''request_id'' then map_sum id (\<lambda>v. msg\<lparr>cmsg_request_id := v\<rparr>) (stoull value')
      else if key = ''first_region'' then
        map_sum id (\<lambda>v. msg\<lparr>cmsg_first_block := (cmsg_first_block msg)\<lparr>bi_region_id := ucast v\<rparr>\<rparr>) (stoul value')
      else if key = ''first_block'' then
        map_sum id (\<lambda>v. msg\<lparr>cmsg_first_block := (cmsg_first_block msg)\<lparr>bi_block_index := v\<rparr>\<rparr>) (stoull value')
      else if key = ''last_region'' then
        map_sum id (\<lambda>v. msg\<lparr>cmsg_last_block := (cmsg_last_block msg)\<lparr>bi_region_id := ucast v\<rparr>\<rparr>) (stoul value')
      else if key = ''last_block'' then
        map_sum id (\<lambda>v. msg\<lparr>cmsg_last_block := (cmsg_last_block msg)\<lparr>bi_block_index := v\<rparr>\<rparr>) (stoull value')
      else if key = ''version'' then map_sum id (\<lambda>v. msg\<lparr>cmsg_version := v\<rparr>) (stoull value')
      else if key = ''mode'' then map_sum id (\<lambda>v. msg\<lparr>cmsg_mode := mode_of_int v\<rparr>) (stoi value')
      else Inr msg)"

text \<open>
  The result is the exception, or \<^term>\<open>None\<close> for \<^verbatim>\<open>false\<close> and the message for
  \<^verbatim>\<open>true\<close>; \<open>out_ok\<close> says that the output pointer is not null.
\<close>

definition ParseControlMessage :: "string \<Rightarrow> bool \<Rightarrow> parse_error + ControlMessage option" where
  "ParseControlMessage text' out_ok =
     (if \<not> out_ok then Inr None
      else case apply_lines control_field (getlines newline text') new_ControlMessage of
             Inl e \<Rightarrow> Inl e
           | Inr msg \<Rightarrow>
               if cmsg_source_node msg = kInvalidNodeId \<or> cmsg_target_node msg = kInvalidNodeId then Inr None
               else Inr (Some msg))"

text \<open>The loop over the bytes of the \<^verbatim>\<open>gid\<close> line.\<close>

fun parse_gid :: "string list \<Rightarrow> nat \<Rightarrow> byte list \<Rightarrow> parse_error + byte list" where
  "parse_gid [] idx gid_raw = Inr gid_raw"
| "parse_gid (byte' # bytes) idx gid_raw =
     (if idx < 16 then
        (case stoul byte' of
           Inl e \<Rightarrow> Inl e
         | Inr v \<Rightarrow> parse_gid bytes (idx + 1) (gid_raw[idx := ucast v]))
      else Inr gid_raw)"

definition exchange_field :: "string \<Rightarrow> string \<Rightarrow> PeerExchangeInfo \<Rightarrow> parse_error + PeerExchangeInfo" where
  "exchange_field key value' parsed =
     (if key = ''node_id'' then map_sum id (\<lambda>v. parsed\<lparr>px_node_id := ucast v\<rparr>) (stoul value')
      else if key = ''qpn'' then map_sum id (\<lambda>v. parsed\<lparr>px_qpn := ucast v\<rparr>) (stoul value')
      else if key = ''psn'' then map_sum id (\<lambda>v. parsed\<lparr>px_psn := ucast v\<rparr>) (stoul value')
      else if key = ''lid'' then map_sum id (\<lambda>v. parsed\<lparr>px_lid := ucast v\<rparr>) (stoul value')
      else if key = ''remote_addr'' then map_sum id (\<lambda>v. parsed\<lparr>px_remote_addr := v\<rparr>) (stoull value')
      else if key = ''rkey'' then map_sum id (\<lambda>v. parsed\<lparr>px_rkey := ucast v\<rparr>) (stoul value')
      else if key = ''length'' then map_sum id (\<lambda>v. parsed\<lparr>px_length := v\<rparr>) (stoull value')
      else if key = ''has_gid'' then Inr (parsed\<lparr>px_has_gid := (value' = ''1'')\<rparr>)
      else if key = ''gid'' then
        map_sum id (\<lambda>g. parsed\<lparr>px_gid_raw := g\<rparr>) (parse_gid (getlines CHR '':'' value') 0 (px_gid_raw parsed))
      else Inr parsed)"

definition ParseExchangeInfo :: "string \<Rightarrow> bool \<Rightarrow> parse_error + PeerExchangeInfo option" where
  "ParseExchangeInfo text' out_ok =
     (if \<not> out_ok then Inr None
      else case apply_lines exchange_field (getlines newline text') new_PeerExchangeInfo of
             Inl e \<Rightarrow> Inl e
           | Inr parsed \<Rightarrow>
               if px_node_id parsed = kInvalidNodeId \<or> px_qpn parsed = 0 then Inr None else Inr (Some parsed))"

section \<open>Lines of a printed text\<close>

fun apply_fields :: "(string \<Rightarrow> string \<Rightarrow> 's \<Rightarrow> parse_error + 's) \<Rightarrow> (string \<times> string) list \<Rightarrow> 's \<Rightarrow> parse_error + 's" where
  "apply_fields f [] s = Inr s"
| "apply_fields f ((key, value') # rest) s =
     (case f key value' s of Inl e \<Rightarrow> Inl e | Inr s \<Rightarrow> apply_fields f rest s)"

definition plain_key :: "string \<Rightarrow> bool" where
  "plain_key key \<longleftrightarrow> list_all (\<lambda>c. c \<noteq> CHR 0x0A \<and> c \<noteq> CHR ''='') key"

lemma apply_lines_printed:
  assumes "\<forall>(key, value') \<in> set kvs. plain_key key \<and> newline \<notin> set value'"
  shows "apply_lines f (getlines newline (concat (map field kvs))) s = apply_fields f kvs s"
  using assms
proof (induction kvs arbitrary: s)
  case (Cons kv kvs)
  obtain key value' where kv: "kv = (key, value')" by force
  have "newline \<notin> set (key @ CHR ''='' # value')"
    using Cons.prems by (auto simp: kv plain_key_def list_all_iff newline_def)
  then have "getlines newline (field kv @ rest) = (key @ CHR ''='' # value') # getlines newline rest" for rest
    using getlines_line [of newline "key @ CHR ''='' # value'" rest] by (simp add: field_def kv)
  moreover have "key_value (key @ CHR ''='' # value') = Some (key, value')"
    using Cons.prems by (intro key_value_field) (auto simp: kv plain_key_def list_all_iff)
  ultimately show ?case using Cons by (simp add: kv split: sum.split)
qed simp

lemma gid_text_lines:
  "gid \<noteq> [] \<Longrightarrow> getlines CHR '':'' (gid_text gid) = map print_word gid"
proof (induction gid rule: gid_text.induct)
  case (2 b)
  have "print_word b \<noteq> []" by (simp add: print_word_def)
  then show ?case using print_no_newline(3) [of b] by (simp add: getlines_last)
next
  case (3 b c bs)
  then show ?case using print_no_newline(3) [of b] by (simp add: getlines_line)
qed simp

lemma parse_gid_print:
  "idx + length gid = 16 \<Longrightarrow> length acc = 16 \<Longrightarrow>
   parse_gid (map print_word gid) idx acc = Inr (take idx acc @ (gid :: byte list))"
proof (induction gid arbitrary: idx acc)
  case (Cons b gid)
  then have idx: "idx < 16" "idx + 1 + length gid = 16" by simp_all
  have "stoul (print_word b) = Inr (ucast b)" by (rule stoull_print) simp
  with Cons.IH [OF idx(2), of "acc[idx := b]"] Cons.prems(2) idx(1) show ?case
    by (simp add: take_Suc_conv_app_nth)
qed simp

lemma gid_text_no_newline: "newline \<notin> set (gid_text gid)"
  by (induction gid rule: gid_text.induct) (auto simp: print_no_newline, simp_all add: newline_def)

section \<open>Properties\<close>

text \<open>A message every field of which fits its text form.\<close>

definition printable :: "ControlMessage \<Rightarrow> bool" where
  "printable msg \<longleftrightarrow> cmsg_source_node msg \<noteq> kInvalidNodeId \<and> cmsg_target_node msg \<noteq> kInvalidNodeId \<and>
     cmsg_opcode msg \<in> {kInvalidateRange, kOwnerTransfer, kInvalidateAck, kOwnerTransferAck} \<and>
     cmsg_mode msg \<in> {kWI, kSI, kAdaptive}"

text \<open>
  Control messages survive the wire: parsing the text of a message with valid nodes, a named opcode
  and a named mode gives the message back, every field at its full width.
\<close>

lemma ControlMessage_roundtrip:
  assumes "printable msg"
  shows "ParseControlMessage (FormatControlMessage msg) True = Inr (Some msg)"
proof -
  have op: "stoi (print_int (opcode_int (cmsg_opcode msg))) = Inr (opcode_int (cmsg_opcode msg))"
    "opcode_of_int (opcode_int (cmsg_opcode msg)) = cmsg_opcode msg"
    using assms by (auto simp: printable_def stoi_print opcode_of_int_def)
  have mode: "stoi (print_int (mode_int (cmsg_mode msg))) = Inr (mode_int (cmsg_mode msg))"
    "mode_of_int (mode_int (cmsg_mode msg)) = cmsg_mode msg"
    using assms by (auto simp: printable_def stoi_print mode_of_int_def)
  have "apply_lines control_field (getlines newline (FormatControlMessage msg)) new_ControlMessage = Inr msg"
    unfolding FormatControlMessage_def
    by (subst apply_lines_printed)
       (simp_all add: print_no_newline plain_key_def control_field_def op mode stoull_print new_ControlMessage_def default_BlockId_def)
  with assms show ?thesis by (simp add: ParseControlMessage_def printable_def)
qed

lemma printed_info_parses:
  assumes "px_node_id info \<noteq> kInvalidNodeId" and "px_qpn info \<noteq> 0" and "length (px_gid_raw info) = 16"
  shows "ParseExchangeInfo (FormatExchangeInfo info) True = Inr (Some info)"
proof -
  have gid: "parse_gid (getlines CHR '':'' (gid_text (px_gid_raw info))) 0 (replicate 16 0) = Inr (px_gid_raw info)"
    using assms(3) parse_gid_print [of 0 "px_gid_raw info" "replicate 16 0"]
    by (subst gid_text_lines) auto
  have flag: "print_int 1 = ''1''" "print_int 0 = ''0''" by code_simp+
  have "apply_lines exchange_field (getlines newline (FormatExchangeInfo info)) new_PeerExchangeInfo = Inr info"
    unfolding FormatExchangeInfo_def
    by (subst apply_lines_printed)
       (simp_all add: print_no_newline gid_text_no_newline plain_key_def exchange_field_def stoull_print gid flag
         new_PeerExchangeInfo_def)
  with assms show ?thesis by (simp add: ParseExchangeInfo_def)
qed

text \<open>
  C28: Connection data survives the exchange. Parsing the text a node writes for a peer gives its
  queue pair number, key, address, length and the sixteen bytes of the gid back.
\<close>

theorem ExchangeInfo_roundtrip:
  assumes "px_node_id info \<noteq> kInvalidNodeId" and "px_qpn info \<noteq> 0" and "length (px_gid_raw info) = 16"
  shows "ParseExchangeInfo (FormatExchangeInfo info) True = Inr (Some info)"
  using assms by (rule printed_info_parses)

theorem ExchangeInfo_roundtrip_witness:
  "ParseExchangeInfo (FormatExchangeInfo (new_PeerExchangeInfo\<lparr>px_node_id := 3, px_qpn := 77, px_has_gid := True,
     px_gid_raw := replicate 15 0 @ [255]\<rparr>)) True =
   Inr (Some (new_PeerExchangeInfo\<lparr>px_node_id := 3, px_qpn := 77, px_has_gid := True,
     px_gid_raw := replicate 15 0 @ [255]\<rparr>))"
  by (rule ExchangeInfo_roundtrip) (simp_all add: kInvalidNodeId_def)

text \<open>
  C34: A truncated message is accepted. The first three lines of the text of a message already parse
  as a message: a reader that meets the file while it is being written takes over opcode and nodes
  and defaults for the rest, in particular request number 0 and block 0.
\<close>

theorem truncated_message_accepted:
  assumes "printable msg"
  shows "\<exists>front back.
    front = field (''opcode'', print_int (opcode_int (cmsg_opcode msg))) @
      field (''source_node'', print_word (cmsg_source_node msg)) @
      field (''target_node'', print_word (cmsg_target_node msg)) \<and>
    FormatControlMessage msg = front @ back \<and>
    ParseControlMessage front True =
      Inr (Some (new_ControlMessage\<lparr>cmsg_opcode := cmsg_opcode msg, cmsg_source_node := cmsg_source_node msg,
                                      cmsg_target_node := cmsg_target_node msg\<rparr>))"
proof -
  let ?fields = "[(''opcode'', print_int (opcode_int (cmsg_opcode msg))),
      (''source_node'', print_word (cmsg_source_node msg)), (''target_node'', print_word (cmsg_target_node msg))]"
  have op: "stoi (print_int (opcode_int (cmsg_opcode msg))) = Inr (opcode_int (cmsg_opcode msg))"
    "opcode_of_int (opcode_int (cmsg_opcode msg)) = cmsg_opcode msg"
    using assms by (auto simp: printable_def stoi_print opcode_of_int_def)
  have "apply_lines control_field (getlines newline (concat (map field ?fields))) new_ControlMessage =
      Inr (new_ControlMessage\<lparr>cmsg_opcode := cmsg_opcode msg, cmsg_source_node := cmsg_source_node msg,
                               cmsg_target_node := cmsg_target_node msg\<rparr>)"
    by (subst apply_lines_printed) (simp_all add: print_no_newline plain_key_def control_field_def op stoull_print)
  then have "ParseControlMessage (concat (map field ?fields)) True =
      Inr (Some (new_ControlMessage\<lparr>cmsg_opcode := cmsg_opcode msg, cmsg_source_node := cmsg_source_node msg,
                                      cmsg_target_node := cmsg_target_node msg\<rparr>))"
    using assms unfolding ParseControlMessage_def by (simp add: printable_def)
  moreover have "\<exists>back. FormatControlMessage msg = concat (map field ?fields) @ back"
    by (simp add: FormatControlMessage_def)
  ultimately show ?thesis by auto
qed

theorem truncated_message_accepted_witness:
  "\<exists>front back.
    front = field (''opcode'', print_int 0) @ field (''source_node'', print_word (1 :: NodeId)) @
      field (''target_node'', print_word (2 :: NodeId)) \<and>
    FormatControlMessage (new_ControlMessage\<lparr>cmsg_source_node := 1, cmsg_target_node := 2, cmsg_request_id := 7\<rparr>) =
      front @ back \<and>
    ParseControlMessage front True = Inr (Some (new_ControlMessage\<lparr>cmsg_source_node := 1, cmsg_target_node := 2\<rparr>))"
  using truncated_message_accepted
    [of "new_ControlMessage\<lparr>cmsg_source_node := 1, cmsg_target_node := 2, cmsg_request_id := 7\<rparr>"]
  by (simp add: printable_def new_ControlMessage_def kInvalidNodeId_def)

end
