(* ===== verification/Rdma_Env.thy ===== *)
theory Rdma_Env
  imports Wire_Format
begin

text \<open>
  What the \<^verbatim>\<open>RdmaTransport\<close> of a build with verbs calls and the repository does not
  contain: libibverbs, the file system and the clock. They are the fields of one record of
  functions, an argument of every operation that uses them. A function takes the host, that is the
  memory of the process and the state \<open>'d\<close> of everything outside it (devices, fabric, other nodes,
  files, time), and returns it changed. Nothing is assumed of these functions here.
\<close>

section \<open>The host\<close>

text \<open>The address space of the process is flat; address 0 is \<^verbatim>\<open>nullptr\<close>.\<close>

record 'd Host =
  h_mem :: "u64 \<Rightarrow> byte"
  h_outside :: 'd

text \<open>\<^verbatim>\<open>memcpy(dst, src, n)\<close> between disjoint ranges.\<close>

definition copy_bytes :: "u64 \<Rightarrow> u64 \<Rightarrow> u64 \<Rightarrow> (u64 \<Rightarrow> byte) \<Rightarrow> u64 \<Rightarrow> byte" where
  "copy_bytes dst src n mem = (\<lambda>a. if a - dst < n then mem (src + (a - dst)) else mem a)"

text \<open>The ranges of \<open>n\<close> bytes at two addresses share no byte.\<close>

definition disjoint_bytes :: "u64 \<Rightarrow> u64 \<Rightarrow> u64 \<Rightarrow> bool" where
  "disjoint_bytes a b n \<longleftrightarrow> n = 0 \<or> n \<le> a - b \<and> n \<le> b - a"

section \<open>Types of libibverbs\<close>

text \<open>Pointers the transport only passes on are numbers; of the structures, the members it uses.\<close>

type_synonym handle = nat

record ibv_mr =
  imr_handle :: handle
  imr_addr :: u64
  imr_lkey :: u32
  imr_rkey :: u32

record ibv_qp =
  iqp_handle :: handle
  iqp_num :: u32

record ibv_port_attr =
  ipa_lid :: u16
  ipa_active_mtu :: u8

record ibv_qp_init_attr =
  qia_send_cq :: "handle option"
  qia_recv_cq :: "handle option"
  qia_max_send_wr :: u32
  qia_max_recv_wr :: u32
  qia_max_send_sge :: u32
  qia_max_recv_sge :: u32
  qia_max_inline_data :: u32

datatype ibv_qp_state = IBV_QPS_RESET | IBV_QPS_INIT | IBV_QPS_RTR | IBV_QPS_RTS

datatype ibv_access = IBV_ACCESS_LOCAL_WRITE | IBV_ACCESS_REMOTE_READ | IBV_ACCESS_REMOTE_WRITE

datatype ibv_qp_mask =
    IBV_QP_STATE | IBV_QP_PKEY_INDEX | IBV_QP_PORT | IBV_QP_ACCESS_FLAGS | IBV_QP_AV | IBV_QP_PATH_MTU
  | IBV_QP_DEST_QPN | IBV_QP_RQ_PSN | IBV_QP_MAX_DEST_RD_ATOMIC | IBV_QP_MIN_RNR_TIMER | IBV_QP_TIMEOUT
  | IBV_QP_RETRY_CNT | IBV_QP_RNR_RETRY | IBV_QP_SQ_PSN | IBV_QP_MAX_QP_RD_ATOMIC

record ibv_ah_attr =
  ah_is_global :: u8
  ah_dlid :: u16
  ah_sl :: u8
  ah_src_path_bits :: u8
  ah_port_num :: u8
  ah_dgid :: "byte list"
  ah_hop_limit :: u8
  ah_sgid_index :: u8

record ibv_qp_attr =
  qa_qp_state :: ibv_qp_state
  qa_pkey_index :: u16
  qa_port_num :: u8
  qa_access_flags :: "ibv_access list"
  qa_path_mtu :: u8
  qa_dest_qp_num :: u32
  qa_rq_psn :: u32
  qa_max_dest_rd_atomic :: u8
  qa_min_rnr_timer :: u8
  qa_ah_attr :: ibv_ah_attr
  qa_timeout :: u8
  qa_retry_cnt :: u8
  qa_rnr_retry :: u8
  qa_sq_psn :: u32
  qa_max_rd_atomic :: u8

text \<open>\<^verbatim>\<open>ibv_qp_attr attr{}\<close>: all members zero.\<close>

definition zero_ah_attr :: ibv_ah_attr where
  "zero_ah_attr = \<lparr>ah_is_global = 0, ah_dlid = 0, ah_sl = 0, ah_src_path_bits = 0, ah_port_num = 0,
     ah_dgid = replicate 16 0, ah_hop_limit = 0, ah_sgid_index = 0\<rparr>"

definition zero_qp_attr :: ibv_qp_attr where
  "zero_qp_attr = \<lparr>qa_qp_state = IBV_QPS_RESET, qa_pkey_index = 0, qa_port_num = 0, qa_access_flags = [],
     qa_path_mtu = 0, qa_dest_qp_num = 0, qa_rq_psn = 0, qa_max_dest_rd_atomic = 0, qa_min_rnr_timer = 0,
     qa_ah_attr = zero_ah_attr, qa_timeout = 0, qa_retry_cnt = 0, qa_rnr_retry = 0, qa_sq_psn = 0,
     qa_max_rd_atomic = 0\<rparr>"

datatype ibv_wr_opcode = IBV_WR_RDMA_READ | IBV_WR_RDMA_WRITE

datatype ibv_send_flag = IBV_SEND_SIGNALED | IBV_SEND_INLINE

text \<open>A work request with its single scatter/gather element.\<close>

record ibv_send_wr =
  wr_id :: u64
  wr_opcode :: ibv_wr_opcode
  wr_send_flags :: "ibv_send_flag list"
  sge_addr :: u64
  sge_length :: u32
  sge_lkey :: u32
  wr_remote_addr :: u64
  wr_rkey :: u32

datatype ibv_wc_status = IBV_WC_SUCCESS | IBV_WC_ERROR

text \<open>The numeric value of \<^verbatim>\<open>IBV_MTU_1024\<close>.\<close>

definition IBV_MTU_1024 :: u8 where
  "IBV_MTU_1024 = 3"

section \<open>The environment\<close>

text \<open>
  Scanning a directory with \<^verbatim>\<open>directory_iterator(dir, ec)\<close>: the entries with their names
  and whether they are regular files; or the iterator was not opened (\<^verbatim>\<open>ec\<close> is set and it
  equals the end iterator); or a later step throws.
\<close>

datatype dir_scan = Entries "(string \<times> bool) list" | Scan_not_opened | Scan_throws

text \<open>
  A result of type \<open>option\<close> is \<^term>\<open>None\<close> for a null pointer, for a file that could not be opened
  (\<open>ifstream_read\<close>) and for a function that throws \<^verbatim>\<open>filesystem_error\<close>
  (\<open>fs_exists\<close>, \<open>fs_temp_directory_path\<close>, \<open>fs_current_path\<close>). \<open>fs_create_directories\<close> returns whether \<^verbatim>\<open>ec\<close> is
  set. A file is written in the two steps another process can observe: opening truncates or creates
  it, the text arrives afterwards. Time is in milliseconds.
\<close>

record 'd Env =
  ibv_get_device_list :: "'d Host \<Rightarrow> string list option \<times> 'd Host"
  ibv_free_device_list :: "'d Host \<Rightarrow> 'd Host"
  ibv_open_device :: "nat \<Rightarrow> 'd Host \<Rightarrow> handle option \<times> 'd Host"
  ibv_close_device :: "handle \<Rightarrow> 'd Host \<Rightarrow> 'd Host"
  ibv_query_port :: "handle \<Rightarrow> u8 \<Rightarrow> 'd Host \<Rightarrow> int \<times> ibv_port_attr"
  ibv_query_gid :: "handle \<Rightarrow> u8 \<Rightarrow> u8 \<Rightarrow> 'd Host \<Rightarrow> int \<times> byte list"
  ibv_alloc_pd :: "handle \<Rightarrow> 'd Host \<Rightarrow> handle option \<times> 'd Host"
  ibv_dealloc_pd :: "handle \<Rightarrow> 'd Host \<Rightarrow> 'd Host"
  ibv_create_cq :: "handle \<Rightarrow> int \<Rightarrow> 'd Host \<Rightarrow> handle option \<times> 'd Host"
  ibv_destroy_cq :: "handle \<Rightarrow> 'd Host \<Rightarrow> 'd Host"
  ibv_create_qp :: "handle option \<Rightarrow> ibv_qp_init_attr \<Rightarrow> 'd Host \<Rightarrow> ibv_qp option \<times> 'd Host"
  ibv_destroy_qp :: "ibv_qp \<Rightarrow> 'd Host \<Rightarrow> 'd Host"
  ibv_modify_qp :: "ibv_qp \<Rightarrow> ibv_qp_attr \<Rightarrow> ibv_qp_mask list \<Rightarrow> 'd Host \<Rightarrow> int \<times> 'd Host"
  ibv_reg_mr :: "handle option \<Rightarrow> u64 \<Rightarrow> u64 \<Rightarrow> ibv_access list \<Rightarrow> 'd Host \<Rightarrow> ibv_mr option \<times> 'd Host"
  ibv_dereg_mr :: "ibv_mr \<Rightarrow> 'd Host \<Rightarrow> 'd Host"
  ibv_post_send :: "ibv_qp \<Rightarrow> ibv_send_wr \<Rightarrow> 'd Host \<Rightarrow> int \<times> 'd Host"
  ibv_poll_cq :: "handle option \<Rightarrow> int \<Rightarrow> 'd Host \<Rightarrow> int \<times> ibv_wc_status list \<times> 'd Host"
  fs_create_directories :: "string \<Rightarrow> 'd Host \<Rightarrow> bool \<times> 'd Host"
  fs_exists :: "string \<Rightarrow> 'd Host \<Rightarrow> bool option"
  fs_remove :: "string \<Rightarrow> 'd Host \<Rightarrow> 'd Host"
  fs_scan :: "string \<Rightarrow> 'd Host \<Rightarrow> dir_scan"
  fs_temp_directory_path :: "'d Host \<Rightarrow> string option"
  fs_current_path :: "'d Host \<Rightarrow> string option"
  ofstream_open :: "string \<Rightarrow> 'd Host \<Rightarrow> bool \<times> 'd Host"
  ofstream_put :: "string \<Rightarrow> string \<Rightarrow> 'd Host \<Rightarrow> 'd Host"
  ifstream_read :: "string \<Rightarrow> 'd Host \<Rightarrow> string option"
  clock_now :: "'d Host \<Rightarrow> int"
  sleep_for :: "nat \<Rightarrow> 'd Host \<Rightarrow> 'd Host"

text \<open>The exceptions that leave an operation, and the result of an operation that returns a status.\<close>

datatype exn = Exn_parse parse_error | Exn_filesystem | Exn_length

type_synonym 'a throws = "exn + 'a"

section \<open>Paths\<close>

text \<open>The operations of \<^verbatim>\<open>std::filesystem::path\<close> the transport uses, on POSIX path texts.\<close>

definition path_append :: "string \<Rightarrow> string \<Rightarrow> string" where
  "path_append dir name =
     (if name \<noteq> [] \<and> hd name = CHR ''/'' then name
      else if dir = [] \<or> last dir = CHR ''/'' then dir @ name
      else dir @ CHR ''/'' # name)"

definition parent_path :: "string \<Rightarrow> string" where
  "parent_path path =
     (let front = dropWhile (\<lambda>c. c \<noteq> CHR ''/'') (rev path);
          stem = dropWhile (\<lambda>c. c = CHR ''/'') front
      in if front = [] then [] else if stem = [] then ''/'' else rev stem)"

end
