(* ===== verification/Rdma_Transport.thy ===== *)
theory Rdma_Transport
  imports Rdma_Env "HOL-Library.Char_ord" "HOL-Library.List_Lexorder"
begin

text \<open>
  The \<^verbatim>\<open>RdmaTransport\<close> of a build with verbs (\<^verbatim>\<open>src/transport/rdma_transport.cc\<close>,
  \<^verbatim>\<open>LEOMEM_HAS_IBVERBS\<close>). An operation takes the environment, the members of the object and
  the host. A result is \<^term>\<open>None\<close> when the call never returns or has no defined result, and
  otherwise the status or the exception, the members and the host afterwards. Log messages leave no
  trace. Two expressions of the source do not type-check as they stand: the argument of
  \<^verbatim>\<open>TransitionQueuePair(peer)\<close> is taken as \<^verbatim>\<open>&peer\<close> and the minimum of the two
  transfer units is taken of their numeric values.
\<close>

unbundle bit_operations_syntax

section \<open>State\<close>

record PeerConnection =
  pc_node_id :: NodeId
  pc_qp :: "ibv_qp option"
  pc_remote :: PeerExchangeInfo
  pc_local_psn :: u32
  pc_ready :: bool

definition new_PeerConnection :: PeerConnection where
  "new_PeerConnection = \<lparr>pc_node_id = kInvalidNodeId, pc_qp = None, pc_remote = new_PeerExchangeInfo,
     pc_local_psn = 0, pc_ready = False\<rparr>"

record RdmaTransport =
  rt_cfg :: Config
  rt_initialized :: bool
  rt_context :: "handle option"
  rt_pd :: "handle option"
  rt_cq :: "handle option"
  rt_local_mr :: "ibv_mr option"
  rt_port_attr :: ibv_port_attr
  rt_gid :: "byte list"
  rt_local_base :: u64
  rt_local_length :: u64
  rt_outstanding_sends :: u64
  rt_control_sequence :: u64
  rt_peers :: "PeerConnection list"

definition CreateRdmaTransport :: "Config \<Rightarrow> RdmaTransport" where
  "CreateRdmaTransport cfg = \<lparr>rt_cfg = cfg, rt_initialized = False, rt_context = None, rt_pd = None,
     rt_cq = None, rt_local_mr = None, rt_port_attr = \<lparr>ipa_lid = 0, ipa_active_mtu = 0\<rparr>,
     rt_gid = replicate 16 0, rt_local_base = 0, rt_local_length = 0, rt_outstanding_sends = 0,
     rt_control_sequence = 0, rt_peers = []\<rparr>"

text \<open>A write request as this transport sees it, with the address of the buffer.\<close>

record WriteAt =
  wa_addr :: GlobalAddr
  wa_buf :: u64
  wa_size :: u64

definition all_access :: "ibv_access list" where
  "all_access = [IBV_ACCESS_LOCAL_WRITE, IBV_ACCESS_REMOTE_READ, IBV_ACCESS_REMOTE_WRITE]"

text \<open>\<^verbatim>\<open>static_cast<int>\<close> of a \<^verbatim>\<open>size_t\<close>.\<close>

definition int_of_size :: "u64 \<Rightarrow> int" where
  "int_of_size n = sint (ucast n :: u32)"

section \<open>Exchange directory\<close>

definition ResolveExchangeDir :: "'d Env \<Rightarrow> Config \<Rightarrow> 'd Host \<Rightarrow> string throws" where
  "ResolveExchangeDir E cfg h =
     (if cfg_rdma_exchange_dir cfg \<noteq> [] then Inr (cfg_rdma_exchange_dir cfg)
      else if cfg_cluster_config_path cfg \<noteq> [] then
        (let base = cfg_cluster_config_path cfg in
         if parent_path base \<noteq> [] then Inr (path_append (parent_path base) ''rdma_exchange'')
         else case fs_current_path E h of
                None \<Rightarrow> Inl Exn_filesystem
              | Some cwd \<Rightarrow> Inr (path_append cwd ''rdma_exchange''))
      else case fs_temp_directory_path E h of
             None \<Rightarrow> Inl Exn_filesystem
           | Some tmp \<Rightarrow> Inr (path_append tmp ''leomem-rdma-exchange''))"

section \<open>Completions\<close>

text \<open>
  The status or exception, the value stored through \<^verbatim>\<open>completed\<close> when that pointer is not
  null (\<open>completed_ok\<close>), the members and the host. A negative \<^verbatim>\<open>limit\<close> makes the vector
  constructor throw.
\<close>

definition Rdma_PollCompletions ::
    "'d Env \<Rightarrow> RdmaTransport \<Rightarrow> 'd Host \<Rightarrow> u64 \<Rightarrow> bool \<Rightarrow>
     Status throws \<times> u64 option \<times> RdmaTransport \<times> 'd Host" where
  "Rdma_PollCompletions E rt h max_completions completed_ok =
     (if \<not> rt_initialized rt then (Inr kNotInitialized, None, rt, h)
      else
        let completed = (if completed_ok then Some 0 else None);
            limit = int_of_size (max 1 max_completions) in
        if limit < 0 then (Inl Exn_length, completed, rt, h)
        else
          let (polled, wcs, h) = ibv_poll_cq E (rt_cq rt) limit h in
          if polled < 0 then (Inr kInternalError, completed, rt, h)
          else if list_ex (\<lambda>s. s \<noteq> IBV_WC_SUCCESS) (take (nat polled) wcs) then (Inr kInternalError, completed, rt, h)
          else
            let completed = (if completed_ok then Some (of_int polled) else None);
                outstanding = (if (of_int polled :: u64) \<le> rt_outstanding_sends rt
                               then rt_outstanding_sends rt - of_int polled else 0)
            in (Inr kOk, completed, rt\<lparr>rt_outstanding_sends := outstanding\<rparr>, h))"

text \<open>The loop of \<^verbatim>\<open>WaitForCompletions\<close>; it has no bound on the number of empty polls.\<close>

partial_function (option) wait_loop ::
    "'d Env \<Rightarrow> u64 \<Rightarrow> u64 \<Rightarrow> RdmaTransport \<Rightarrow> 'd Host \<Rightarrow> (Status throws \<times> RdmaTransport \<times> 'd Host) option" where
  "wait_loop E target completed rt h =
     (if completed < target then
        (case Rdma_PollCompletions E rt h (target - completed) True of
           (s, polled, rt', h') \<Rightarrow>
             if s \<noteq> Inr kOk then Some (s, rt', h')
             else if the polled = 0 then wait_loop E target completed rt' (sleep_for E 1 h')
             else wait_loop E target (completed + the polled) rt' h')
      else Some (Inr kOk, rt, h))"

definition WaitForCompletions ::
    "'d Env \<Rightarrow> RdmaTransport \<Rightarrow> 'd Host \<Rightarrow> u64 \<Rightarrow> (Status throws \<times> RdmaTransport \<times> 'd Host) option" where
  "WaitForCompletions E rt h target =
     (if target = 0 then Some (Inr kOk, rt, h) else wait_loop E target 0 rt h)"

definition Rdma_Fence :: "'d Env \<Rightarrow> RdmaTransport \<Rightarrow> 'd Host \<Rightarrow> (Status throws \<times> RdmaTransport \<times> 'd Host) option" where
  "Rdma_Fence E rt h =
     (if \<not> rt_initialized rt then Some (Inr kNotInitialized, rt, h)
      else WaitForCompletions E rt h (rt_outstanding_sends rt))"

section \<open>Queue pairs\<close>

definition CreateQueuePair ::
    "'d Env \<Rightarrow> RdmaTransport \<Rightarrow> 'd Host \<Rightarrow> PeerConnection \<Rightarrow> Status \<times> PeerConnection \<times> 'd Host" where
  "CreateQueuePair E rt h peer =
     (let cfg = rt_cfg rt;
          attr = \<lparr>qia_send_cq = rt_cq rt, qia_recv_cq = rt_cq rt,
                  qia_max_send_wr = ucast (cfg_rdma_sq_depth cfg), qia_max_recv_wr = ucast (cfg_rdma_rq_depth cfg),
                  qia_max_send_sge = 1, qia_max_recv_sge = 1,
                  qia_max_inline_data = ucast (cfg_rdma_max_inline_bytes cfg)\<rparr>;
          (qp, h) = ibv_create_qp E (rt_pd rt) attr h;
          peer = peer\<lparr>pc_qp := qp\<rparr>
      in case qp of
           None \<Rightarrow> (kInternalError, peer, h)
         | Some q \<Rightarrow>
             let init_attr = zero_qp_attr\<lparr>qa_qp_state := IBV_QPS_INIT, qa_pkey_index := 0,
                   qa_port_num := cfg_rdma_port cfg,
                   qa_access_flags := [IBV_ACCESS_REMOTE_READ, IBV_ACCESS_REMOTE_WRITE]\<rparr>;
                 (rc, h) = ibv_modify_qp E q init_attr
                   [IBV_QP_STATE, IBV_QP_PKEY_INDEX, IBV_QP_PORT, IBV_QP_ACCESS_FLAGS] h in
             if rc \<noteq> 0 then (kInternalError, peer, h)
             else
               let psn = push_bit 8 (ucast (cfg_node_id cfg) + 1) XOR (ucast (pc_node_id peer) + 17)
               in (kOk, peer\<lparr>pc_local_psn := psn\<rparr>, h))"

definition TransitionQueuePair ::
    "'d Env \<Rightarrow> RdmaTransport \<Rightarrow> 'd Host \<Rightarrow> PeerConnection \<Rightarrow> Status \<times> 'd Host" where
  "TransitionQueuePair E rt h peer =
     (case pc_qp peer of
        None \<Rightarrow> (kInvalidArg, h)
      | Some q \<Rightarrow>
          let cfg = rt_cfg rt; remote = pc_remote peer;
              ah = zero_ah_attr\<lparr>ah_is_global := (if px_has_gid remote then 1 else 0), ah_dlid := px_lid remote,
                     ah_sl := 0, ah_src_path_bits := 0, ah_port_num := cfg_rdma_port cfg\<rparr>;
              ah = (if px_has_gid remote
                    then ah\<lparr>ah_dgid := px_gid_raw remote, ah_hop_limit := 1, ah_sgid_index := cfg_rdma_gid_index cfg\<rparr>
                    else ah);
              rtr = zero_qp_attr\<lparr>qa_qp_state := IBV_QPS_RTR,
                      qa_path_mtu := min (ipa_active_mtu (rt_port_attr rt)) IBV_MTU_1024,
                      qa_dest_qp_num := px_qpn remote, qa_rq_psn := px_psn remote, qa_max_dest_rd_atomic := 1,
                      qa_min_rnr_timer := 12, qa_ah_attr := ah\<rparr>;
              (rc, h) = ibv_modify_qp E q rtr
                [IBV_QP_STATE, IBV_QP_AV, IBV_QP_PATH_MTU, IBV_QP_DEST_QPN, IBV_QP_RQ_PSN,
                 IBV_QP_MAX_DEST_RD_ATOMIC, IBV_QP_MIN_RNR_TIMER] h in
          if rc \<noteq> 0 then (kInternalError, h)
          else
            let rts = zero_qp_attr\<lparr>qa_qp_state := IBV_QPS_RTS, qa_timeout := 14, qa_retry_cnt := 7,
                        qa_rnr_retry := 7, qa_sq_psn := pc_local_psn peer, qa_max_rd_atomic := 1\<rparr>;
                (rc, h) = ibv_modify_qp E q rts
                  [IBV_QP_STATE, IBV_QP_TIMEOUT, IBV_QP_RETRY_CNT, IBV_QP_RNR_RETRY, IBV_QP_SQ_PSN,
                   IBV_QP_MAX_QP_RD_ATOMIC] h
            in (if rc \<noteq> 0 then kInternalError else kOk, h))"

text \<open>\<^verbatim>\<open>GetPeer\<close>: the peer, unless the index is outside the vector.\<close>

definition GetPeer :: "RdmaTransport \<Rightarrow> NodeId \<Rightarrow> PeerConnection option" where
  "GetPeer rt node = (if length (rt_peers rt) \<le> unat node then None else Some (rt_peers rt ! unat node))"

section \<open>Life cycle\<close>

text \<open>The first device the configured name selects, as its index.\<close>

fun select_device :: "string \<Rightarrow> nat \<Rightarrow> string list \<Rightarrow> nat option" where
  "select_device wanted i [] = None"
| "select_device wanted i (name # names) =
     (if wanted = [] \<or> wanted = name then Some i else select_device wanted (i + 1) names)"

definition resize_peers :: "nat \<Rightarrow> PeerConnection list \<Rightarrow> PeerConnection list" where
  "resize_peers n peers = take n peers @ replicate (n - length peers) new_PeerConnection"

text \<open>The loop over the nodes at the end of \<^verbatim>\<open>Init\<close>.\<close>

fun create_peers :: "'d Env \<Rightarrow> nat list \<Rightarrow> RdmaTransport \<Rightarrow> 'd Host \<Rightarrow> Status \<times> RdmaTransport \<times> 'd Host" where
  "create_peers E [] rt h = (kOk, rt, h)"
| "create_peers E (node # nodes) rt h =
     (let peer = (rt_peers rt ! node)\<lparr>pc_node_id := of_nat node\<rparr> in
      if of_nat node = cfg_node_id (rt_cfg rt)
      then create_peers E nodes (rt\<lparr>rt_peers := (rt_peers rt)[node := peer]\<rparr>) h
      else
        let (s, peer, h) = CreateQueuePair E rt h peer;
            rt = rt\<lparr>rt_peers := (rt_peers rt)[node := peer]\<rparr>
        in if s \<noteq> kOk then (s, rt, h) else create_peers E nodes rt h)"

text \<open>\<^verbatim>\<open>Init\<close> from the opened device on.\<close>

definition init_on_device :: "'d Env \<Rightarrow> RdmaTransport \<Rightarrow> handle \<Rightarrow> 'd Host \<Rightarrow> Status \<times> RdmaTransport \<times> 'd Host" where
  "init_on_device E rt ctx h =
     (let cfg = rt_cfg rt;
          (rc, port_attr) = ibv_query_port E ctx (cfg_rdma_port cfg) h;
          rt = rt\<lparr>rt_port_attr := port_attr\<rparr> in
      if rc \<noteq> 0 then (kInternalError, rt, h)
      else
        let (rc, gid) = ibv_query_gid E ctx (cfg_rdma_port cfg) (cfg_rdma_gid_index cfg) h;
            rt = rt\<lparr>rt_gid := (if rc \<noteq> 0 then replicate 16 0 else gid)\<rparr>;
            (pd, h) = ibv_alloc_pd E ctx h;
            rt = rt\<lparr>rt_pd := pd\<rparr> in
        if pd = None then (kInternalError, rt, h)
        else
          let cq_depth = int_of_size (max (cfg_rdma_cq_depth cfg)
                (cfg_rdma_sq_depth cfg * ucast (max 1 (cfg_nr_nodes cfg))));
              (cq, h) = ibv_create_cq E ctx cq_depth h;
              rt = rt\<lparr>rt_cq := cq\<rparr> in
          if cq = None then (kInternalError, rt, h)
          else
            let rt = rt\<lparr>rt_peers := resize_peers (unat (cfg_nr_nodes cfg)) (rt_peers rt)\<rparr>;
                (s, rt, h) = create_peers E [0 ..< unat (cfg_nr_nodes cfg)] rt h
            in if s \<noteq> kOk then (s, rt, h) else (kOk, rt\<lparr>rt_initialized := True\<rparr>, h))"

definition Rdma_Init :: "'d Env \<Rightarrow> RdmaTransport \<Rightarrow> 'd Host \<Rightarrow> Status \<times> RdmaTransport \<times> 'd Host" where
  "Rdma_Init E rt h =
     (if rt_initialized rt then (kAlreadyInitialized, rt, h)
      else
        let (device_list, h) = ibv_get_device_list E h in
        case device_list of
          None \<Rightarrow> (kNotFound, rt, h)
        | Some names \<Rightarrow>
            if names = [] then (kNotFound, rt, ibv_free_device_list E h)
            else
              (case select_device (cfg_rdma_device_name (rt_cfg rt)) 0 names of
                 None \<Rightarrow> (kNotFound, rt, ibv_free_device_list E h)
               | Some selected \<Rightarrow>
                   let (ctx, h) = ibv_open_device E selected h;
                       rt = rt\<lparr>rt_context := ctx\<rparr>;
                       h = ibv_free_device_list E h
                   in case ctx of
                        None \<Rightarrow> (kInternalError, rt, h)
                      | Some c \<Rightarrow> init_on_device E rt c h))"

text \<open>Releasing an object the transport may hold.\<close>

definition release :: "('a \<Rightarrow> 'd Host \<Rightarrow> 'd Host) \<Rightarrow> 'a option \<Rightarrow> 'd Host \<Rightarrow> 'd Host" where
  "release f obj h = (case obj of None \<Rightarrow> h | Some x \<Rightarrow> f x h)"

definition Rdma_Shutdown :: "'d Env \<Rightarrow> RdmaTransport \<Rightarrow> 'd Host \<Rightarrow> Status \<times> RdmaTransport \<times> 'd Host" where
  "Rdma_Shutdown E rt h =
     (let h = release (ibv_dereg_mr E) (rt_local_mr rt) h;
          h = fold (\<lambda>peer. release (ibv_destroy_qp E) (pc_qp peer)) (rt_peers rt) h;
          h = release (ibv_destroy_cq E) (rt_cq rt) h;
          h = release (ibv_dealloc_pd E) (rt_pd rt) h;
          h = release (ibv_close_device E) (rt_context rt) h
      in (kOk, rt\<lparr>rt_local_mr := None,
                  rt_peers := map (\<lambda>peer. peer\<lparr>pc_qp := None, pc_ready := False\<rparr>) (rt_peers rt),
                  rt_cq := None, rt_pd := None, rt_context := None, rt_initialized := False,
                  rt_outstanding_sends := 0, rt_local_base := 0, rt_local_length := 0\<rparr>, h))"

section \<open>Data path\<close>

text \<open>
  \<^verbatim>\<open>CopyLocal\<close>. The bounds test adds with wrap-around; a range that passes it and leaves the
  registered region, and overlapping ranges, have no defined \<^verbatim>\<open>memcpy\<close>.
\<close>

definition CopyLocal ::
    "RdmaTransport \<Rightarrow> 'd Host \<Rightarrow> u64 \<Rightarrow> u64 \<Rightarrow> u64 \<Rightarrow> bool \<Rightarrow> (Status \<times> 'd Host) option" where
  "CopyLocal rt h offset buf size' is_write =
     (if rt_local_base rt = 0 \<or> rt_local_length rt < offset + size' then Some (kOutOfRange, h)
      else
        let base = rt_local_base rt + offset in
        if unat (rt_local_length rt) < unat offset + unat size' \<or> \<not> disjoint_bytes base buf size' then None
        else if is_write then Some (kOk, h\<lparr>h_mem := copy_bytes base buf size' (h_mem h)\<rparr>)
        else Some (kOk, h\<lparr>h_mem := copy_bytes buf base size' (h_mem h)\<rparr>))"

text \<open>The flags of a work request: inline for writes up to the configured size.\<close>

definition send_flags :: "Config \<Rightarrow> ibv_wr_opcode \<Rightarrow> u64 \<Rightarrow> ibv_send_flag list" where
  "send_flags cfg opcode size' =
     (if opcode = IBV_WR_RDMA_WRITE \<and> size' \<le> cfg_rdma_max_inline_bytes cfg
      then [IBV_SEND_SIGNALED, IBV_SEND_INLINE] else [IBV_SEND_SIGNALED])"

definition PostOneSided ::
    "'d Env \<Rightarrow> RdmaTransport \<Rightarrow> 'd Host \<Rightarrow> PeerConnection \<Rightarrow> ibv_wr_opcode \<Rightarrow> u64 \<Rightarrow> u64 \<Rightarrow> u32 \<Rightarrow> u64 \<Rightarrow> u32 \<Rightarrow>
     (Status throws \<times> RdmaTransport \<times> 'd Host) option" where
  "PostOneSided E rt h peer opcode local_addr size' lkey raddr rkey =
     (let wr = \<lparr>wr_id = 0, wr_opcode = opcode, wr_send_flags = send_flags (rt_cfg rt) opcode size',
                sge_addr = local_addr, sge_length = ucast size', sge_lkey = lkey,
                wr_remote_addr = raddr, wr_rkey = rkey\<rparr>;
          (rc, h) = ibv_post_send E (the (pc_qp peer)) wr h in
      if rc \<noteq> 0 then Some (Inr kInternalError, rt, h)
      else WaitForCompletions E (rt\<lparr>rt_outstanding_sends := rt_outstanding_sends rt + 1\<rparr>) h 1)"

text \<open>\<^verbatim>\<open>Read\<close> and \<^verbatim>\<open>Write\<close> after their checks: one work request on a temporary registration.\<close>

definition one_sided ::
    "'d Env \<Rightarrow> RdmaTransport \<Rightarrow> 'd Host \<Rightarrow> PeerConnection \<Rightarrow> ibv_wr_opcode \<Rightarrow> GlobalAddr \<Rightarrow> u64 \<Rightarrow> u64 \<Rightarrow>
     (Status throws \<times> RdmaTransport \<times> 'd Host) option" where
  "one_sided E rt h peer opcode addr buf size' =
     (let (tmp_mr, h) = ibv_reg_mr E (rt_pd rt) buf size' all_access h in
      case tmp_mr of
        None \<Rightarrow> Some (Inr kInternalError, rt, h)
      | Some mr \<Rightarrow>
          do { (s, rt, h) \<leftarrow> PostOneSided E rt h peer opcode (imr_addr mr) size' (imr_lkey mr)
                 (px_remote_addr (pc_remote peer) + ga_offset addr) (px_rkey (pc_remote peer));
               case s of
                 Inl e \<Rightarrow> Some (Inl e, rt, h)
               | Inr st \<Rightarrow> Some (Inr st, rt, ibv_dereg_mr E mr h) })"

definition Rdma_Read ::
    "'d Env \<Rightarrow> RdmaTransport \<Rightarrow> 'd Host \<Rightarrow> GlobalAddr \<Rightarrow> u64 \<Rightarrow> u64 \<Rightarrow>
     (Status throws \<times> RdmaTransport \<times> 'd Host) option" where
  "Rdma_Read E rt h addr buf size' =
     (if \<not> rt_initialized rt then Some (Inr kNotInitialized, rt, h)
      else if buf = 0 \<or> size' = 0 then Some (Inr kInvalidArg, rt, h)
      else if ga_home_node addr = cfg_node_id (rt_cfg rt) then
        do { (s, h) \<leftarrow> CopyLocal rt h (ga_offset addr) buf size' False; Some (Inr s, rt, h) }
      else
        case GetPeer rt (ga_home_node addr) of
          None \<Rightarrow> Some (Inr kNotFound, rt, h)
        | Some peer \<Rightarrow>
            if \<not> pc_ready peer then Some (Inr kNotFound, rt, h)
            else if px_length (pc_remote peer) < ga_offset addr + size' then Some (Inr kOutOfRange, rt, h)
            else one_sided E rt h peer IBV_WR_RDMA_READ addr buf size')"

definition Rdma_Write ::
    "'d Env \<Rightarrow> RdmaTransport \<Rightarrow> 'd Host \<Rightarrow> GlobalAddr \<Rightarrow> u64 \<Rightarrow> u64 \<Rightarrow>
     (Status throws \<times> RdmaTransport \<times> 'd Host) option" where
  "Rdma_Write E rt h addr buf size' =
     (if \<not> rt_initialized rt then Some (Inr kNotInitialized, rt, h)
      else if buf = 0 \<or> size' = 0 then Some (Inr kInvalidArg, rt, h)
      else if ga_home_node addr = cfg_node_id (rt_cfg rt) then
        do { (s, h) \<leftarrow> CopyLocal rt h (ga_offset addr) buf size' True; Some (Inr s, rt, h) }
      else
        case GetPeer rt (ga_home_node addr) of
          None \<Rightarrow> Some (Inr kNotFound, rt, h)
        | Some peer \<Rightarrow>
            if \<not> pc_ready peer then Some (Inr kNotFound, rt, h)
            else if px_length (pc_remote peer) < ga_offset addr + size' then Some (Inr kOutOfRange, rt, h)
            else one_sided E rt h peer IBV_WR_RDMA_WRITE addr buf size')"

text \<open>
  The loop of \<^verbatim>\<open>BatchWrite\<close>: the status that ends the call early, or \<^term>\<open>None\<close> at the end
  of the requests; the registrations and the number of posted requests so far. The pointer stored
  in \<^verbatim>\<open>wr_id\<close> is the handle of the registration. Only the branch of a failed post gives the
  registrations back.
\<close>

fun batch_loop ::
    "'d Env \<Rightarrow> WriteAt list \<Rightarrow> ibv_mr list \<Rightarrow> u64 \<Rightarrow> RdmaTransport \<Rightarrow> 'd Host \<Rightarrow>
     (Status option \<times> ibv_mr list \<times> u64 \<times> RdmaTransport \<times> 'd Host) option" where
  "batch_loop E [] regs posted rt h = Some (None, regs, posted, rt, h)"
| "batch_loop E (req # requests) regs posted rt h =
     (if wa_buf req = 0 \<or> wa_size req = 0 then Some (Some kInvalidArg, regs, posted, rt, h)
      else if ga_home_node (wa_addr req) = cfg_node_id (rt_cfg rt) then
        do { (s, h) \<leftarrow> CopyLocal rt h (ga_offset (wa_addr req)) (wa_buf req) (wa_size req) True;
             if s \<noteq> kOk then Some (Some s, regs, posted, rt, h) else batch_loop E requests regs posted rt h }
      else
        case GetPeer rt (ga_home_node (wa_addr req)) of
          None \<Rightarrow> Some (Some kNotFound, regs, posted, rt, h)
        | Some peer \<Rightarrow>
            if \<not> pc_ready peer then Some (Some kNotFound, regs, posted, rt, h)
            else if px_length (pc_remote peer) < ga_offset (wa_addr req) + wa_size req
            then Some (Some kOutOfRange, regs, posted, rt, h)
            else
              let (tmp_mr, h) = ibv_reg_mr E (rt_pd rt) (wa_buf req) (wa_size req) all_access h in
              case tmp_mr of
                None \<Rightarrow> Some (Some kInternalError, regs, posted, rt, h)
              | Some mr \<Rightarrow>
                  let regs = regs @ [mr];
                      wr = \<lparr>wr_id = of_nat (imr_handle mr), wr_opcode = IBV_WR_RDMA_WRITE,
                            wr_send_flags = send_flags (rt_cfg rt) IBV_WR_RDMA_WRITE (wa_size req),
                            sge_addr = imr_addr mr, sge_length = ucast (wa_size req), sge_lkey = imr_lkey mr,
                            wr_remote_addr = px_remote_addr (pc_remote peer) + ga_offset (wa_addr req),
                            wr_rkey = px_rkey (pc_remote peer)\<rparr>;
                      (rc, h) = ibv_post_send E (the (pc_qp peer)) wr h in
                  if rc \<noteq> 0 then Some (Some kInternalError, regs, posted, rt, fold (ibv_dereg_mr E) regs h)
                  else batch_loop E requests regs (posted + 1)
                         (rt\<lparr>rt_outstanding_sends := rt_outstanding_sends rt + 1\<rparr>) h)"

definition Rdma_BatchWrite ::
    "'d Env \<Rightarrow> RdmaTransport \<Rightarrow> 'd Host \<Rightarrow> WriteAt list \<Rightarrow> (Status throws \<times> RdmaTransport \<times> 'd Host) option" where
  "Rdma_BatchWrite E rt h requests =
     (if \<not> rt_initialized rt then Some (Inr kNotInitialized, rt, h)
      else if requests = [] then Some (Inr kOk, rt, h)
      else
        do { (early, regs, posted, rt, h) \<leftarrow> batch_loop E requests [] 0 rt h;
             case early of
               Some s \<Rightarrow> Some (Inr s, rt, h)
             | None \<Rightarrow>
                 do { (s, rt, h) \<leftarrow> WaitForCompletions E rt h posted;
                      case s of
                        Inl e \<Rightarrow> Some (Inl e, rt, h)
                      | Inr st \<Rightarrow> Some (Inr st, rt, fold (ibv_dereg_mr E) regs h) } })"

definition Rdma_GetCapabilities :: "RdmaTransport \<Rightarrow> TransportCapabilities" where
  "Rdma_GetCapabilities rt = \<lparr>tc_supports_one_sided_read = True, tc_supports_one_sided_write = True,
     tc_supports_batched_write = True, tc_supports_control_path = cfg_rdma_enable_control_path (rt_cfg rt)\<rparr>"

section \<open>Bootstrap\<close>

text \<open>
  The wait for a peer's file: an exception, \<^term>\<open>False\<close> after the deadline, \<^term>\<open>True\<close> when the
  file exists.
\<close>

partial_function (option) wait_for_file ::
    "'d Env \<Rightarrow> string \<Rightarrow> int \<Rightarrow> 'd Host \<Rightarrow> (bool throws \<times> 'd Host) option" where
  "wait_for_file E path deadline h =
     (case fs_exists E path h of
        None \<Rightarrow> Some (Inl Exn_filesystem, h)
      | Some found \<Rightarrow>
          if found then Some (Inr True, h)
          else if deadline \<le> clock_now E h then Some (Inr False, h)
          else wait_for_file E path deadline (sleep_for E 50 h))"

text \<open>The name of the file one node writes for another.\<close>

definition exchange_name :: "NodeId \<Rightarrow> NodeId \<Rightarrow> string" where
  "exchange_name from_node to_node = ''node_'' @ print_word from_node @ ''_to_'' @ print_word to_node @ ''.txt''"

definition local_info :: "RdmaTransport \<Rightarrow> PeerConnection \<Rightarrow> ibv_qp \<Rightarrow> PeerExchangeInfo" where
  "local_info rt peer qp = \<lparr>px_node_id = cfg_node_id (rt_cfg rt), px_qpn = iqp_num qp, px_psn = pc_local_psn peer,
     px_lid = ipa_lid (rt_port_attr rt), px_remote_addr = rt_local_base rt,
     px_rkey = imr_rkey (the (rt_local_mr rt)), px_length = rt_local_length rt, px_has_gid = True,
     px_gid_raw = rt_gid rt\<rparr>"

text \<open>One iteration of the loop of \<^verbatim>\<open>ExchangeAndConnect\<close>, for a peer with a queue pair.\<close>

definition connect_peer ::
    "'d Env \<Rightarrow> string \<Rightarrow> RdmaTransport \<Rightarrow> PeerConnection \<Rightarrow> ibv_qp \<Rightarrow> 'd Host \<Rightarrow>
     (Status throws \<times> PeerConnection \<times> 'd Host) option" where
  "connect_peer E dir rt peer qp h =
     (let me = cfg_node_id (rt_cfg rt);
          local_path = path_append dir (exchange_name me (pc_node_id peer));
          remote_path = path_append dir (exchange_name (pc_node_id peer) me);
          (opened, h) = ofstream_open E local_path h in
      if \<not> opened then Some (Inr kInternalError, peer, h)
      else
        let h = ofstream_put E local_path (FormatExchangeInfo (local_info rt peer qp)) h;
            deadline = clock_now E h + uint (cfg_rdma_bootstrap_timeout_ms (rt_cfg rt)) in
        do { (found, h) \<leftarrow> wait_for_file E remote_path deadline h;
             case found of
               Inl e \<Rightarrow> Some (Inl e, peer, h)
             | Inr False \<Rightarrow> Some (Inr kNotFound, peer, h)
             | Inr True \<Rightarrow>
                 (case ifstream_read E remote_path h of
                    None \<Rightarrow> Some (Inr kInternalError, peer, h)
                  | Some content \<Rightarrow>
                      (case ParseExchangeInfo content True of
                         Inl e \<Rightarrow> Some (Inl (Exn_parse e), peer, h)
                       | Inr None \<Rightarrow> Some (Inr kInternalError, peer, h)
                       | Inr (Some info) \<Rightarrow>
                           let peer = peer\<lparr>pc_remote := info\<rparr>;
                               (s, h) = TransitionQueuePair E rt h peer in
                           if s \<noteq> kOk then Some (Inr s, peer, h)
                           else Some (Inr kOk, peer\<lparr>pc_ready := True\<rparr>, h))) })"

fun connect_peers ::
    "'d Env \<Rightarrow> string \<Rightarrow> nat list \<Rightarrow> RdmaTransport \<Rightarrow> 'd Host \<Rightarrow> (Status throws \<times> RdmaTransport \<times> 'd Host) option" where
  "connect_peers E dir [] rt h = Some (Inr kOk, rt, h)"
| "connect_peers E dir (i # rest) rt h =
     (let peer = rt_peers rt ! i in
      case pc_qp peer of
        None \<Rightarrow> connect_peers E dir rest rt h
      | Some qp \<Rightarrow>
          if pc_node_id peer = cfg_node_id (rt_cfg rt) then connect_peers E dir rest rt h
          else
            do { (s, peer, h) \<leftarrow> connect_peer E dir rt peer qp h;
                 let rt = rt\<lparr>rt_peers := (rt_peers rt)[i := peer]\<rparr> in
                 if s \<noteq> Inr kOk then Some (s, rt, h) else connect_peers E dir rest rt h })"

definition ExchangeAndConnect ::
    "'d Env \<Rightarrow> RdmaTransport \<Rightarrow> 'd Host \<Rightarrow> (Status throws \<times> RdmaTransport \<times> 'd Host) option" where
  "ExchangeAndConnect E rt h =
     (if rt_local_mr rt = None then Some (Inr kInvalidArg, rt, h)
      else
        case ResolveExchangeDir E (rt_cfg rt) h of
          Inl e \<Rightarrow> Some (Inl e, rt, h)
        | Inr dir \<Rightarrow>
            let (ec, h) = fs_create_directories E dir h in
            if ec then Some (Inr kInternalError, rt, h)
            else connect_peers E dir [0 ..< length (rt_peers rt)] rt h)"

text \<open>The region stored through \<^verbatim>\<open>out\<close> is the second result.\<close>

definition Rdma_RegisterMemoryRegion ::
    "'d Env \<Rightarrow> RdmaTransport \<Rightarrow> 'd Host \<Rightarrow> u64 \<Rightarrow> u64 \<Rightarrow> bool \<Rightarrow>
     (Status throws \<times> RdmaMemoryRegion option \<times> RdmaTransport \<times> 'd Host) option" where
  "Rdma_RegisterMemoryRegion E rt h addr length' out_ok =
     (if \<not> rt_initialized rt then Some (Inr kNotInitialized, None, rt, h)
      else if addr = 0 \<or> length' = 0 \<or> \<not> out_ok then Some (Inr kInvalidArg, None, rt, h)
      else
        let h = release (ibv_dereg_mr E) (rt_local_mr rt) h;
            (mr_opt, h) = ibv_reg_mr E (rt_pd rt) addr length' all_access h;
            rt = rt\<lparr>rt_local_mr := mr_opt\<rparr> in
        case mr_opt of
          None \<Rightarrow> Some (Inr kInternalError, None, rt, h)
        | Some mr \<Rightarrow>
            let rt = rt\<lparr>rt_local_base := addr, rt_local_length := length'\<rparr>;
                out = \<lparr>mr_local_addr = Some addr, mr_remote_addr = addr, mr_rkey = imr_rkey mr, mr_length = length'\<rparr>
            in do { (s, rt, h) \<leftarrow> ExchangeAndConnect E rt h; Some (s, Some out, rt, h) })"

section \<open>Control messages\<close>

definition control_dir :: "'d Env \<Rightarrow> RdmaTransport \<Rightarrow> 'd Host \<Rightarrow> string throws" where
  "control_dir E rt h = map_sum id (\<lambda>dir. path_append dir ''control'') (ResolveExchangeDir E (rt_cfg rt) h)"

definition inbox_prefix :: "NodeId \<Rightarrow> string" where
  "inbox_prefix node = ''to_'' @ print_word node @ ''_''"

definition control_name :: "NodeId \<Rightarrow> NodeId \<Rightarrow> u64 \<Rightarrow> string" where
  "control_name target source seq =
     inbox_prefix target @ ''from_'' @ print_word source @ ''_'' @ print_word seq @ ''.txt''"

definition WriteControlMessageFile ::
    "'d Env \<Rightarrow> RdmaTransport \<Rightarrow> 'd Host \<Rightarrow> ControlMessage \<Rightarrow> Status throws \<times> RdmaTransport \<times> 'd Host" where
  "WriteControlMessageFile E rt h message =
     (case control_dir E rt h of
        Inl e \<Rightarrow> (Inl e, rt, h)
      | Inr dir \<Rightarrow>
          let (ec, h) = fs_create_directories E dir h in
          if ec then (Inr kInternalError, rt, h)
          else
            let seq = rt_control_sequence rt + 1;
                rt = rt\<lparr>rt_control_sequence := seq\<rparr>;
                path = path_append dir (control_name (cmsg_target_node message) (cmsg_source_node message) seq);
                (opened, h) = ofstream_open E path h in
            if \<not> opened then (Inr kInternalError, rt, h)
            else (Inr kOk, rt, ofstream_put E path (FormatControlMessage message) h))"

definition Rdma_PostControlMessage ::
    "'d Env \<Rightarrow> RdmaTransport \<Rightarrow> 'd Host \<Rightarrow> ControlMessage \<Rightarrow> Status throws \<times> RdmaTransport \<times> 'd Host" where
  "Rdma_PostControlMessage E rt h message =
     (if \<not> cfg_rdma_enable_control_path (rt_cfg rt) then (Inr kUnimplemented, rt, h)
      else
        case GetPeer rt (cmsg_target_node message) of
          None \<Rightarrow> (Inr kNotFound, rt, h)
        | Some peer \<Rightarrow>
            if \<not> pc_ready peer then (Inr kNotFound, rt, h)
            else WriteControlMessageFile E rt h message)"

text \<open>The regular files of a scan addressed to a node, in the order of \<^verbatim>\<open>std::sort\<close> on their paths.\<close>

definition inbox_files :: "NodeId \<Rightarrow> (string \<times> bool) list \<Rightarrow> string list" where
  "inbox_files node entries =
     sort (map fst (filter (\<lambda>(name, regular). regular \<and> take (length (inbox_prefix node)) name = inbox_prefix node) entries))"

text \<open>The loop over the files: at most \<open>limit\<close> messages are taken; a file that does not parse is removed.\<close>

fun drain_files ::
    "'d Env \<Rightarrow> string \<Rightarrow> nat \<Rightarrow> string list \<Rightarrow> ControlMessage list \<Rightarrow> 'd Host \<Rightarrow>
     Status throws \<times> ControlMessage list \<times> 'd Host" where
  "drain_files E dir limit [] messages h = (Inr kOk, messages, h)"
| "drain_files E dir limit (name # names) messages h =
     (if limit \<le> length messages then (Inr kOk, messages, h)
      else
        let path = path_append dir name in
        case ifstream_read E path h of
          None \<Rightarrow> drain_files E dir limit names messages h
        | Some content \<Rightarrow>
            (case ParseControlMessage content True of
               Inl e \<Rightarrow> (Inl (Exn_parse e), messages, h)
             | Inr parsed \<Rightarrow>
                 drain_files E dir limit names
                   (case parsed of None \<Rightarrow> messages | Some msg \<Rightarrow> messages @ [msg]) (fs_remove E path h)))"

text \<open>The vector behind \<^verbatim>\<open>messages\<close> is the second result, \<^term>\<open>None\<close> while it is untouched.\<close>

definition Rdma_DrainControlMessages ::
    "'d Env \<Rightarrow> RdmaTransport \<Rightarrow> 'd Host \<Rightarrow> u64 \<Rightarrow> bool \<Rightarrow>
     Status throws \<times> ControlMessage list option \<times> 'd Host" where
  "Rdma_DrainControlMessages E rt h max_messages messages_ok =
     (if \<not> rt_initialized rt then (Inr kNotInitialized, None, h)
      else if \<not> messages_ok then (Inr kInvalidArg, None, h)
      else if \<not> cfg_rdma_enable_control_path (rt_cfg rt) then (Inr kUnimplemented, Some [], h)
      else
        case control_dir E rt h of
          Inl e \<Rightarrow> (Inl e, Some [], h)
        | Inr dir \<Rightarrow>
            let (ec, h) = fs_create_directories E dir h in
            if ec then (Inr kInternalError, Some [], h)
            else
              (case fs_scan E dir h of
                 Scan_throws \<Rightarrow> (Inl Exn_filesystem, Some [], h)
               | Scan_not_opened \<Rightarrow> (Inr kOk, Some [], h)
               | Entries entries \<Rightarrow>
                   let limit = unat (max 1 max_messages);
                       (s, messages, h) =
                         drain_files E dir limit (inbox_files (cfg_node_id (rt_cfg rt)) entries) [] h
                   in (s, Some messages, h)))"

end
