(* ===== verification/Rdma_Fabric.thy ===== *)
theory Rdma_Fabric
  imports Rdma_Transport
begin

text \<open>
  What the data path of the verbs transport relies on, stated as a predicate on the environment,
  and a small simulated environment that meets it.

  The predicate describes a reliable connection on a quiet fabric. Its vocabulary is a view of the
  host: how many posted work requests have not been reported yet, the memory behind each queue
  pair, the memories as they will be when everything in flight has been performed, and a bound on
  the number of empty polls.
\<close>

section \<open>Reliable connections\<close>

type_synonym memories = "(u64 \<Rightarrow> byte) \<times> (handle \<Rightarrow> u64 \<Rightarrow> byte)"

record 'd Fabric =
  f_inflight :: "'d Host \<Rightarrow> nat"
  f_remote :: "'d Host \<Rightarrow> handle \<Rightarrow> u64 \<Rightarrow> byte"
  f_final :: "'d Host \<Rightarrow> memories"
  f_delay :: "'d Host \<Rightarrow> nat"

text \<open>\<open>n\<close> bytes at \<open>dst\<close> replaced by the bytes at \<open>src\<close> of another memory.\<close>

definition transfer_bytes :: "u64 \<Rightarrow> u64 \<Rightarrow> u64 \<Rightarrow> (u64 \<Rightarrow> byte) \<Rightarrow> (u64 \<Rightarrow> byte) \<Rightarrow> u64 \<Rightarrow> byte" where
  "transfer_bytes dst src n from to = (\<lambda>a. if a - dst < n then from (src + (a - dst)) else to a)"

definition perform :: "handle \<Rightarrow> ibv_send_wr \<Rightarrow> memories \<Rightarrow> memories" where
  "perform q wr = (\<lambda>(mem, remote).
     case wr_opcode wr of
       IBV_WR_RDMA_READ \<Rightarrow>
         (transfer_bytes (sge_addr wr) (wr_remote_addr wr) (ucast (sge_length wr)) (remote q) mem, remote)
     | IBV_WR_RDMA_WRITE \<Rightarrow>
         (mem, remote(q := transfer_bytes (wr_remote_addr wr) (sge_addr wr) (ucast (sge_length wr)) mem (remote q))))"

definition same_flight :: "'d Fabric \<Rightarrow> 'd Host \<Rightarrow> 'd Host \<Rightarrow> bool" where
  "same_flight F h h' \<longleftrightarrow> f_inflight F h' = f_inflight F h \<and> f_final F h' = f_final F h"

text \<open>
  The documented behaviour of the calls the data path makes. Registering memory and sleeping
  change nothing that is in flight; so does releasing a registration while nothing is in flight. A
  posted request is in flight and will be performed after the ones before it; a refused one leaves
  no trace. A poll reports at most as many completions as asked for and as are in flight, and an
  all-success report means that the reported requests have been performed. While something is in
  flight only finitely many polls in a row come back empty.
\<close>

definition reliable :: "'d Env \<Rightarrow> 'd Fabric \<Rightarrow> bool" where
  "reliable E F \<longleftrightarrow>
     (\<forall>h. f_inflight F h = 0 \<longrightarrow> f_final F h = (h_mem h, f_remote F h)) \<and>
     (\<forall>pd a n acc h. let (mr, h') = ibv_reg_mr E pd a n acc h in
        same_flight F h h' \<and> (\<forall>r. mr = Some r \<longrightarrow> imr_addr r = a)) \<and>
     (\<forall>mr h. f_inflight F h = 0 \<longrightarrow> same_flight F h (ibv_dereg_mr E mr h)) \<and>
     (\<forall>h. same_flight F h (sleep_for E 1 h)) \<and>
     (\<forall>q wr h. let (rc, h') = ibv_post_send E q wr h in
        if rc = 0 then f_inflight F h' = f_inflight F h + 1 \<and> f_final F h' = perform (iqp_handle q) wr (f_final F h)
        else same_flight F h h') \<and>
     (\<forall>cq limit h. 0 < limit \<longrightarrow> (let (n, wcs, h') = ibv_poll_cq E cq limit h in
        0 \<le> n \<longrightarrow>
        n \<le> limit \<and> nat n \<le> f_inflight F h \<and> length wcs = nat n \<and> f_inflight F h' = f_inflight F h - nat n \<and>
        (list_all (\<lambda>s. s = IBV_WC_SUCCESS) wcs \<longrightarrow> f_final F h' = f_final F h) \<and>
        (n = 0 \<and> 0 < f_inflight F h \<longrightarrow> f_delay F (sleep_for E 1 h') < f_delay F h)))"

lemma reliable_idle: "reliable E F \<Longrightarrow> f_inflight F h = 0 \<Longrightarrow> f_final F h = (h_mem h, f_remote F h)"
  by (simp add: reliable_def)

lemma reliable_reg:
  assumes "reliable E F" "ibv_reg_mr E pd a n acc h = (mr, h')"
  shows "same_flight F h h'" "mr = Some r \<Longrightarrow> imr_addr r = a"
  using assms unfolding reliable_def by (metis (mono_tags, lifting) case_prod_conv)+

lemma reliable_dereg: "reliable E F \<Longrightarrow> f_inflight F h = 0 \<Longrightarrow> same_flight F h (ibv_dereg_mr E mr h)"
  by (simp add: reliable_def)

lemma reliable_sleep: "reliable E F \<Longrightarrow> same_flight F h (sleep_for E 1 h)"
  by (simp add: reliable_def)

lemma reliable_post:
  assumes "reliable E F" "ibv_post_send E q wr h = (rc, h')"
  shows "rc = 0 \<Longrightarrow> f_inflight F h' = f_inflight F h + 1 \<and> f_final F h' = perform (iqp_handle q) wr (f_final F h)"
    "rc \<noteq> 0 \<Longrightarrow> same_flight F h h'"
proof -
  have "\<forall>q wr h. let (rc, h') = ibv_post_send E q wr h in
      if rc = 0 then f_inflight F h' = f_inflight F h + 1 \<and> f_final F h' = perform (iqp_handle q) wr (f_final F h)
      else same_flight F h h'"
    using assms(1) unfolding reliable_def by blast
  from this [THEN spec, of q, THEN spec, of wr, THEN spec, of h] assms(2)
  show "rc = 0 \<Longrightarrow> f_inflight F h' = f_inflight F h + 1 \<and> f_final F h' = perform (iqp_handle q) wr (f_final F h)"
    "rc \<noteq> 0 \<Longrightarrow> same_flight F h h'" by simp_all
qed

lemma reliable_poll:
  assumes "reliable E F" "ibv_poll_cq E cq limit h = (n, wcs, h')" "0 < limit" "0 \<le> n"
  shows "n \<le> limit" "nat n \<le> f_inflight F h" "length wcs = nat n" "f_inflight F h' = f_inflight F h - nat n"
    "list_all (\<lambda>s. s = IBV_WC_SUCCESS) wcs \<Longrightarrow> f_final F h' = f_final F h"
    "n = 0 \<Longrightarrow> 0 < f_inflight F h \<Longrightarrow> f_delay F (sleep_for E 1 h') < f_delay F h"
proof -
  have "\<forall>cq limit h. 0 < limit \<longrightarrow> (let (n, wcs, h') = ibv_poll_cq E cq limit h in
      0 \<le> n \<longrightarrow>
      n \<le> limit \<and> nat n \<le> f_inflight F h \<and> length wcs = nat n \<and> f_inflight F h' = f_inflight F h - nat n \<and>
      (list_all (\<lambda>s. s = IBV_WC_SUCCESS) wcs \<longrightarrow> f_final F h' = f_final F h) \<and>
      (n = 0 \<and> 0 < f_inflight F h \<longrightarrow> f_delay F (sleep_for E 1 h') < f_delay F h))"
    using assms(1) unfolding reliable_def by blast
  from this [THEN spec, of cq, THEN spec, of limit, THEN spec, of h] assms(2,3,4)
  show "n \<le> limit" "nat n \<le> f_inflight F h" "length wcs = nat n" "f_inflight F h' = f_inflight F h - nat n"
    "list_all (\<lambda>s. s = IBV_WC_SUCCESS) wcs \<Longrightarrow> f_final F h' = f_final F h"
    "n = 0 \<Longrightarrow> 0 < f_inflight F h \<Longrightarrow> f_delay F (sleep_for E 1 h') < f_delay F h"
    by simp_all
qed

section \<open>A simulated environment\<close>

text \<open>
  A fabric with one queue of posted requests, performed in order when they are polled; the first
  \<open>sim_wait\<close> polls come back empty. A request with another key than \<open>sim_rkey\<close> completes with an
  error and without effect. Files are an association list, and sleeping advances the clock.
\<close>

record Sim =
  sim_queue :: "(handle \<times> ibv_send_wr) list"
  sim_remote :: "handle \<Rightarrow> u64 \<Rightarrow> byte"
  sim_wait :: nat
  sim_rkey :: u32
  sim_files :: "(string \<times> string) list"
  sim_time :: int

type_synonym sim_host = "Sim Host"

abbreviation on_sim :: "(Sim \<Rightarrow> Sim) \<Rightarrow> sim_host \<Rightarrow> sim_host" where
  "on_sim f h \<equiv> h\<lparr>h_outside := f (h_outside h)\<rparr>"

definition sim_perform :: "u32 \<Rightarrow> handle \<times> ibv_send_wr \<Rightarrow> memories \<Rightarrow> memories" where
  "sim_perform key qwr mems = (if wr_rkey (snd qwr) = key then perform (fst qwr) (snd qwr) mems else mems)"

definition sim_poll :: "handle option \<Rightarrow> int \<Rightarrow> sim_host \<Rightarrow> int \<times> ibv_wc_status list \<times> sim_host" where
  "sim_poll cq limit h =
     (let s = h_outside h in
      if sim_queue s = [] then (0, [], h)
      else if 0 < sim_wait s then (0, [], h\<lparr>h_outside := s\<lparr>sim_wait := sim_wait s - 1\<rparr>\<rparr>)
      else
        let taken = take (nat limit) (sim_queue s);
            (mem, remote) = fold (sim_perform (sim_rkey s)) taken (h_mem h, sim_remote s)
        in (int (length taken), map (\<lambda>(q, wr). if wr_rkey wr = sim_rkey s then IBV_WC_SUCCESS else IBV_WC_ERROR) taken,
            h\<lparr>h_mem := mem, h_outside := s\<lparr>sim_queue := drop (nat limit) (sim_queue s), sim_remote := remote\<rparr>\<rparr>))"

definition plain_name :: "string \<Rightarrow> bool" where
  "plain_name name \<longleftrightarrow> name \<noteq> [] \<and> CHR ''/'' \<notin> set name"

definition sim_scan :: "string \<Rightarrow> sim_host \<Rightarrow> dir_scan" where
  "sim_scan dir h =
     (let prefix = path_append dir [];
          paths = filter (\<lambda>path. take (length prefix) path = prefix) (map fst (sim_files (h_outside h)));
          names = filter plain_name (map (drop (length prefix)) paths)
      in Entries (map (\<lambda>name. (name, True)) (remdups names)))"

definition sim_env :: "Sim Env" where
  "sim_env = \<lparr>
     ibv_get_device_list = (\<lambda>h. (Some [''mlx5_0''], h)),
     ibv_free_device_list = (\<lambda>h. h),
     ibv_open_device = (\<lambda>i h. (Some 1, h)),
     ibv_close_device = (\<lambda>c h. h),
     ibv_query_port = (\<lambda>c port h. (0, \<lparr>ipa_lid = 7, ipa_active_mtu = 5\<rparr>)),
     ibv_query_gid = (\<lambda>c port i h. (0, replicate 16 1)),
     ibv_alloc_pd = (\<lambda>c h. (Some 2, h)),
     ibv_dealloc_pd = (\<lambda>p h. h),
     ibv_create_cq = (\<lambda>c depth h. (Some 3, h)),
     ibv_destroy_cq = (\<lambda>c h. h),
     ibv_create_qp = (\<lambda>pd attr h. (Some \<lparr>iqp_handle = 4, iqp_num = 11\<rparr>, h)),
     ibv_destroy_qp = (\<lambda>q h. h),
     ibv_modify_qp = (\<lambda>q attr mask h. (0, h)),
     ibv_reg_mr = (\<lambda>pd a n acc h. (Some \<lparr>imr_handle = 5, imr_addr = a, imr_lkey = 21, imr_rkey = 22\<rparr>, h)),
     ibv_dereg_mr = (\<lambda>mr h. h),
     ibv_post_send = (\<lambda>q wr h. (0, on_sim (\<lambda>s. s\<lparr>sim_queue := sim_queue s @ [(iqp_handle q, wr)]\<rparr>) h)),
     ibv_poll_cq = sim_poll,
     fs_create_directories = (\<lambda>dir h. (False, h)),
     fs_exists = (\<lambda>path h. Some (map_of (sim_files (h_outside h)) path \<noteq> None)),
     fs_remove = (\<lambda>path h. on_sim (\<lambda>s. s\<lparr>sim_files := AList.delete path (sim_files s)\<rparr>) h),
     fs_scan = sim_scan,
     fs_temp_directory_path = (\<lambda>h. Some ''/tmp''),
     fs_current_path = (\<lambda>h. Some ''/home''),
     ofstream_open = (\<lambda>path h. (True, on_sim (\<lambda>s. s\<lparr>sim_files := AList.update path [] (sim_files s)\<rparr>) h)),
     ofstream_put = (\<lambda>path text' h. on_sim (\<lambda>s. s\<lparr>sim_files := AList.update path text' (sim_files s)\<rparr>) h),
     ifstream_read = (\<lambda>path h. map_of (sim_files (h_outside h)) path),
     clock_now = (\<lambda>h. sim_time (h_outside h)),
     sleep_for = (\<lambda>ms h. on_sim (\<lambda>s. s\<lparr>sim_time := sim_time s + int ms\<rparr>) h)\<rparr>"

lemma sim_env_sel [simp]:
  "ibv_reg_mr sim_env = (\<lambda>pd a n acc h. (Some \<lparr>imr_handle = 5, imr_addr = a, imr_lkey = 21, imr_rkey = 22\<rparr>, h))"
  "ibv_dereg_mr sim_env = (\<lambda>mr h. h)"
  "ibv_post_send sim_env = (\<lambda>q wr h. (0, on_sim (\<lambda>s. s\<lparr>sim_queue := sim_queue s @ [(iqp_handle q, wr)]\<rparr>) h))"
  "ibv_poll_cq sim_env = sim_poll"
  "fs_create_directories sim_env = (\<lambda>dir h. (False, h))"
  "fs_exists sim_env = (\<lambda>path h. Some (map_of (sim_files (h_outside h)) path \<noteq> None))"
  "fs_remove sim_env = (\<lambda>path h. on_sim (\<lambda>s. s\<lparr>sim_files := AList.delete path (sim_files s)\<rparr>) h)"
  "fs_scan sim_env = sim_scan"
  "ofstream_open sim_env = (\<lambda>path h. (True, on_sim (\<lambda>s. s\<lparr>sim_files := AList.update path [] (sim_files s)\<rparr>) h))"
  "ofstream_put sim_env = (\<lambda>path text' h. on_sim (\<lambda>s. s\<lparr>sim_files := AList.update path text' (sim_files s)\<rparr>) h)"
  "ifstream_read sim_env = (\<lambda>path h. map_of (sim_files (h_outside h)) path)"
  "clock_now sim_env = (\<lambda>h. sim_time (h_outside h))"
  "sleep_for sim_env = (\<lambda>ms h. on_sim (\<lambda>s. s\<lparr>sim_time := sim_time s + int ms\<rparr>) h)"
  by (simp_all add: sim_env_def)

definition sim_fabric :: "Sim Fabric" where
  "sim_fabric = \<lparr>
     f_inflight = (\<lambda>h. length (sim_queue (h_outside h))),
     f_remote = (\<lambda>h. sim_remote (h_outside h)),
     f_final = (\<lambda>h. fold (\<lambda>(q, wr). perform q wr) (sim_queue (h_outside h)) (h_mem h, sim_remote (h_outside h))),
     f_delay = (\<lambda>h. sim_wait (h_outside h))\<rparr>"

lemma sim_fabric_sel [simp]:
  "f_inflight sim_fabric = (\<lambda>h. length (sim_queue (h_outside h)))"
  "f_remote sim_fabric = (\<lambda>h. sim_remote (h_outside h))"
  "f_final sim_fabric =
     (\<lambda>h. fold (\<lambda>(q, wr). perform q wr) (sim_queue (h_outside h)) (h_mem h, sim_remote (h_outside h)))"
  "f_delay sim_fabric = (\<lambda>h. sim_wait (h_outside h))"
  by (simp_all add: sim_fabric_def)

lemma sim_perform_all:
  "list_all (\<lambda>s. s = IBV_WC_SUCCESS) (map (\<lambda>(q, wr). if wr_rkey wr = key then IBV_WC_SUCCESS else IBV_WC_ERROR) xs) \<Longrightarrow>
   fold (sim_perform key) xs ms = fold (\<lambda>(q, wr). perform q wr) xs ms"
  by (induction xs arbitrary: ms) (auto simp: sim_perform_def split: if_splits)

lemma sim_poll_laws:
  assumes "sim_poll cq limit h = (n, wcs, h')" "0 < limit"
  shows "n \<le> limit \<and> nat n \<le> f_inflight sim_fabric h \<and> length wcs = nat n \<and>
    f_inflight sim_fabric h' = f_inflight sim_fabric h - nat n \<and>
    (list_all (\<lambda>s. s = IBV_WC_SUCCESS) wcs \<longrightarrow> f_final sim_fabric h' = f_final sim_fabric h) \<and>
    (n = 0 \<and> 0 < f_inflight sim_fabric h \<longrightarrow> f_delay sim_fabric (sleep_for sim_env 1 h') < f_delay sim_fabric h)"
proof -
  let ?s = "h_outside h"
  consider "sim_queue ?s = []" | "sim_queue ?s \<noteq> []" "0 < sim_wait ?s" | "sim_queue ?s \<noteq> []" "sim_wait ?s = 0" by auto
  then show ?thesis
  proof cases
    case 3
    let ?taken = "take (nat limit) (sim_queue ?s)"
    obtain mem remote where run: "fold (sim_perform (sim_rkey ?s)) ?taken (h_mem h, sim_remote ?s) = (mem, remote)" by force
    have res: "n = int (length ?taken)"
      "wcs = map (\<lambda>(q, wr). if wr_rkey wr = sim_rkey ?s then IBV_WC_SUCCESS else IBV_WC_ERROR) ?taken"
      "h' = h\<lparr>h_mem := mem, h_outside := ?s\<lparr>sim_queue := drop (nat limit) (sim_queue ?s), sim_remote := remote\<rparr>\<rparr>"
      using assms(1) 3 run by (auto simp: sim_poll_def Let_def)
    have "f_final sim_fabric h' = f_final sim_fabric h" if "list_all (\<lambda>s. s = IBV_WC_SUCCESS) wcs"
    proof -
      have "fold (\<lambda>(q, wr). perform q wr) ?taken (h_mem h, sim_remote ?s) = (mem, remote)"
        using sim_perform_all [of "sim_rkey ?s" ?taken] that run unfolding res(2) by metis
      then have "fold (\<lambda>(q, wr). perform q wr) (?taken @ drop (nat limit) (sim_queue ?s)) (h_mem h, sim_remote ?s) =
          fold (\<lambda>(q, wr). perform q wr) (drop (nat limit) (sim_queue ?s)) (mem, remote)"
        by (simp only: fold_append o_apply)
      then show ?thesis by (simp add: res(3))
    qed
    moreover have "n \<noteq> 0" using 3 assms(2) by (simp add: res(1))
    moreover have "n \<le> limit" using assms(2) unfolding res(1) by simp
    moreover have "nat n \<le> length (sim_queue ?s)" "length wcs = nat n"
      "length (sim_queue (h_outside h')) = length (sim_queue ?s) - nat n"
      using assms(2) by (simp_all add: res min_def)
    ultimately show ?thesis by simp
  qed (use assms in \<open>auto simp: sim_poll_def Let_def\<close>)
qed

lemma reliable_sim: "reliable sim_env sim_fabric"
  unfolding reliable_def
proof (intro conjI allI impI)
  fix cq limit h
  assume "0 < (limit :: int)"
  then show "let (n, wcs, h') = ibv_poll_cq sim_env cq limit h in 0 \<le> n \<longrightarrow>
      n \<le> limit \<and> nat n \<le> f_inflight sim_fabric h \<and> length wcs = nat n \<and>
      f_inflight sim_fabric h' = f_inflight sim_fabric h - nat n \<and>
      (list_all (\<lambda>s. s = IBV_WC_SUCCESS) wcs \<longrightarrow> f_final sim_fabric h' = f_final sim_fabric h) \<and>
      (n = 0 \<and> 0 < f_inflight sim_fabric h \<longrightarrow> f_delay sim_fabric (sleep_for sim_env 1 h') < f_delay sim_fabric h)"
    using sim_poll_laws [of cq limit h] by (cases "sim_poll cq limit h") (simp add: Let_def)
qed (simp_all add: same_flight_def)

end
