(* ===== verification/Rdma_Data_Path.thy ===== *)
theory Rdma_Data_Path
  imports Rdma_Fabric
begin

text \<open>
  The data path of the verbs transport over reliable connections: waiting for completions ends,
  reads and writes move exactly the bytes they name, and what goes wrong when a request fails
  half-way.
\<close>

section \<open>Waiting for completions\<close>

text \<open>The member \<^verbatim>\<open>outstanding_sends_\<close> counts what is in flight.\<close>

definition tracked :: "'d Fabric \<Rightarrow> RdmaTransport \<Rightarrow> 'd Host \<Rightarrow> bool" where
  "tracked F rt h \<longleftrightarrow> rt_initialized rt \<and> rt_outstanding_sends rt = of_nat (f_inflight F h) \<and> f_inflight F h < 2 ^ 31"

lemma int_of_size_small:
  assumes "unat n < 2 ^ 31"
  shows "int_of_size n = uint n"
proof -
  have lt: "uint n < 2 ^ 31" using assms by (metis nat_int of_nat_less_iff of_nat_numeral of_nat_power uint_nat)
  then have "uint (ucast n :: u32) = uint n" by (simp add: unsigned_ucast_eq take_bit_int_eq_self)
  moreover have "- (2 ^ 31) \<le> uint n" by (rule order_trans [OF _ uint_ge_0]) simp
  ultimately show ?thesis using lt signed_take_bit_int_eq_self [of 31 "uint n"] by (simp add: int_of_size_def sint_uint)
qed

lemma max_one: "n \<noteq> 0 \<Longrightarrow> max 1 n = (n :: u64)"
  by (simp add: max_def word_le_nat_alt unat_gt_0 Suc_leI)

lemma of_nat_minus_u64: "n \<le> k \<Longrightarrow> (of_nat k :: u64) - of_nat n = of_nat (k - n)"
  by (simp add: of_nat_diff)

lemma of_nat_le_u64: "n \<le> k \<Longrightarrow> k < 2 ^ 31 \<Longrightarrow> (of_nat n :: u64) \<le> of_nat k"
  by (simp add: word_le_nat_alt unat_of_nat)

lemma poll_cases:
  assumes E: "reliable E F" and t: "tracked F rt h" and need: "need \<noteq> 0" "unat need < 2 ^ 31"
  obtains (failed) h' where "Rdma_PollCompletions E rt h need True = (Inr kInternalError, Some 0, rt, h')"
  | (polled) n h' where
      "Rdma_PollCompletions E rt h need True =
         (Inr kOk, Some (of_nat n), rt\<lparr>rt_outstanding_sends := of_nat (f_inflight F h')\<rparr>, h')"
      "n \<le> unat need" "n \<le> f_inflight F h" "f_inflight F h' = f_inflight F h - n" "f_final F h' = f_final F h"
      "n = 0 \<longrightarrow> 0 < f_inflight F h \<longrightarrow> f_delay F (sleep_for E 1 h') < f_delay F h"
proof -
  obtain k wcs h' where poll: "ibv_poll_cq E (rt_cq rt) (uint need) h = (k, wcs, h')" by (metis prod.collapse)
  have lim: "int_of_size (max 1 need) = uint need" using need by (simp add: max_one int_of_size_small)
  have pos: "0 < uint need" using need(1) uint_ge_0 [of need] by (metis order_le_less uint_0_iff)
  show thesis
  proof (cases "k < 0 \<or> list_ex (\<lambda>s. s \<noteq> IBV_WC_SUCCESS) (take (nat k) wcs)")
    case True
    have "Rdma_PollCompletions E rt h need True = (Inr kInternalError, Some 0, rt, h')"
      using t True lim by (auto simp: Rdma_PollCompletions_def tracked_def poll Let_def)
    then show thesis by (rule failed)
  next
    case False
    then obtain n where k: "k = int n" by (metis nonneg_int_cases not_less)
    note laws = reliable_poll [OF E poll pos, unfolded k, OF of_nat_0_le_iff]
    note n = laws [unfolded nat_int]
    have ok: "list_all (\<lambda>s. s = IBV_WC_SUCCESS) wcs"
      using False n(3) by (simp add: k list_ex_iff list_all_iff)
    have le: "(of_nat n :: u64) \<le> rt_outstanding_sends rt"
      using t of_nat_le_u64 [OF n(2)] by (simp only: tracked_def)
    have left: "rt_outstanding_sends rt - of_nat n = of_nat (f_inflight F h')"
      using t of_nat_minus_u64 [OF n(2)] n(4) by (simp only: tracked_def)
    have "Rdma_PollCompletions E rt h need True =
        (Inr kOk, Some (of_nat n), rt\<lparr>rt_outstanding_sends := of_nat (f_inflight F h')\<rparr>, h')"
      using t False le left pos by (simp add: Rdma_PollCompletions_def tracked_def lim poll k)
    moreover have "n \<le> unat need" using n(1) by (metis nat_int nat_mono unat_eq_nat_uint)
    moreover have "n = 0 \<longrightarrow> 0 < f_inflight F h \<longrightarrow> f_delay F (sleep_for E 1 h') < f_delay F h"
      using n(6) by simp
    ultimately show thesis using n(2,4) n(5) [OF ok] by (intro polled)
  qed
qed

text \<open>
  The outcome of waiting for \<open>k\<close> completions: the report of a failed one, or all of them.
\<close>

definition waited :: "'d Fabric \<Rightarrow> RdmaTransport \<Rightarrow> 'd Host \<Rightarrow> nat \<Rightarrow> Status throws \<times> RdmaTransport \<times> 'd Host \<Rightarrow> bool" where
  "waited F rt h k = (\<lambda>(s, rt', h').
     (\<exists>out. rt' = rt\<lparr>rt_outstanding_sends := out\<rparr>) \<and>
     (s = Inr kInternalError \<or>
      s = Inr kOk \<and> f_inflight F h' = f_inflight F h - k \<and> f_final F h' = f_final F h \<and> tracked F rt' h'))"

lemma waited_trans:
  assumes "waited F rt' h' k res" "rt' = rt\<lparr>rt_outstanding_sends := out\<rparr>"
    "f_inflight F h' = f_inflight F h - n" "f_final F h' = f_final F h"
  shows "waited F rt h (n + k) res"
  using assms by (auto simp: waited_def)

lemma same_members: "\<exists>out. rt = rt\<lparr>rt_outstanding_sends := out\<rparr>"
  by (rule exI [of _ "rt_outstanding_sends rt"]) simp

text \<open>One round of the loop: it ends with a failed completion, or goes on nearer to its end.\<close>

lemma wait_step:
  assumes E: "reliable E F" and t: "tracked F rt h" and lt: "completed < target" "unat target < 2 ^ 31"
    and fl: "unat target - unat completed \<le> f_inflight F h"
  obtains (failed) h' where "wait_loop E target completed rt h = Some (Inr kInternalError, rt, h')"
  | (again) completed' rt' h' out n where
      "wait_loop E target completed rt h = wait_loop E target completed' rt' h'"
      "rt' = rt\<lparr>rt_outstanding_sends := out\<rparr>" "tracked F rt' h'" "unat completed' = unat completed + n"
      "n \<le> unat target - unat completed" "f_inflight F h' = f_inflight F h - n" "f_final F h' = f_final F h"
      "n = 0 \<longrightarrow> f_delay F h' < f_delay F h"
proof -
  have sub: "unat (target - completed) = unat target - unat completed" using lt(1) by (intro unat_sub) simp
  then have need: "target - completed \<noteq> 0" "unat (target - completed) < 2 ^ 31"
      "unat (target - completed) = unat target - unat completed"
    using lt by auto
  have gap: "0 < unat target - unat completed" using lt(1) by (simp add: word_less_nat_alt)
  show thesis
  proof (rule poll_cases [OF E t need(1,2)])
    fix h'
    assume "Rdma_PollCompletions E rt h (target - completed) True = (Inr kInternalError, Some 0, rt, h')"
    then have "wait_loop E target completed rt h = Some (Inr kInternalError, rt, h')"
      using lt(1) by (subst wait_loop.simps) simp
    then show thesis by (rule failed)
  next
    fix n :: nat and h'
    let ?rt = "rt\<lparr>rt_outstanding_sends := of_nat (f_inflight F h')\<rparr>"
    let ?h = "if n = 0 then sleep_for E 1 h' else h'"
    assume poll: "Rdma_PollCompletions E rt h (target - completed) True = (Inr kOk, Some (of_nat n), ?rt, h')"
      and n: "n \<le> unat (target - completed)" "n \<le> f_inflight F h" "f_inflight F h' = f_inflight F h - n"
      and fin: "f_final F h' = f_final F h"
      and less: "n = 0 \<longrightarrow> 0 < f_inflight F h \<longrightarrow> f_delay F (sleep_for E 1 h') < f_delay F h"
    have "n < 2 ^ 31" using n(1) need(2) by linarith
    then have un: "unat (of_nat n :: u64) = n" by (simp add: unat_of_nat)
    then have z: "(of_nat n :: u64) = 0 \<longleftrightarrow> n = 0" by (metis unat_0 unat_eq_0)
    have "wait_loop E target completed rt h = wait_loop E target (completed + of_nat n) ?rt ?h"
      using lt(1) poll z by (subst wait_loop.simps) auto
    moreover have fl': "f_inflight F ?h = f_inflight F h - n" "f_final F ?h = f_final F h"
      using reliable_sleep [OF E, of h'] n(3) fin by (simp_all add: same_flight_def)
    moreover have "tracked F ?rt ?h" using t fl'(1) n(3) by (auto simp: tracked_def less_imp_diff_less)
    moreover have "unat (completed + of_nat n) = unat completed + n"
      using n(1) need(3) gap unat_u64_lt [of target] un by (simp add: unat_plus_mod)
    moreover have "n = 0 \<longrightarrow> f_delay F ?h < f_delay F h" using less gap fl by simp
    ultimately show thesis using n(1) need(3) by (intro again [of _ ?rt ?h _ n]) simp_all
  qed
qed

lemma wait_loop_returns:
  assumes E: "reliable E F" and "tracked F rt h" "completed \<le> target" "unat target < 2 ^ 31"
    "unat target - unat completed \<le> f_inflight F h"
  shows "\<exists>res. wait_loop E target completed rt h = Some res \<and> waited F rt h (unat target - unat completed) res"
  using assms(2-)
proof (induction "(unat target - unat completed, f_delay F h)" arbitrary: completed rt h
    rule: wf_induct_rule [OF wf_lex_prod [OF wf_less_than wf_less_than]])
  case (1 completed h rt)
  note IH = "1.hyps" [unfolded in_lex_prod less_than_iff]
  show ?case
  proof (cases "completed < target")
    case False
    then have "completed = target" using "1.prems"(2) by simp
    moreover have "wait_loop E target target rt h = Some (Inr kOk, rt, h)" by (subst wait_loop.simps) simp
    ultimately show ?thesis using "1.prems"(1) same_members unfolding waited_def by auto
  next
    case True
    from E "1.prems"(1) True "1.prems"(3,4) show ?thesis
    proof (cases rule: wait_step)
      case (failed h')
      then show ?thesis using same_members by (auto simp: waited_def)
    next
      case (again completed' rt' h' out n)
      have le: "completed' \<le> target" using again(4,5) True by (simp add: word_le_nat_alt word_less_nat_alt)
      have "unat target - unat completed' < unat target - unat completed \<or>
          unat target - unat completed' = unat target - unat completed \<and> f_delay F h' < f_delay F h"
        using again(4,5,8) True by (cases "n = 0") (auto simp: word_less_nat_alt)
      moreover have "unat target - unat completed' \<le> f_inflight F h'" using again(4,6) "1.prems"(4) by simp
      ultimately obtain res where "wait_loop E target completed' rt' h' = Some res"
          "waited F rt' h' (unat target - unat completed') res"
        using IH [of completed' h' rt'] again(3) le "1.prems"(3) by auto
      moreover have "n + (unat target - unat completed') = unat target - unat completed" using again(4,5) by simp
      ultimately show ?thesis using again(1) waited_trans [OF _ again(2,6,7)] by metis
    qed
  qed
qed

lemma WaitForCompletions_returns:
  assumes "reliable E F" "tracked F rt h" "unat target < 2 ^ 31" "unat target \<le> f_inflight F h"
  shows "\<exists>res. WaitForCompletions E rt h target = Some res \<and> waited F rt h (unat target) res"
proof (cases "target = 0")
  case True
  then show ?thesis using assms(2) same_members by (auto simp: WaitForCompletions_def waited_def)
next
  case False
  then show ?thesis using wait_loop_returns [OF assms(1,2), of 0 target] assms(3,4) by (simp add: WaitForCompletions_def)
qed

section \<open>One request\<close>

text \<open>What a request moves between the memories when it is performed.\<close>

definition moved :: "ibv_wr_opcode \<Rightarrow> handle \<Rightarrow> u64 \<Rightarrow> u64 \<Rightarrow> u64 \<Rightarrow> memories \<Rightarrow> memories" where
  "moved opcode q buf raddr n = (\<lambda>(mem, remote).
     case opcode of
       IBV_WR_RDMA_READ \<Rightarrow> (transfer_bytes buf raddr n (remote q) mem, remote)
     | IBV_WR_RDMA_WRITE \<Rightarrow> (mem, remote(q := transfer_bytes raddr buf n mem (remote q))))"

text \<open>The length of a request has 32 bits.\<close>

lemma narrow_length: "unat (n :: u64) < 2 ^ 32 \<Longrightarrow> ucast (ucast n :: u32) = n"
  by (rule word_unat_eq_iff [THEN iffD2]) (simp add: unsigned_ucast_eq unsigned_take_bit_eq take_bit_nat_eq_self)

lemma perform_moved:
  assumes "unat n < 2 ^ 32"
  shows "perform q \<lparr>wr_id = i, wr_opcode = opcode, wr_send_flags = flags, sge_addr = buf, sge_length = ucast n,
           sge_lkey = lkey, wr_remote_addr = raddr, wr_rkey = rkey\<rparr> = moved opcode q buf raddr n"
  by (cases opcode) (simp_all add: perform_def moved_def narrow_length [OF assms])

text \<open>Nothing is in flight and nothing is counted as outstanding.\<close>

definition quiet :: "'d Fabric \<Rightarrow> RdmaTransport \<Rightarrow> 'd Host \<Rightarrow> bool" where
  "quiet F rt h \<longleftrightarrow> rt_initialized rt \<and> rt_outstanding_sends rt = 0 \<and> f_inflight F h = 0"

lemma quiet_tracked: "quiet F rt h \<longleftrightarrow> tracked F rt h \<and> f_inflight F h = 0"
  by (auto simp: quiet_def tracked_def)

lemma waited_all:
  assumes "waited F (rt\<lparr>rt_outstanding_sends := k\<rparr>) h (f_inflight F h) (Inr kOk, rt', h')" "rt_outstanding_sends rt = 0"
  shows "rt' = rt" "f_inflight F h' = 0" "f_final F h' = f_final F h"
  using assms by (auto simp: waited_def tracked_def)

lemma dereg_idle:
  assumes "reliable E F" "f_inflight F h = 0"
  shows "f_inflight F (fold (ibv_dereg_mr E) regs h) = 0 \<and>
    (h_mem (fold (ibv_dereg_mr E) regs h), f_remote F (fold (ibv_dereg_mr E) regs h)) = (h_mem h, f_remote F h)"
  using assms(2)
proof (induction regs arbitrary: h)
  case (Cons mr regs)
  have "f_inflight F (ibv_dereg_mr E mr h) = 0" "f_final F (ibv_dereg_mr E mr h) = f_final F h"
    using reliable_dereg [OF assms(1) Cons.prems, of mr] Cons.prems by (simp_all add: same_flight_def)
  with Cons reliable_idle [OF assms(1)] show ?case by simp
qed simp

text \<open>
  The outcome of a call that posts and waits: a refused or failed request, or all effects.
\<close>

definition delivered ::
    "'d Fabric \<Rightarrow> RdmaTransport \<Rightarrow> memories \<Rightarrow> (Status throws \<times> RdmaTransport \<times> 'd Host) option \<Rightarrow> bool" where
  "delivered F rt mems res \<longleftrightarrow> (\<exists>s rt' h'. res = Some (Inr s, rt', h') \<and>
     (s = kInternalError \<or> s = kOk \<and> rt' = rt \<and> quiet F rt h' \<and> (h_mem h', f_remote F h') = mems))"

lemma delivered_error: "delivered F rt mems (Some (Inr kInternalError, rt', h'))"
  by (simp add: delivered_def)

text \<open>Waiting for everything that is in flight and releasing the registrations.\<close>

definition await :: "'d Env \<Rightarrow> ibv_mr list \<Rightarrow> RdmaTransport \<Rightarrow> 'd Host \<Rightarrow> u64 \<Rightarrow> (Status throws \<times> RdmaTransport \<times> 'd Host) option" where
  "await E regs rt h k = Option.bind (WaitForCompletions E rt h k) (\<lambda>(s, rt, h).
     case s of Inl e \<Rightarrow> Some (Inl e, rt, h) | Inr st \<Rightarrow> Some (Inr st, rt, fold (ibv_dereg_mr E) regs h))"

lemma await_delivered:
  assumes E: "reliable E F" and rt: "rt_initialized rt" "rt_outstanding_sends rt = 0"
    and h: "f_inflight F h = k" "k < 2 ^ 31"
  shows "delivered F rt (f_final F h) (await E regs (rt\<lparr>rt_outstanding_sends := of_nat k\<rparr>) h (of_nat k))"
proof -
  let ?rt = "rt\<lparr>rt_outstanding_sends := of_nat k\<rparr>"
  have k: "unat (of_nat k :: u64) = k" using h(2) by (simp add: unat_of_nat)
  have "tracked F ?rt h" using rt h by (simp add: tracked_def)
  then obtain s rt' h' where wait: "WaitForCompletions E ?rt h (of_nat k) = Some (s, rt', h')"
      "waited F ?rt h k (s, rt', h')"
    using WaitForCompletions_returns [OF E, of ?rt h "of_nat k"] h k by auto
  from wait(2) consider "s = Inr kInternalError" | "s = Inr kOk" by (auto simp: waited_def)
  then show ?thesis
  proof cases
    case 1
    then show ?thesis by (simp add: await_def wait(1) delivered_error)
  next
    case 2
    note end_state = waited_all [OF wait(2) [folded h(1), unfolded 2] rt(2)]
    have "await E regs ?rt h (of_nat k) = Some (Inr kOk, rt, fold (ibv_dereg_mr E) regs h')"
      using 2 end_state(1) by (simp add: await_def wait(1))
    then show ?thesis
      using dereg_idle [OF E end_state(2), of regs] reliable_idle [OF E end_state(2)] end_state(3) rt
      by (simp add: delivered_def quiet_def)
  qed
qed

lemma one_sided_delivered:
  assumes E: "reliable E F" and q: "quiet F rt h" and qp: "pc_qp peer = Some qp" and n: "unat n < 2 ^ 32"
  shows "delivered F rt (moved opcode (iqp_handle qp) buf (px_remote_addr (pc_remote peer) + ga_offset addr) n
           (h_mem h, f_remote F h)) (one_sided E rt h peer opcode addr buf n)"
proof -
  obtain mr h1 where reg: "ibv_reg_mr E (rt_pd rt) buf n all_access h = (mr, h1)" by force
  note laws = reliable_reg [OF E reg]
  show ?thesis
  proof (cases mr)
    case None
    then show ?thesis by (simp add: one_sided_def reg delivered_error)
  next
    case (Some r)
    let ?raddr = "px_remote_addr (pc_remote peer) + ga_offset addr"
    let ?wr = "\<lparr>wr_id = 0, wr_opcode = opcode, wr_send_flags = send_flags (rt_cfg rt) opcode n, sge_addr = buf,
        sge_length = ucast n, sge_lkey = imr_lkey r, wr_remote_addr = ?raddr, wr_rkey = px_rkey (pc_remote peer)\<rparr>"
    obtain rc h2 where post: "ibv_post_send E qp ?wr h1 = (rc, h2)" by force
    have start: "f_inflight F h1 = 0" "f_final F h1 = (h_mem h, f_remote F h)"
      using laws(1) q reliable_idle [OF E, of h] by (simp_all add: same_flight_def quiet_def)
    have run: "one_sided E rt h peer opcode addr buf n =
        (if rc \<noteq> 0 then Some (Inr kInternalError, rt, ibv_dereg_mr E r h2)
         else await E [r] (rt\<lparr>rt_outstanding_sends := of_nat 1\<rparr>) h2 (of_nat 1))"
      using q laws(2) [OF Some] 
      by (simp add: one_sided_def PostOneSided_def reg Some qp post quiet_def await_def cong: sum.case_cong)
    show ?thesis
    proof (cases "rc = 0")
      case True
      have h2: "f_inflight F h2 = 1" "f_final F h2 = moved opcode (iqp_handle qp) buf ?raddr n (h_mem h, f_remote F h)"
        using reliable_post(1) [OF E post True] start by (simp_all add: perform_moved [OF n])
      then show ?thesis using await_delivered [OF E _ _ h2(1), of rt "[r]"] q True by (simp add: run quiet_def)
    qed (simp add: run delivered_error)
  qed
qed

section \<open>Reads, writes and batches\<close>

text \<open>A range in the registered region of a connected peer.\<close>

definition reaches :: "RdmaTransport \<Rightarrow> PeerConnection \<Rightarrow> ibv_qp \<Rightarrow> GlobalAddr \<Rightarrow> u64 \<Rightarrow> bool" where
  "reaches rt peer qp addr n \<longleftrightarrow>
     ga_home_node addr \<noteq> cfg_node_id (rt_cfg rt) \<and> GetPeer rt (ga_home_node addr) = Some peer \<and> pc_ready peer \<and>
     pc_qp peer = Some qp \<and> n \<noteq> 0 \<and> unat n < 2 ^ 32 \<and> no_wrap (ga_offset addr) n \<and>
     ga_offset addr + n \<le> px_length (pc_remote peer)"

definition target_addr :: "PeerConnection \<Rightarrow> GlobalAddr \<Rightarrow> u64" where
  "target_addr peer addr = px_remote_addr (pc_remote peer) + ga_offset addr"

lemma Rdma_Read_delivered:
  assumes "reliable E F" "quiet F rt h" "reaches rt peer qp addr n" "buf \<noteq> 0"
  shows "delivered F rt (moved IBV_WR_RDMA_READ (iqp_handle qp) buf (target_addr peer addr) n (h_mem h, f_remote F h))
    (Rdma_Read E rt h addr buf n)"
  using one_sided_delivered [OF assms(1,2), of peer qp n IBV_WR_RDMA_READ buf addr] assms(2-)
  by (auto simp: Rdma_Read_def reaches_def quiet_def target_addr_def)

lemma Rdma_Write_delivered:
  assumes "reliable E F" "quiet F rt h" "reaches rt peer qp addr n" "buf \<noteq> 0"
  shows "delivered F rt (moved IBV_WR_RDMA_WRITE (iqp_handle qp) buf (target_addr peer addr) n (h_mem h, f_remote F h))
    (Rdma_Write E rt h addr buf n)"
  using one_sided_delivered [OF assms(1,2), of peer qp n IBV_WR_RDMA_WRITE buf addr] assms(2-)
  by (auto simp: Rdma_Write_def reaches_def quiet_def target_addr_def)

text \<open>What one request of a batch does.\<close>

definition apply_request :: "RdmaTransport \<Rightarrow> WriteAt \<Rightarrow> memories \<Rightarrow> memories" where
  "apply_request rt req mems =
     (case GetPeer rt (ga_home_node (wa_addr req)) of
        None \<Rightarrow> mems
      | Some peer \<Rightarrow> moved IBV_WR_RDMA_WRITE (iqp_handle (the (pc_qp peer))) (wa_buf req)
          (target_addr peer (wa_addr req)) (wa_size req) mems)"

definition remote_request :: "RdmaTransport \<Rightarrow> WriteAt \<Rightarrow> bool" where
  "remote_request rt req \<longleftrightarrow> wa_buf req \<noteq> 0 \<and> (\<exists>peer qp. reaches rt peer qp (wa_addr req) (wa_size req))"

lemma outstanding_irrelevant [simp]:
  "GetPeer (rt\<lparr>rt_outstanding_sends := k\<rparr>) node = GetPeer rt node"
  "apply_request (rt\<lparr>rt_outstanding_sends := k\<rparr>) = apply_request rt"
  "remote_request (rt\<lparr>rt_outstanding_sends := k\<rparr>) = remote_request rt"
  by (simp_all add: GetPeer_def apply_request_def fun_eq_iff remote_request_def reaches_def)

text \<open>Posting the requests of a batch.\<close>

lemma batch_loop_posts:
  assumes E: "reliable E F" and "list_all (remote_request rt) reqs"
  shows "(\<exists>regs' posted' rt' h'. batch_loop E reqs regs posted rt h = Some (Some kInternalError, regs', posted', rt', h')) \<or>
    (\<exists>regs' h'. batch_loop E reqs regs posted rt h =
        Some (None, regs', posted + of_nat (length reqs),
          rt\<lparr>rt_outstanding_sends := rt_outstanding_sends rt + of_nat (length reqs)\<rparr>, h') \<and>
      f_inflight F h' = f_inflight F h + length reqs \<and> f_final F h' = fold (apply_request rt) reqs (f_final F h))"
  using assms(2)
proof (induction reqs arbitrary: regs posted rt h)
  case (Cons req reqs)
  then obtain peer qp where req: "wa_buf req \<noteq> 0" "reaches rt peer qp (wa_addr req) (wa_size req)"
    by (auto simp: remote_request_def)
  obtain mr h1 where reg: "ibv_reg_mr E (rt_pd rt) (wa_buf req) (wa_size req) all_access h = (mr, h1)" by force
  have front: "\<not> px_length (pc_remote peer) < ga_offset (wa_addr req) + wa_size req" "unat (wa_size req) < 2 ^ 32"
      "wa_size req \<noteq> 0" "ga_home_node (wa_addr req) \<noteq> cfg_node_id (rt_cfg rt)" "pc_ready peer" "pc_qp peer = Some qp"
      "GetPeer rt (ga_home_node (wa_addr req)) = Some peer"
    using req(2) by (auto simp: reaches_def not_less)
  show ?case
  proof (cases mr)
    case None
    then show ?thesis using req(1) front by (simp add: reg)
  next
    case (Some r)
    let ?wr = "\<lparr>wr_id = of_nat (imr_handle r), wr_opcode = IBV_WR_RDMA_WRITE,
        wr_send_flags = send_flags (rt_cfg rt) IBV_WR_RDMA_WRITE (wa_size req), sge_addr = imr_addr r,
        sge_length = ucast (wa_size req), sge_lkey = imr_lkey r,
        wr_remote_addr = px_remote_addr (pc_remote peer) + ga_offset (wa_addr req), wr_rkey = px_rkey (pc_remote peer)\<rparr>"
    let ?rt = "rt\<lparr>rt_outstanding_sends := rt_outstanding_sends rt + 1\<rparr>"
    obtain rc h2 where post: "ibv_post_send E qp ?wr h1 = (rc, h2)" by force
    have run: "batch_loop E (req # reqs) regs posted rt h =
        (if rc \<noteq> 0 then Some (Some kInternalError, regs @ [r], posted, rt, fold (ibv_dereg_mr E) (regs @ [r]) h2)
         else batch_loop E reqs (regs @ [r]) (posted + 1) ?rt h2)"
      using req(1) front by (simp add: reg Some post)
    show ?thesis
    proof (cases "rc = 0")
      case True
      have "f_inflight F h2 = f_inflight F h + 1" "f_final F h2 = apply_request rt req (f_final F h)"
        using reliable_post(1) [OF E post True] reliable_reg [OF E reg] front Some
        by (simp_all add: perform_moved same_flight_def apply_request_def target_addr_def)
      with Cons.IH [of ?rt "regs @ [r]" "posted + 1" h2] Cons.prems True show ?thesis
        by (simp only: run) (simp add: add.assoc)
    qed (simp only: run, simp)
  qed
qed simp

text \<open>A request that the transport refuses before it posts anything, and the status it reports.\<close>

definition refused :: "RdmaTransport \<Rightarrow> WriteAt \<Rightarrow> Status \<Rightarrow> bool" where
  "refused rt req s \<longleftrightarrow>
     (if wa_buf req = 0 \<or> wa_size req = 0 then s = kInvalidArg
      else ga_home_node (wa_addr req) \<noteq> cfg_node_id (rt_cfg rt) \<and>
        (case GetPeer rt (ga_home_node (wa_addr req)) of
           None \<Rightarrow> s = kNotFound
         | Some peer \<Rightarrow>
             if \<not> pc_ready peer then s = kNotFound
             else s = kOutOfRange \<and> px_length (pc_remote peer) < ga_offset (wa_addr req) + wa_size req))"

lemma batch_loop_refused:
  "refused rt req s \<Longrightarrow> batch_loop E (req # reqs) regs posted rt h = Some (Some s, regs, posted, rt, h)"
  by (auto simp: refused_def split: if_splits option.splits)

lemma refused_outstanding [simp]: "refused (rt\<lparr>rt_outstanding_sends := k\<rparr>) = refused rt"
  by (intro ext) (simp add: refused_def)

lemma batch_loop_append:
  "batch_loop E (xs @ ys) regs posted rt h =
     Option.bind (batch_loop E xs regs posted rt h) (\<lambda>(early, regs, posted, rt, h).
       case early of Some s \<Rightarrow> Some (Some s, regs, posted, rt, h) | None \<Rightarrow> batch_loop E ys regs posted rt h)"
proof (induction xs arbitrary: regs posted rt h)
  case (Cons req xs)
  obtain r where "CopyLocal rt h (ga_offset (wa_addr req)) (wa_buf req) (wa_size req) True = r" by blast
  with Cons.IH show ?case by (cases r) (simp_all add: Let_def split_beta split: option.split)
qed simp

lemma post_among_others:
  assumes E: "reliable E F" and t: "tracked F rt h" and n: "f_inflight F h + 1 < 2 ^ 31"
  shows "\<exists>s rt' h'. PostOneSided E rt h peer opcode buf n lkey raddr rkey = Some (Inr s, rt', h') \<and>
    (s = kInternalError \<or> s = kOk \<and> f_inflight F h' = f_inflight F h)"
proof -
  let ?wr = "\<lparr>wr_id = 0, wr_opcode = opcode, wr_send_flags = send_flags (rt_cfg rt) opcode n,
      sge_addr = buf, sge_length = ucast n, sge_lkey = lkey, wr_remote_addr = raddr, wr_rkey = rkey\<rparr>"
  let ?rt = "rt\<lparr>rt_outstanding_sends := rt_outstanding_sends rt + 1\<rparr>"
  obtain rc h1 where post: "ibv_post_send E (the (pc_qp peer)) ?wr h = (rc, h1)" by force
  show ?thesis
  proof (cases "rc = 0")
    case True
    have h1: "f_inflight F h1 = f_inflight F h + 1" using reliable_post(1) [OF E post True] by simp
    then have "tracked F ?rt h1" using t n by (simp add: tracked_def)
    from WaitForCompletions_returns [OF E this, of 1] h1 obtain s rt' h' where
      "WaitForCompletions E ?rt h1 1 = Some (s, rt', h')" "waited F ?rt h1 1 (s, rt', h')" by auto
    then show ?thesis using h1 True by (auto simp: PostOneSided_def post waited_def)
  qed (simp add: PostOneSided_def post)
qed

section \<open>Properties\<close>

text \<open>
  C12: a batch of remote writes over reliable connections takes effect in order. At the start
  nothing is in flight or counted as outstanding. Every request has a buffer and names a non-empty range of less
  than \<open>2\<^sup>32\<close> bytes in the region of a connected peer, and there are fewer than \<open>2\<^sup>31\<close> of them. The call returns; unless the device refuses or
  fails a request, which is reported as an internal error, the status is kOk, the local memory is as
  before, the memory behind every queue pair is the old one with the writes of the batch applied one
  after the other, and nothing is left in flight or counted as outstanding.
\<close>

theorem rdma_BatchWrite_exact:
  assumes "reliable E F" "quiet F rt h" "list_all (remote_request rt) reqs" "length reqs < 2 ^ 31"
  shows "\<exists>s rt' h'. Rdma_BatchWrite E rt h reqs = Some (Inr s, rt', h') \<and>
    (s = kInternalError \<or>
     s = kOk \<and> rt' = rt \<and> quiet F rt h' \<and>
     (h_mem h', f_remote F h') = fold (apply_request rt) reqs (h_mem h, f_remote F h))"
proof (cases "reqs = []")
  case True
  then show ?thesis using assms(2) by (simp add: Rdma_BatchWrite_def quiet_def)
next
  case False
  have q: "rt_initialized rt" "rt_outstanding_sends rt = 0" "f_inflight F h = 0" using assms(2) by (simp_all add: quiet_def)
  from batch_loop_posts [OF assms(1,3), of "[]" 0 h] show ?thesis
  proof (elim disjE exE conjE)
    fix regs' posted' rt' h'
    assume "batch_loop E reqs [] 0 rt h = Some (Some kInternalError, regs', posted', rt', h')"
    then show ?thesis using q False by (simp add: Rdma_BatchWrite_def)
  next
    fix regs h'
    assume run: "batch_loop E reqs [] 0 rt h = Some (None, regs, 0 + of_nat (length reqs),
        rt\<lparr>rt_outstanding_sends := rt_outstanding_sends rt + of_nat (length reqs)\<rparr>, h')"
      and h': "f_inflight F h' = f_inflight F h + length reqs" "f_final F h' = fold (apply_request rt) reqs (f_final F h)"
    have "Rdma_BatchWrite E rt h reqs =
        await E regs (rt\<lparr>rt_outstanding_sends := of_nat (length reqs)\<rparr>) h' (of_nat (length reqs))"
      using q False run by (simp add: Rdma_BatchWrite_def await_def)
    moreover have "delivered F rt (f_final F h')
        (await E regs (rt\<lparr>rt_outstanding_sends := of_nat (length reqs)\<rparr>) h' (of_nat (length reqs)))"
      using h'(1) q assms(4) by (intro await_delivered [OF assms(1)]) simp_all
    ultimately show ?thesis using h'(2) reliable_idle [OF assms(1) q(3)] by (simp add: delivered_def)
  qed
qed

text \<open>The simulated node 0 with its one peer, and the two hosts the runs below start on.\<close>

definition sim_peer :: PeerConnection where
  "sim_peer = new_PeerConnection\<lparr>pc_node_id := 1, pc_qp := Some \<lparr>iqp_handle = 4, iqp_num = 11\<rparr>,
     pc_remote := new_PeerExchangeInfo\<lparr>px_node_id := 1, px_qpn := 12, px_remote_addr := 4096, px_rkey := 9, px_length := 64\<rparr>,
     pc_ready := True\<rparr>"

definition sim_rt :: RdmaTransport where
  "sim_rt = (CreateRdmaTransport (default_config\<lparr>cfg_nr_nodes := 2\<rparr>))
     \<lparr>rt_initialized := True, rt_peers := [new_PeerConnection\<lparr>pc_node_id := 0\<rparr>, sim_peer]\<rparr>"

definition sim_start :: "u32 \<Rightarrow> sim_host" where
  "sim_start key = \<lparr>h_mem = (\<lambda>a. if a = 100 then 7 else 0),
     h_outside = \<lparr>sim_queue = [], sim_remote = (\<lambda>q a. 5), sim_wait = 0, sim_rkey = key, sim_files = [], sim_time = 0\<rparr>\<rparr>"

abbreviation sim_addr :: "u64 \<Rightarrow> GlobalAddr" where
  "sim_addr off \<equiv> \<lparr>ga_home_node = 1, ga_region_id = 0, ga_offset = off\<rparr>"

lemmas rdma_eval = Rdma_Write_def Rdma_Read_def Rdma_BatchWrite_def Rdma_Fence_def one_sided_def PostOneSided_def
  WaitForCompletions_def wait_loop.simps Rdma_PollCompletions_def sim_poll_def sim_perform_def perform_def
  CreateRdmaTransport_def GetPeer_def int_of_size_def new_PeerConnection_def new_PeerExchangeInfo_def
  sim_rt_def sim_peer_def sim_start_def default_config_def Let_def

lemma sim_quiet: "quiet sim_fabric sim_rt (sim_start key)"
  by (simp add: quiet_def sim_rt_def sim_start_def CreateRdmaTransport_def)

lemma sim_reaches:
  "n \<noteq> 0 \<Longrightarrow> unat off + unat n \<le> 64 \<Longrightarrow> reaches sim_rt sim_peer \<lparr>iqp_handle = 4, iqp_num = 11\<rparr> (sim_addr off) n"
proof -
  assume n: "n \<noteq> 0" "unat off + unat n \<le> 64"
  then have "no_wrap off n" by (simp add: no_wrap_def)
  moreover have "off + n \<le> 64" using n(2) unat_plus_no_wrap [OF \<open>no_wrap off n\<close>] by (simp add: word_le_nat_alt)
  ultimately show ?thesis using n
    by (simp add: reaches_def sim_rt_def sim_peer_def CreateRdmaTransport_def GetPeer_def default_config_def)
qed

theorem rdma_BatchWrite_exact_witness:
  "\<exists>rt' h'. Rdma_BatchWrite sim_env sim_rt (sim_start 9)
       [\<lparr>wa_addr = sim_addr 0, wa_buf = 100, wa_size = 4\<rparr>, \<lparr>wa_addr = sim_addr 2, wa_buf = 99, wa_size = 2\<rparr>] =
       Some (Inr kOk, rt', h') \<and>
     map (f_remote sim_fabric h' 4) [4096, 4097, 4098, 4099, 4100] = [7, 0, 0, 7, 5]"
proof -
  let ?reqs = "[\<lparr>wa_addr = sim_addr 0, wa_buf = 100, wa_size = 4\<rparr>, \<lparr>wa_addr = sim_addr 2, wa_buf = 99, wa_size = 2\<rparr>]"
  have "\<exists>rt' h'. Rdma_BatchWrite sim_env sim_rt (sim_start 9) ?reqs = Some (Inr kOk, rt', h')"
    by (simp add: rdma_eval)
  then obtain rt' h' where run: "Rdma_BatchWrite sim_env sim_rt (sim_start 9) ?reqs = Some (Inr kOk, rt', h')" by blast
  have "list_all (remote_request sim_rt) ?reqs"
    using sim_reaches [of 4 0] sim_reaches [of 2 2] by (auto simp: remote_request_def)
  from rdma_BatchWrite_exact [OF reliable_sim sim_quiet [of 9] this] run
  have "f_remote sim_fabric h' = snd (fold (apply_request sim_rt) ?reqs (h_mem (sim_start 9), f_remote sim_fabric (sim_start 9)))"
    by (simp del: fold_simps) (metis snd_conv)
  then have "map (f_remote sim_fabric h' 4) [4096, 4097, 4098, 4099, 4100] = [7, 0, 0, 7, 5]"
    by (simp add: apply_request_def moved_def transfer_bytes_def target_addr_def rdma_eval)
  with run show ?thesis by (intro exI conjI)
qed

text \<open>
  C13: what a node writes to a peer it reads back. Over reliable connections and with nothing in
  flight or counted as outstanding, a write to a range of less than \<open>2\<^sup>32\<close> bytes of a connected peer returns,
  and unless it reports an internal error, a read of the same range returns as well and, unless it
  reports one, leaves the written bytes in its buffer and every other byte of the local memory as it was.
\<close>

theorem rdma_write_read:
  assumes "reliable E F" "quiet F rt h" "reaches rt peer qp addr n" "buf \<noteq> 0" "buf' \<noteq> 0"
  shows "\<exists>s rt1 h1. Rdma_Write E rt h addr buf n = Some (Inr s, rt1, h1) \<and>
    (s = kInternalError \<or>
     s = kOk \<and>
     (\<exists>s' rt2 h2. Rdma_Read E rt1 h1 addr buf' n = Some (Inr s', rt2, h2) \<and>
       (s' = kInternalError \<or>
        s' = kOk \<and> rt2 = rt \<and>
        (\<forall>a. h_mem h2 a = (if a - buf' < n then h_mem h (buf + (a - buf')) else h_mem h a)))))"
proof -
  obtain s rt1 h1 where w: "Rdma_Write E rt h addr buf n = Some (Inr s, rt1, h1)"
      "s = kInternalError \<or> s = kOk \<and> rt1 = rt \<and> quiet F rt h1 \<and> (h_mem h1, f_remote F h1) =
        moved IBV_WR_RDMA_WRITE (iqp_handle qp) buf (target_addr peer addr) n (h_mem h, f_remote F h)"
    using Rdma_Write_delivered [OF assms(1-4)] unfolding delivered_def by blast
  show ?thesis
  proof (cases "s = kInternalError")
    case True
    then show ?thesis using w(1) by blast
  next
    case False
    with w(2) have ok: "s = kOk" "rt1 = rt" "quiet F rt h1" and m1: "h_mem h1 = h_mem h"
        "f_remote F h1 (iqp_handle qp) = transfer_bytes (target_addr peer addr) buf n (h_mem h) (f_remote F h (iqp_handle qp))"
      by (auto simp: moved_def)
    obtain s' rt2 h2 where r: "Rdma_Read E rt h1 addr buf' n = Some (Inr s', rt2, h2)"
        "s' = kInternalError \<or> s' = kOk \<and> rt2 = rt \<and> quiet F rt h2 \<and> (h_mem h2, f_remote F h2) =
          moved IBV_WR_RDMA_READ (iqp_handle qp) buf' (target_addr peer addr) n (h_mem h1, f_remote F h1)"
      using Rdma_Read_delivered [OF assms(1) ok(3) assms(3,5)] unfolding delivered_def by blast
    then have "s' = kInternalError \<or> s' = kOk \<and> rt2 = rt \<and>
        (\<forall>a. h_mem h2 a = (if a - buf' < n then h_mem h (buf + (a - buf')) else h_mem h a))"
      by (auto simp: moved_def m1 transfer_bytes_def)
    then show ?thesis using w(1) ok(1,2) r(1) by blast
  qed
qed

theorem rdma_write_read_witness:
  "\<exists>rt1 h1 rt2 h2. Rdma_Write sim_env sim_rt (sim_start 9) (sim_addr 8) 100 4 = Some (Inr kOk, rt1, h1) \<and>
     Rdma_Read sim_env rt1 h1 (sim_addr 8) 200 4 = Some (Inr kOk, rt2, h2) \<and> rt2 = sim_rt \<and>
     h_mem h2 200 = 7 \<and> h_mem h2 203 = 0"
proof -
  have "\<exists>rt1 h1 rt2 h2. Rdma_Write sim_env sim_rt (sim_start 9) (sim_addr 8) 100 4 = Some (Inr kOk, rt1, h1) \<and>
      Rdma_Read sim_env rt1 h1 (sim_addr 8) 200 4 = Some (Inr kOk, rt2, h2)"
    by (simp add: rdma_eval)
  then obtain rt1 h1 rt2 h2 where run:
      "Rdma_Write sim_env sim_rt (sim_start 9) (sim_addr 8) 100 4 = Some (Inr kOk, rt1, h1)"
      "Rdma_Read sim_env rt1 h1 (sim_addr 8) 200 4 = Some (Inr kOk, rt2, h2)" by blast
  have "reaches sim_rt sim_peer \<lparr>iqp_handle = 4, iqp_num = 11\<rparr> (sim_addr 8) 4" by (rule sim_reaches) simp_all
  from rdma_write_read [OF reliable_sim sim_quiet [of 9] this, of 100 200] run
  have "rt2 = sim_rt" "\<forall>a. h_mem h2 a = (if a - 200 < 4 then h_mem (sim_start 9) (100 + (a - 200)) else h_mem (sim_start 9) a)"
    by simp_all
  then show ?thesis using run by (auto simp: sim_start_def)
qed

section \<open>Requests that fail half-way\<close>

text \<open>
  C35: a batch that stops early leaves its requests in flight, and the next call does not wait for
  them. Over reliable connections, with nothing in flight at the start, a batch whose requests up
  to some point, fewer than \<open>2\<^sup>31 - 1\<close>, are remote writes to connected peers and whose next request is refused (no buffer,
  unknown peer, out of range) returns that status, unless the device refuses or fails a request
  before; all requests before the refused one are then still in flight, and counted as outstanding,
  with their effects yet to come. A request posted next waits for a single completion: when it
  reports kOk, as many requests are in flight as before it, so the completion it took need not be
  its own.
\<close>

theorem batch_error_leaves_requests:
  assumes "reliable E F" "quiet F rt h" "list_all (remote_request rt) front" "length front + 1 < 2 ^ 31" "refused rt bad st"
  shows "\<exists>s rt' h'. Rdma_BatchWrite E rt h (front @ bad # rest) = Some (Inr s, rt', h') \<and>
    (s = kInternalError \<or>
     s = st \<and> rt' = rt\<lparr>rt_outstanding_sends := of_nat (length front)\<rparr> \<and> f_inflight F h' = length front \<and>
     f_final F h' = fold (apply_request rt) front (h_mem h, f_remote F h) \<and>
     (\<forall>peer opcode buf n lkey raddr rkey. \<exists>s' rt2 h2.
        PostOneSided E rt' h' peer opcode buf n lkey raddr rkey = Some (Inr s', rt2, h2) \<and>
        (s' = kInternalError \<or> s' = kOk \<and> f_inflight F h2 = length front)))"
proof -
  have q: "rt_initialized rt" "rt_outstanding_sends rt = 0" "f_inflight F h = 0" using assms(2) by (simp_all add: quiet_def)
  from batch_loop_posts [OF assms(1,3), of "[]" 0 h] show ?thesis
  proof (elim disjE exE conjE)
    fix regs' posted' rt' h'
    assume "batch_loop E front [] 0 rt h = Some (Some kInternalError, regs', posted', rt', h')"
    then show ?thesis using q by (simp add: Rdma_BatchWrite_def batch_loop_append)
  next
    fix regs h'
    let ?rt = "rt\<lparr>rt_outstanding_sends := of_nat (length front)\<rparr>"
    assume "batch_loop E front [] 0 rt h = Some (None, regs, 0 + of_nat (length front),
        rt\<lparr>rt_outstanding_sends := rt_outstanding_sends rt + of_nat (length front)\<rparr>, h')"
      and h': "f_inflight F h' = f_inflight F h + length front" "f_final F h' = fold (apply_request rt) front (f_final F h)"
    then have "Rdma_BatchWrite E rt h (front @ bad # rest) = Some (Inr st, ?rt, h')"
      using q assms(5) by (simp add: Rdma_BatchWrite_def batch_loop_append batch_loop_refused del: batch_loop.simps(2))
    moreover have "tracked F ?rt h'" "f_inflight F h' = length front"
      using q h'(1) assms(4) by (simp_all add: tracked_def)
    ultimately show ?thesis
      using post_among_others [OF assms(1), of ?rt h'] h'(2) reliable_idle [OF assms(1) q(3)] assms(4) by simp
  qed
qed

theorem batch_error_leaves_requests_witness:
  "\<exists>rt' h'. Rdma_BatchWrite sim_env sim_rt (sim_start 9)
       ([\<lparr>wa_addr = sim_addr 0, wa_buf = 100, wa_size = 1\<rparr>] @ [\<lparr>wa_addr = sim_addr 60, wa_buf = 100, wa_size = 8\<rparr>]) =
       Some (Inr kOutOfRange, rt', h') \<and> f_inflight sim_fabric h' = 1"
proof -
  let ?ok = "\<lparr>wa_addr = sim_addr 0, wa_buf = 100, wa_size = 1\<rparr>"
  let ?bad = "\<lparr>wa_addr = sim_addr 60, wa_buf = 100, wa_size = 8\<rparr>"
  have "fst (the (Rdma_BatchWrite sim_env sim_rt (sim_start 9) ([?ok] @ [?bad]))) = Inr kOutOfRange"
    by (simp add: rdma_eval)
  moreover have "refused sim_rt ?bad kOutOfRange" by (simp add: refused_def rdma_eval)
  moreover have "list_all (remote_request sim_rt) [?ok]"
    using sim_reaches [of 1 0] by (auto simp: remote_request_def)
  ultimately show ?thesis
    using batch_error_leaves_requests [OF reliable_sim sim_quiet [of 9], of "[?ok]" ?bad kOutOfRange "[]"] by auto
qed

text \<open>
  What the caller of \<^verbatim>\<open>Read\<close> sees: on the simulated fabric the read takes the completion of the
  left-over write for its own and returns kOk with the old byte in its buffer.
\<close>

lemma early_error_stale_read:
  "\<exists>rt1 h1 rt2 h2.
     Rdma_BatchWrite sim_env sim_rt (sim_start 9)
       [\<lparr>wa_addr = sim_addr 0, wa_buf = 100, wa_size = 1\<rparr>, \<lparr>wa_addr = sim_addr 60, wa_buf = 100, wa_size = 8\<rparr>] =
       Some (Inr kOutOfRange, rt1, h1) \<and>
     Rdma_Read sim_env rt1 h1 (sim_addr 32) 200 1 = Some (Inr kOk, rt2, h2) \<and>
     h_mem h2 200 = 0 \<and> f_remote sim_fabric h1 4 (4096 + 32) = 5 \<and> f_inflight sim_fabric h2 = 1"
  by (simp add: rdma_eval)



end
