(* ===== verification/Rdma_Bootstrap.thy ===== *)
theory Rdma_Bootstrap
  imports Rdma_Fabric
begin

text \<open>
  The file traffic of the verbs transport: the exchange of connection data, which ends because
  time passes, and the control messages, which travel as files of a shared directory.
\<close>

section \<open>Bootstrap\<close>

text \<open>Sleeping takes at least the time asked for.\<close>

definition time_passes :: "'d Env \<Rightarrow> bool" where
  "time_passes E \<longleftrightarrow> (\<forall>ms h. clock_now E h + int ms \<le> clock_now E (sleep_for E ms h))"

lemma wait_for_file_returns:
  assumes "time_passes E"
  shows "\<exists>res. wait_for_file E path deadline h = Some res"
proof (induction "nat (deadline - clock_now E h)" arbitrary: h rule: less_induct)
  case less
  have "clock_now E h + int 50 \<le> clock_now E (sleep_for E 50 h)" using assms unfolding time_passes_def by blast
  then have "clock_now E h < deadline \<Longrightarrow> nat (deadline - clock_now E (sleep_for E 50 h)) < nat (deadline - clock_now E h)"
    by simp
  with less show ?case by (subst wait_for_file.simps) (auto split: option.split)
qed

text \<open>The data of a peer the transport may talk to.\<close>

definition connected_peer :: "PeerConnection \<Rightarrow> bool" where
  "connected_peer peer \<longleftrightarrow> pc_ready peer \<and> px_node_id (pc_remote peer) \<noteq> kInvalidNodeId \<and> px_qpn (pc_remote peer) \<noteq> 0"

lemma ParseExchangeInfo_valid:
  "ParseExchangeInfo text' True = Inr (Some info) \<Longrightarrow> px_node_id info \<noteq> kInvalidNodeId \<and> px_qpn info \<noteq> 0"
  by (auto simp: ParseExchangeInfo_def split: sum.splits if_splits)

lemma connect_peer_returns:
  assumes "time_passes E"
  shows "\<exists>s peer' h'. connect_peer E dir rt peer qp h = Some (s, peer', h') \<and>
    pc_node_id peer' = pc_node_id peer \<and> pc_qp peer' = pc_qp peer \<and> (s = Inr kOk \<longrightarrow> connected_peer peer')"
proof -
  obtain opened h1 where o: "ofstream_open E (path_append dir (exchange_name (cfg_node_id (rt_cfg rt)) (pc_node_id peer))) h =
      (opened, h1)" by force
  let ?h = "ofstream_put E (path_append dir (exchange_name (cfg_node_id (rt_cfg rt)) (pc_node_id peer)))
    (FormatExchangeInfo (local_info rt peer qp)) h1"
  obtain found h2 where w: "wait_for_file E (path_append dir (exchange_name (pc_node_id peer) (cfg_node_id (rt_cfg rt))))
      (clock_now E ?h + uint (cfg_rdma_bootstrap_timeout_ms (rt_cfg rt))) ?h = Some (found, h2)"
    using wait_for_file_returns [OF assms] by (metis surj_pair)
  show ?thesis
    by (auto simp: connect_peer_def o w connected_peer_def Let_def dest: ParseExchangeInfo_valid
          split: sum.split option.split bool.split prod.split)
qed

text \<open>A peer that takes part in the exchange.\<close>

definition takes_part :: "RdmaTransport \<Rightarrow> PeerConnection \<Rightarrow> bool" where
  "takes_part rt peer \<longleftrightarrow> pc_qp peer \<noteq> None \<and> pc_node_id peer \<noteq> cfg_node_id (rt_cfg rt)"

text \<open>The transport after the exchange: only the peers changed.\<close>

lemma connect_peers_returns:
  assumes E: "time_passes E" and "distinct idxs" "set idxs \<subseteq> {..< length (rt_peers rt)}"
  shows "\<exists>s peers h'. connect_peers E dir idxs rt h = Some (s, rt\<lparr>rt_peers := peers\<rparr>, h') \<and>
    length peers = length (rt_peers rt) \<and> (\<forall>i. i \<notin> set idxs \<longrightarrow> peers ! i = rt_peers rt ! i) \<and>
    (s = Inr kOk \<longrightarrow> (\<forall>i \<in> set idxs. takes_part rt (peers ! i) \<longrightarrow> connected_peer (peers ! i)))"
  using assms(2,3)
proof (induction idxs arbitrary: rt h)
  case Nil
  show ?case by (intro exI [of _ "Inr kOk"] exI [of _ "rt_peers rt"] exI [of _ h]) simp
next
  case (Cons i idxs)
  have i: "i < length (rt_peers rt)" "i \<notin> set idxs" "distinct idxs" "set idxs \<subseteq> {..< length (rt_peers rt)}"
    using Cons.prems by auto
  show ?case
  proof (cases "takes_part rt (rt_peers rt ! i)")
    case False
    then have "connect_peers E dir (i # idxs) rt h = connect_peers E dir idxs rt h"
      by (auto simp: takes_part_def Let_def split: option.split)
    moreover obtain s peers h' where rest: "connect_peers E dir idxs rt h = Some (s, rt\<lparr>rt_peers := peers\<rparr>, h')"
        "length peers = length (rt_peers rt)" "\<forall>j. j \<notin> set idxs \<longrightarrow> peers ! j = rt_peers rt ! j"
        "s = Inr kOk \<longrightarrow> (\<forall>j \<in> set idxs. takes_part rt (peers ! j) \<longrightarrow> connected_peer (peers ! j))"
      using Cons.IH [OF i(3,4), of h] by blast
    moreover have "\<not> takes_part rt (peers ! i)" using False rest(3) i(2) by simp
    ultimately show ?thesis by (intro exI [of _ s] exI [of _ peers] exI [of _ h']) simp
  next
    case True
    then obtain qp where qp: "pc_qp (rt_peers rt ! i) = Some qp" "pc_node_id (rt_peers rt ! i) \<noteq> cfg_node_id (rt_cfg rt)"
      by (auto simp: takes_part_def)
    obtain s peer h1 where c: "connect_peer E dir rt (rt_peers rt ! i) qp h = Some (s, peer, h1)"
        "s = Inr kOk \<longrightarrow> connected_peer peer"
      using connect_peer_returns [OF E] by blast
    let ?rt = "rt\<lparr>rt_peers := (rt_peers rt)[i := peer]\<rparr>"
    have run: "connect_peers E dir (i # idxs) rt h =
        (if s \<noteq> Inr kOk then Some (s, ?rt, h1) else connect_peers E dir idxs ?rt h1)"
      using qp c(1) by (simp add: Let_def)
    show ?thesis
    proof (cases "s = Inr kOk")
      case False
      then show ?thesis unfolding run by (intro exI [of _ s] exI [of _ "(rt_peers rt)[i := peer]"] exI [of _ h1]) auto
    next
      case ok: True
      obtain s' peers h' where rest: "connect_peers E dir idxs ?rt h1 = Some (s', ?rt\<lparr>rt_peers := peers\<rparr>, h')"
          "length peers = length (rt_peers rt)" "\<forall>j. j \<notin> set idxs \<longrightarrow> peers ! j = (rt_peers rt)[i := peer] ! j"
          "s' = Inr kOk \<longrightarrow> (\<forall>j \<in> set idxs. takes_part ?rt (peers ! j) \<longrightarrow> connected_peer (peers ! j))"
        using Cons.IH [of ?rt h1] i by auto
      have "peers ! i = peer" using rest(3) i(1,2) by simp
      moreover have "takes_part ?rt = takes_part rt" by (simp add: takes_part_def fun_eq_iff)
      ultimately show ?thesis unfolding run
        using ok rest c(2) by (intro exI [of _ s'] exI [of _ peers] exI [of _ h']) auto
    qed
  qed
qed

text \<open>
  C14: the bootstrap ends, and when it succeeds every peer is connected. Registering the local
  region, which writes the connection data of this node for every peer and waits for theirs,
  returns for every behaviour of the device and the file system, as long as sleeping takes the time
  asked for. With status kOk every peer with a queue pair, other than the node itself, is ready and
  has parsed connection data with a node and a queue pair number, and the local region is the registered one.
\<close>

theorem bootstrap_returns:
  assumes "time_passes E"
  shows "\<exists>s out rt' h'. Rdma_RegisterMemoryRegion E rt h addr n out_ok = Some (s, out, rt', h') \<and>
    (s = Inr kOk \<longrightarrow>
       rt_local_base rt' = addr \<and> rt_local_length rt' = n \<and>
       (\<forall>peer \<in> set (rt_peers rt'). pc_qp peer \<noteq> None \<and> pc_node_id peer \<noteq> cfg_node_id (rt_cfg rt') \<longrightarrow>
          pc_ready peer \<and> px_node_id (pc_remote peer) \<noteq> kInvalidNodeId \<and> px_qpn (pc_remote peer) \<noteq> 0))"
proof -
  obtain mr h1 where reg: "ibv_reg_mr E (rt_pd rt) addr n all_access (release (ibv_dereg_mr E) (rt_local_mr rt) h) = (mr, h1)"
    by force
  show ?thesis
  proof (cases "rt_initialized rt \<and> addr \<noteq> 0 \<and> n \<noteq> 0 \<and> out_ok \<and> mr \<noteq> None")
    case False
    then show ?thesis by (auto simp: Rdma_RegisterMemoryRegion_def reg Let_def)
  next
    case True
    then obtain r where r: "mr = Some r" by blast
    let ?rt = "rt\<lparr>rt_local_mr := Some r, rt_local_base := addr, rt_local_length := n\<rparr>"
    obtain ec h2 dir where d: "\<forall>d. ResolveExchangeDir E (rt_cfg rt) h1 = Inr d \<longrightarrow> d = dir"
        "fs_create_directories E dir h1 = (ec, h2)" by (metis Inr_inject prod.collapse)
    obtain s peers h3 where c: "connect_peers E dir [0 ..< length (rt_peers rt)] ?rt h2 = Some (s, ?rt\<lparr>rt_peers := peers\<rparr>, h3)"
        "s = Inr kOk \<longrightarrow> (\<forall>i < length peers. takes_part ?rt (peers ! i) \<longrightarrow> connected_peer (peers ! i))"
    proof -
      have "set [0 ..< length (rt_peers rt)] \<subseteq> {..< length (rt_peers ?rt)}" by auto
      from connect_peers_returns [OF assms distinct_upt this, of dir h2] show thesis using that by auto
    qed
    show ?thesis
    proof (cases "ResolveExchangeDir E (rt_cfg rt) h1")
      case (Inl e)
      with True r show ?thesis by (simp add: Rdma_RegisterMemoryRegion_def reg ExchangeAndConnect_def Let_def)
    next
      case (Inr dir')
      with d(1) have "dir' = dir" by simp
      let ?out = "Some \<lparr>mr_local_addr = Some addr, mr_remote_addr = addr, mr_rkey = imr_rkey r, mr_length = n\<rparr>"
      have run: "Rdma_RegisterMemoryRegion E rt h addr n out_ok =
          (if ec then Some (Inr kInternalError, ?out, ?rt, h2) else Some (s, ?out, ?rt\<lparr>rt_peers := peers\<rparr>, h3))"
        using Inr True r \<open>dir' = dir\<close> d(2) c(1)
        by (simp add: Rdma_RegisterMemoryRegion_def reg ExchangeAndConnect_def)
      have "\<forall>peer \<in> set peers. takes_part rt peer \<longrightarrow> connected_peer peer" if "s = Inr kOk"
        using c(2) that by (auto simp: in_set_conv_nth takes_part_def)
      then show ?thesis unfolding run by (simp add: takes_part_def connected_peer_def)
    qed
  qed
qed

text \<open>A node with one peer whose connection data is already in the exchange directory.\<close>

definition boot_info :: PeerExchangeInfo where
  "boot_info = new_PeerExchangeInfo\<lparr>px_node_id := 1, px_qpn := 12, px_remote_addr := 4096, px_rkey := 9, px_length := 64\<rparr>"

definition boot_host :: sim_host where
  "boot_host = \<lparr>h_mem = (\<lambda>a. 0), h_outside = \<lparr>sim_queue = [], sim_remote = (\<lambda>q a. 0), sim_wait = 0, sim_rkey = 9,
     sim_files = [(''/x/node_1_to_0.txt'', FormatExchangeInfo boot_info)], sim_time = 0\<rparr>\<rparr>"

definition boot_rt :: RdmaTransport where
  "boot_rt = CreateRdmaTransport (default_config\<lparr>cfg_nr_nodes := 2, cfg_rdma_exchange_dir := ''/x''\<rparr>)"

lemma sim_time_passes: "time_passes sim_env"
  by (simp add: time_passes_def)

lemma boot_names: "exchange_name 0 1 = ''node_0_to_1.txt''" "exchange_name 1 0 = ''node_1_to_0.txt''"
  by code_simp+

lemma boot_init:
  "\<exists>rt. Rdma_Init sim_env boot_rt boot_host = (kOk, rt, boot_host) \<and>
     rt_initialized rt \<and> rt_cfg rt = rt_cfg boot_rt \<and> rt_local_mr rt = None \<and> length (rt_peers rt) = 2 \<and>
     pc_node_id (rt_peers rt ! 0) = 0 \<and> pc_qp (rt_peers rt ! 0) = None \<and>
     pc_node_id (rt_peers rt ! 1) = 1 \<and> pc_qp (rt_peers rt ! 1) \<noteq> None"
  by (simp add: Rdma_Init_def boot_rt_def CreateRdmaTransport_def init_on_device_def sim_env_def Let_def resize_peers_def
        CreateQueuePair_def new_PeerConnection_def default_config_def upt_rec)

lemma boot_parses: "ParseExchangeInfo (FormatExchangeInfo boot_info) True = Inr (Some boot_info)"
  by (rule printed_info_parses) (simp_all add: boot_info_def new_PeerExchangeInfo_def kInvalidNodeId_def)

theorem bootstrap_returns_witness:
  "\<exists>rt s out rt' h'. Rdma_Init sim_env boot_rt boot_host = (kOk, rt, boot_host) \<and>
     Rdma_RegisterMemoryRegion sim_env rt boot_host 65536 64 True = Some (s, out, rt', h') \<and>
     s = Inr kOk \<and> length (rt_peers rt') = 2 \<and> pc_ready (rt_peers rt' ! 1) \<and> rt_local_base rt' = 65536"
proof -
  obtain rt where rt: "Rdma_Init sim_env boot_rt boot_host = (kOk, rt, boot_host)" "rt_initialized rt"
      "rt_cfg rt = rt_cfg boot_rt" "rt_local_mr rt = None" "length (rt_peers rt) = 2" "pc_node_id (rt_peers rt ! 0) = 0"
      "pc_qp (rt_peers rt ! 0) = None" "pc_node_id (rt_peers rt ! 1) = 1" "pc_qp (rt_peers rt ! 1) \<noteq> None"
    using boot_init by blast
  then obtain qp where qp: "pc_qp (rt_peers rt ! 1) = Some qp" by blast
  have cfg: "cfg_node_id (rt_cfg rt) = 0" "cfg_rdma_exchange_dir (rt_cfg rt) = ''/x''"
    by (simp_all add: rt(3) boot_rt_def CreateRdmaTransport_def default_config_def)
  have "\<exists>out rt' h'. Rdma_RegisterMemoryRegion sim_env rt boot_host 65536 64 True = Some (Inr kOk, out, rt', h') \<and>
      length (rt_peers rt') = 2 \<and> pc_qp (rt_peers rt' ! 1) \<noteq> None \<and> pc_node_id (rt_peers rt' ! 1) = 1 \<and> cfg_node_id (rt_cfg rt') = 0"
    using rt(2,4-) qp
    by (simp add: Rdma_RegisterMemoryRegion_def release_def ExchangeAndConnect_def ResolveExchangeDir_def cfg
          upt_rec connect_peer_def boot_names path_append_def boot_host_def wait_for_file.simps boot_parses
          TransitionQueuePair_def Let_def sim_env_def)
  then obtain out rt' h' where run: "Rdma_RegisterMemoryRegion sim_env rt boot_host 65536 64 True = Some (Inr kOk, out, rt', h')"
      "length (rt_peers rt') = 2" "pc_qp (rt_peers rt' ! 1) \<noteq> None" "pc_node_id (rt_peers rt' ! 1) = 1" "cfg_node_id (rt_cfg rt') = 0"
    by blast
  have "rt_peers rt' ! 1 \<in> set (rt_peers rt')" using run(2) by simp
  with bootstrap_returns [OF sim_time_passes, of rt boot_host 65536 64 True] run
  have "pc_ready (rt_peers rt' ! 1)" "rt_local_base rt' = 65536" by auto
  with rt(1) run(1,2) show ?thesis by blast
qed

end
