(* ===== verification/Rdma_Control.thy ===== *)
theory Rdma_Control
  imports Rdma_Fabric
begin

text \<open>
  Control messages of the verbs transport: every message is a file of the control directory, named
  after target, source and a sequence number; a node drains the files addressed to it in the order
  of their names.
\<close>

section \<open>Files\<close>

text \<open>
  A working file system, seen through the contents \<open>C\<close> of its regular files: directories can be
  made, files opened, written, read and removed, and a scan lists each file of the directory once.
\<close>

definition file_system :: "'d Env \<Rightarrow> ('d Host \<Rightarrow> string \<rightharpoonup> string) \<Rightarrow> bool" where
  "file_system E C \<longleftrightarrow>
     (\<forall>dir h. \<not> fst (fs_create_directories E dir h) \<and> C (snd (fs_create_directories E dir h)) = C h) \<and>
     (\<forall>path h. fst (ofstream_open E path h) \<and> C (snd (ofstream_open E path h)) = (C h)(path \<mapsto> [])) \<and>
     (\<forall>path text' h. C (ofstream_put E path text' h) = (C h)(path \<mapsto> text')) \<and>
     (\<forall>path h. ifstream_read E path h = C h path) \<and>
     (\<forall>path h. C (fs_remove E path h) = (C h)(path := None)) \<and>
     (\<forall>dir h. \<exists>es. fs_scan E dir h = Entries es \<and> distinct (map fst es) \<and>
        (\<forall>name. (name, True) \<in> set es \<longleftrightarrow> plain_name name \<and> path_append dir name \<in> dom (C h)))"

lemma file_system_laws:
  assumes "file_system E C"
  shows "\<exists>h'. fs_create_directories E dir h = (False, h') \<and> C h' = C h"
    "\<exists>h'. ofstream_open E path h = (True, h') \<and> C h' = (C h)(path \<mapsto> [])"
    "C (ofstream_put E path text' h) = (C h)(path \<mapsto> text')"
    "ifstream_read E path h = C h path"
    "C (fs_remove E path h) = (C h)(path := None)"
    "\<exists>es. fs_scan E dir h = Entries es \<and> distinct (map fst es) \<and>
        (\<forall>name. (name, True) \<in> set es \<longleftrightarrow> plain_name name \<and> path_append dir name \<in> dom (C h))"
proof -
  have "\<not> fst (fs_create_directories E dir h) \<and> C (snd (fs_create_directories E dir h)) = C h"
    using assms unfolding file_system_def by blast
  then show "\<exists>h'. fs_create_directories E dir h = (False, h') \<and> C h' = C h"
    by (cases "fs_create_directories E dir h") simp
  have "fst (ofstream_open E path h) \<and> C (snd (ofstream_open E path h)) = (C h)(path \<mapsto> [])"
    using assms unfolding file_system_def by blast
  then show "\<exists>h'. ofstream_open E path h = (True, h') \<and> C h' = (C h)(path \<mapsto> [])"
    by (cases "ofstream_open E path h") simp
qed (use assms in \<open>unfold file_system_def, blast\<close>)+

lemma path_append_inj:
  "plain_name a \<Longrightarrow> plain_name b \<Longrightarrow> path_append dir a = path_append dir b \<longleftrightarrow> a = b"
  by (cases a; cases b) (auto simp: path_append_def plain_name_def)

section \<open>Names\<close>

lemma print_word_digits: "c \<in> set (print_word w) \<Longrightarrow> is_digit c"
  by (auto simp: print_word_def dest: dec_digits_set)

lemma no_slash_print: "CHR ''/'' \<notin> set (print_word w)"
  using print_word_digits by (fastforce simp: is_digit_def)

lemma plain_control_name: "plain_name (control_name target source seq)"
  by (simp add: plain_name_def control_name_def inbox_prefix_def no_slash_print)

lemma control_name_prefix: "take (length (inbox_prefix target)) (control_name target source seq) = inbox_prefix target"
  by (simp add: control_name_def)

text \<open>The prefix of a node is no prefix of a message for another node.\<close>

lemma print_word_inj: "print_word (v :: 'a::len word) = print_word w \<longleftrightarrow> v = w"
proof
  assume "print_word v = print_word w"
  then have "digits_val (dec_digits (uint v)) = digits_val (dec_digits (uint w))" by (simp add: print_word_def)
  then show "v = w" by (simp add: word_uint_eq_iff)
qed simp

lemma underscore_split:
  "CHR ''_'' \<notin> set a \<Longrightarrow> CHR ''_'' \<notin> set b \<Longrightarrow> a @ CHR ''_'' # xs = b @ CHR ''_'' # ys \<longleftrightarrow> a = b \<and> xs = ys"
proof (induction a arbitrary: b)
  case Nil
  then show ?case by (cases b) auto
next
  case (Cons c a)
  then show ?case by (cases b) auto
qed

lemma no_underscore_print: "CHR ''_'' \<notin> set (print_word w)"
  using print_word_digits by (fastforce simp: is_digit_def)

lemma inbox_prefix_own:
  "take (length (inbox_prefix node)) (control_name target source seq) = inbox_prefix node \<longleftrightarrow> node = target"
proof
  assume eq: "take (length (inbox_prefix node)) (control_name target source seq) = inbox_prefix node"
  then obtain rest where "control_name target source seq = inbox_prefix node @ rest" by (metis append_take_drop_id)
  then have "print_word target @ CHR ''_'' # (''from_'' @ print_word source @ ''_'' @ print_word seq @ ''.txt'') =
      print_word node @ CHR ''_'' # rest"
    by (simp add: control_name_def inbox_prefix_def)
  then show "node = target" by (simp add: underscore_split no_underscore_print print_word_inj)
qed (simp add: control_name_prefix)

section \<open>Draining\<close>

lemma restrict_everywhere: "f |` UNIV = f"
  by (simp add: restrict_map_def)

text \<open>Files that hold printed messages are drained in order, up to the limit, and removed.\<close>

lemma drain_files_printed:
  assumes E: "file_system E C"
    and "distinct names" "\<forall>name \<in> set names. plain_name name \<and> printable (m name) \<and>
      C h (path_append dir name) = Some (FormatControlMessage (m name))"
  shows "\<exists>h'. drain_files E dir limit names msgs h =
      (Inr kOk, msgs @ map m (take (limit - length msgs) names), h') \<and>
    C h' = C h |` (- path_append dir ` set (take (limit - length msgs) names))"
  using assms(2,3)
proof (induction names arbitrary: msgs h)
  case (Cons name names)
  show ?case
  proof (cases "limit \<le> length msgs")
    case False
    let ?p = "path_append dir name"
    have name: "plain_name name" "printable (m name)" "C h ?p = Some (FormatControlMessage (m name))"
      using Cons.prems(2) by simp_all
    have rm: "C (fs_remove E ?p h) = (C h)(?p := None)" by (rule file_system_laws(5) [OF E])
    have "C (fs_remove E ?p h) (path_append dir x) = Some (FormatControlMessage (m x))" if "x \<in> set names" for x
      using Cons.prems that name(1) path_append_inj [of x name dir] unfolding rm by auto
    then have keep: "\<forall>x \<in> set names. plain_name x \<and> printable (m x) \<and>
        C (fs_remove E ?p h) (path_append dir x) = Some (FormatControlMessage (m x))"
      using Cons.prems(2) by simp
    have step: "drain_files E dir limit (name # names) msgs h =
        drain_files E dir limit names (msgs @ [m name]) (fs_remove E ?p h)"
      using False by (simp add: file_system_laws(4) [OF E] name(3) ControlMessage_roundtrip [OF name(2)])
    have tk: "limit - length msgs = Suc (limit - length (msgs @ [m name]))" using False by simp
    obtain h' where "drain_files E dir limit names (msgs @ [m name]) (fs_remove E ?p h) =
          (Inr kOk, (msgs @ [m name]) @ map m (take (limit - length (msgs @ [m name])) names), h')"
        "C h' = C (fs_remove E ?p h) |` (- path_append dir ` set (take (limit - length (msgs @ [m name])) names))"
      using Cons.IH [OF _ keep, of "msgs @ [m name]"] Cons.prems(1) by auto
    then show ?thesis unfolding step tk rm by (auto simp: restrict_map_def fun_eq_iff)
  qed (simp add: restrict_everywhere)
qed (simp add: restrict_everywhere)

lemma inbox_files_laws:
  assumes "distinct (map fst es)"
  shows "distinct (inbox_files node es)" "sorted (inbox_files node es)"
    "set (inbox_files node es) =
      {name. (name, True) \<in> set es \<and> take (length (inbox_prefix node)) name = inbox_prefix node}"
proof -
  have "distinct (map fst (filter P es))" for P using assms by (induction es) auto
  then show "distinct (inbox_files node es)" by (simp add: inbox_files_def)
  show "sorted (inbox_files node es)" by (simp add: inbox_files_def)
  show "set (inbox_files node es) =
      {name. (name, True) \<in> set es \<and> take (length (inbox_prefix node)) name = inbox_prefix node}"
    by (force simp: inbox_files_def)
qed

text \<open>The names of the files addressed to a node.\<close>

definition inbox :: "('d Host \<Rightarrow> string \<rightharpoonup> string) \<Rightarrow> 'd Host \<Rightarrow> string \<Rightarrow> NodeId \<Rightarrow> string set" where
  "inbox C h dir node = {name. plain_name name \<and> path_append dir name \<in> dom (C h) \<and>
     take (length (inbox_prefix node)) name = inbox_prefix node}"

lemma drain_printed:
  assumes E: "file_system E C" and rt: "rt_initialized rt" "cfg_rdma_enable_control_path (rt_cfg rt)"
    and dir: "control_dir E rt h = Inr dir"
    and box: "\<forall>name \<in> inbox C h dir (cfg_node_id (rt_cfg rt)). printable (m name) \<and>
      C h (path_append dir name) = Some (FormatControlMessage (m name))"
  shows "\<exists>names h'. sorted names \<and> distinct names \<and> set names = inbox C h dir (cfg_node_id (rt_cfg rt)) \<and>
    Rdma_DrainControlMessages E rt h k True = (Inr kOk, Some (map m (take (unat (max 1 k)) names)), h') \<and>
    C h' = C h |` (- path_append dir ` set (take (unat (max 1 k)) names))"
proof -
  obtain h1 where mk: "fs_create_directories E dir h = (False, h1)" "C h1 = C h" using file_system_laws(1) [OF E] by blast
  obtain es where scan: "fs_scan E dir h1 = Entries es" "distinct (map fst es)"
      "\<forall>name. (name, True) \<in> set es \<longleftrightarrow> plain_name name \<and> path_append dir name \<in> dom (C h1)"
    using file_system_laws(6) [OF E] by blast
  let ?names = "inbox_files (cfg_node_id (rt_cfg rt)) es"
  note names = inbox_files_laws [OF scan(2), of "cfg_node_id (rt_cfg rt)"]
  have set: "set ?names = inbox C h dir (cfg_node_id (rt_cfg rt))" using names(3) scan(3) mk(2) by (auto simp: inbox_def)
  have "\<forall>name \<in> set ?names. plain_name name \<and> printable (m name) \<and>
      C h1 (path_append dir name) = Some (FormatControlMessage (m name))"
    using box set mk(2) by (auto simp: inbox_def)
  from drain_files_printed [OF E names(1) this, of "unat (max 1 k)" "[]"] obtain h' where
      "drain_files E dir (unat (max 1 k)) ?names [] h1 = (Inr kOk, map m (take (unat (max 1 k)) ?names), h')"
      "C h' = C h1 |` (- path_append dir ` set (take (unat (max 1 k)) ?names))" by auto
  with rt dir mk scan(1) names(1,2) set show ?thesis
    by (intro exI [of _ ?names] exI [of _ h']) (simp add: Rdma_DrainControlMessages_def)
qed

text \<open>The directory both ends use when it is configured.\<close>

lemma control_dir_configured:
  "cfg_rdma_exchange_dir (rt_cfg rt) \<noteq> [] \<Longrightarrow>
   control_dir E rt h = Inr (path_append (cfg_rdma_exchange_dir (rt_cfg rt)) ''control'')"
  by (simp add: control_dir_def ResolveExchangeDir_def)

lemma post_writes:
  assumes E: "file_system E C" and rt: "cfg_rdma_enable_control_path (rt_cfg rt)" "cfg_rdma_exchange_dir (rt_cfg rt) = d" "d \<noteq> []"
    and peer: "GetPeer rt (cmsg_target_node msg) = Some peer" "pc_ready peer"
  shows "\<exists>h'. Rdma_PostControlMessage E rt h msg = (Inr kOk, rt\<lparr>rt_control_sequence := rt_control_sequence rt + 1\<rparr>, h') \<and>
    C h' = (C h)(path_append (path_append d ''control'')
      (control_name (cmsg_target_node msg) (cmsg_source_node msg) (rt_control_sequence rt + 1)) \<mapsto> FormatControlMessage msg)"
proof -
  let ?dir = "path_append d ''control''"
  let ?path = "path_append ?dir (control_name (cmsg_target_node msg) (cmsg_source_node msg) (rt_control_sequence rt + 1))"
  have dir: "control_dir E rt h = Inr ?dir" using rt(2,3) by (simp add: control_dir_configured)
  obtain h1 where mk: "fs_create_directories E ?dir h = (False, h1)" "C h1 = C h" using file_system_laws(1) [OF E] by blast
  obtain h2 where op: "ofstream_open E ?path h1 = (True, h2)" "C h2 = (C h1)(?path \<mapsto> [])" using file_system_laws(2) [OF E] by blast
  have "Rdma_PostControlMessage E rt h msg = (Inr kOk, rt\<lparr>rt_control_sequence := rt_control_sequence rt + 1\<rparr>,
      ofstream_put E ?path (FormatControlMessage msg) h2)"
    using rt(1) peer by (simp add: Rdma_PostControlMessage_def WriteControlMessageFile_def dir mk(1) op(1) Let_def)
  moreover have "C (ofstream_put E ?path (FormatControlMessage msg) h2) = (C h)(?path \<mapsto> FormatControlMessage msg)"
    using mk(2) op(2) by (simp add: file_system_laws(3) [OF E])
  ultimately show ?thesis by blast
qed

lemma inbox_after_post:
  assumes "C h' = (C h)(path_append dir (control_name target source seq) \<mapsto> text')"
  shows "inbox C h' dir node =
    (if node = target then insert (control_name target source seq) (inbox C h dir node) else inbox C h dir node)"
  using assms plain_control_name [of target source seq] path_append_inj [of _ "control_name target source seq" dir]
    inbox_prefix_own [of node target source seq]
  by (auto simp: inbox_def)

lemma singleton_list: "distinct xs \<Longrightarrow> set xs = {x} \<Longrightarrow> xs = [x]"
  by (cases xs; cases "tl xs") auto

lemma limit_pos: "0 < unat (max 1 k :: u64)"
proof -
  have "(1 :: u64) \<le> max 1 k" by simp
  then show ?thesis unfolding word_le_nat_alt by simp
qed

section \<open>Properties\<close>

text \<open>
  C15: a posted control message is delivered once. On a working file system, with the same
  exchange directory configured on both nodes and an empty inbox, a message posted to a connected
  peer is what the peer drains next, every field as it was sent, whatever the limit of the drain; its file
  is removed and all other files are as before the message was posted.
\<close>

theorem control_post_drain:
  assumes "file_system E C" "printable msg"
    and "cfg_rdma_enable_control_path (rt_cfg sender)" "cfg_rdma_exchange_dir (rt_cfg sender) = d" "d \<noteq> []"
    and "GetPeer sender (cmsg_target_node msg) = Some peer" "pc_ready peer"
    and "rt_initialized receiver" "cfg_rdma_enable_control_path (rt_cfg receiver)"
    and "cfg_rdma_exchange_dir (rt_cfg receiver) = d" "cfg_node_id (rt_cfg receiver) = cmsg_target_node msg"
    and empty: "inbox C h (path_append d ''control'') (cmsg_target_node msg) = {}"
  shows "\<exists>sender' h1 h2. Rdma_PostControlMessage E sender h msg = (Inr kOk, sender', h1) \<and>
    Rdma_DrainControlMessages E receiver h1 k True = (Inr kOk, Some [msg], h2) \<and> C h2 = C h"
proof -
  let ?dir = "path_append d ''control''"
  let ?name = "control_name (cmsg_target_node msg) (cmsg_source_node msg) (rt_control_sequence sender + 1)"
  obtain h1 where post: "Rdma_PostControlMessage E sender h msg =
        (Inr kOk, sender\<lparr>rt_control_sequence := rt_control_sequence sender + 1\<rparr>, h1)"
      "C h1 = (C h)(path_append ?dir ?name \<mapsto> FormatControlMessage msg)"
    using post_writes [OF assms(1,3-7)] by blast
  have box: "inbox C h1 ?dir (cfg_node_id (rt_cfg receiver)) = {?name}"
    using inbox_after_post [OF post(2), of "cmsg_target_node msg"] empty assms(11) by simp
  have "control_dir E receiver h1 = Inr ?dir" using assms(5,10) control_dir_configured [of receiver] by simp
  from drain_printed [OF assms(1,8,9) this, of "\<lambda>_. msg" k] obtain names h2 where run:
      "distinct names" "set names = {?name}"
      "Rdma_DrainControlMessages E receiver h1 k True = (Inr kOk, Some (map (\<lambda>_. msg) (take (unat (max 1 k)) names)), h2)"
      "C h2 = C h1 |` (- path_append ?dir ` set (take (unat (max 1 k)) names))"
    using box post(2) assms(2) by auto
  have names: "names = [?name]" using run(1,2) by (rule singleton_list)
  have "take (unat (max 1 k)) names = [?name]" unfolding names using limit_pos [of k] by (cases "unat (max 1 k)") auto
  moreover have "C h (path_append ?dir ?name) = None"
    using empty plain_control_name control_name_prefix by (force simp: inbox_def)
  ultimately show ?thesis using post run(3,4) by (auto simp: restrict_map_def fun_eq_iff)
qed

text \<open>The simulated file system works.\<close>

lemma path_append_plain: "plain_name name \<Longrightarrow> path_append dir name = path_append dir [] @ name"
  by (cases name) (auto simp: path_append_def plain_name_def)

lemma strip_prefix: "name \<in> drop (length p) ` {x \<in> A. take (length p) x = p} \<longleftrightarrow> p @ name \<in> A"
proof
  assume "name \<in> drop (length p) ` {x \<in> A. take (length p) x = p}"
  then obtain x where "x \<in> A" "take (length p) x = p" "name = drop (length p) x" by blast
  then show "p @ name \<in> A" by (metis append_take_drop_id)
next
  assume "p @ name \<in> A"
  then show "name \<in> drop (length p) ` {x \<in> A. take (length p) x = p}" by (intro image_eqI [of _ _ "p @ name"]) simp_all
qed

lemma sim_scan_law:
  "\<exists>es. fs_scan sim_env dir h = Entries es \<and> distinct (map fst es) \<and>
     (\<forall>name. (name, True) \<in> set es \<longleftrightarrow> plain_name name \<and> path_append dir name \<in> dom (map_of (sim_files (h_outside h))))"
proof -
  let ?prefix = "path_append dir []" and ?paths = "map fst (sim_files (h_outside h))"
  let ?names = "remdups (filter plain_name (map (drop (length ?prefix)) (filter (\<lambda>path. take (length ?prefix) path = ?prefix) ?paths)))"
  have "set ?names = {name \<in> drop (length ?prefix) ` {x \<in> set ?paths. take (length ?prefix) x = ?prefix}. plain_name name}"
    by auto
  then have "name \<in> set ?names \<longleftrightarrow> plain_name name \<and> path_append dir name \<in> dom (map_of (sim_files (h_outside h)))" for name
    unfolding dom_map_of_conv_image_fst strip_prefix by (simp only: mem_Collect_eq strip_prefix set_map) (metis path_append_plain)
  then show ?thesis
    by (intro exI [of _ "map (\<lambda>name. (name, True)) ?names"]) (auto simp: sim_scan_def Let_def o_def)
qed

lemma sim_file_system: "file_system sim_env (\<lambda>h. map_of (sim_files (h_outside h)))"
  unfolding file_system_def
  using sim_scan_law by (auto simp: update_conv' delete_conv')

text \<open>Two connected nodes that have sent eight messages each, and an empty file system.\<close>

definition ctl_rt :: "NodeId \<Rightarrow> RdmaTransport" where
  "ctl_rt node = (CreateRdmaTransport (default_config\<lparr>cfg_node_id := node, cfg_nr_nodes := 2, cfg_rdma_exchange_dir := ''/x''\<rparr>))
     \<lparr>rt_initialized := True, rt_control_sequence := 8,
      rt_peers := [new_PeerConnection\<lparr>pc_node_id := 0, pc_ready := True\<rparr>, new_PeerConnection\<lparr>pc_node_id := 1, pc_ready := True\<rparr>]\<rparr>"

definition ctl_host :: sim_host where
  "ctl_host = \<lparr>h_mem = (\<lambda>a. 0), h_outside = \<lparr>sim_queue = [], sim_remote = (\<lambda>q a. 0), sim_wait = 0, sim_rkey = 9,
     sim_files = [], sim_time = 0\<rparr>\<rparr>"

definition ctl_msg :: "u64 \<Rightarrow> ControlMessage" where
  "ctl_msg i = new_ControlMessage\<lparr>cmsg_source_node := 0, cmsg_target_node := 1, cmsg_request_id := i\<rparr>"

abbreviation sim_contents :: "sim_host \<Rightarrow> string \<rightharpoonup> string" where
  "sim_contents h \<equiv> map_of (sim_files (h_outside h))"

lemma ctl_rt_sel [simp]:
  "rt_initialized (ctl_rt node)" "cfg_rdma_enable_control_path (rt_cfg (ctl_rt node))"
  "cfg_rdma_exchange_dir (rt_cfg (ctl_rt node)) = ''/x''" "cfg_node_id (rt_cfg (ctl_rt node)) = node"
  "rt_control_sequence (ctl_rt node) = 8"
  by (simp_all add: ctl_rt_def CreateRdmaTransport_def default_config_def)

lemma ctl_peer: "\<exists>peer. GetPeer (ctl_rt node) 1 = Some peer \<and> pc_ready peer"
  by (simp add: GetPeer_def ctl_rt_def)

lemma ctl_msg_sel [simp]: "printable (ctl_msg i)" "cmsg_target_node (ctl_msg i) = 1" "cmsg_source_node (ctl_msg i) = 0"
  by (simp_all add: ctl_msg_def new_ControlMessage_def printable_def kInvalidNodeId_def)

lemma ctl_empty: "inbox sim_contents ctl_host dir node = {}"
  by (simp add: inbox_def ctl_host_def)

theorem control_post_drain_witness:
  "\<exists>sender' h1 h2. Rdma_PostControlMessage sim_env (ctl_rt 0) ctl_host (ctl_msg 5) = (Inr kOk, sender', h1) \<and>
     Rdma_DrainControlMessages sim_env (ctl_rt 1) h1 0 True = (Inr kOk, Some [ctl_msg 5], h2) \<and>
     sim_contents h2 = sim_contents ctl_host"
proof -
  obtain peer where "GetPeer (ctl_rt 0) 1 = Some peer" "pc_ready peer" using ctl_peer by blast
  then show ?thesis
    by (intro control_post_drain [OF sim_file_system, of "ctl_msg 5" "ctl_rt 0" "''/x''" peer "ctl_rt 1"])
       (simp_all add: ctl_empty)
qed

text \<open>
  C37: the tenth message of a node overtakes its ninth. The sequence number is printed in decimal
  without padding and the inbox is sorted by file name, so the file of message 10 comes before that
  of message 9: of two messages posted one after the other the second is drained first.
\<close>

theorem control_messages_reordered:
  "\<exists>s1 h1 s2 h2 h3. Rdma_PostControlMessage sim_env (ctl_rt 0) ctl_host (ctl_msg 9) = (Inr kOk, s1, h1) \<and>
     Rdma_PostControlMessage sim_env s1 h1 (ctl_msg 10) = (Inr kOk, s2, h2) \<and>
     Rdma_DrainControlMessages sim_env (ctl_rt 1) h2 16 True = (Inr kOk, Some [ctl_msg 10, ctl_msg 9], h3)"
proof -
  let ?dir = "path_append ''/x'' ''control''" and ?s1 = "(ctl_rt 0)\<lparr>rt_control_sequence := 9\<rparr>"
  let ?n9 = "control_name 1 0 9" and ?n10 = "control_name 1 0 10"
  let ?m = "\<lambda>name. if name = ?n9 then ctl_msg 9 else ctl_msg 10"
  obtain peer where peer: "GetPeer (ctl_rt 0) 1 = Some peer" "pc_ready peer" using ctl_peer by blast
  obtain h1 where p1: "Rdma_PostControlMessage sim_env (ctl_rt 0) ctl_host (ctl_msg 9) = (Inr kOk, ?s1, h1)"
      "sim_contents h1 = (sim_contents ctl_host)(path_append ?dir ?n9 \<mapsto> FormatControlMessage (ctl_msg 9))"
    using post_writes [OF sim_file_system, of "ctl_rt 0" "''/x''" "ctl_msg 9" peer ctl_host] peer by auto
  have "GetPeer ?s1 1 = GetPeer (ctl_rt 0) 1" by (simp add: GetPeer_def)
  with peer(1) have "GetPeer ?s1 1 = Some peer" by simp
  then obtain s2 h2 where p2: "Rdma_PostControlMessage sim_env ?s1 h1 (ctl_msg 10) = (Inr kOk, s2, h2)"
      "sim_contents h2 = (sim_contents h1)(path_append ?dir ?n10 \<mapsto> FormatControlMessage (ctl_msg 10))"
    using post_writes [OF sim_file_system, of ?s1 "''/x''" "ctl_msg 10" peer h1] peer(2) by auto
  have order: "sorted [?n10, ?n9]" "?n10 \<noteq> ?n9" by code_simp+
  have box: "inbox sim_contents h2 ?dir 1 = {?n9, ?n10}"
    using inbox_after_post [of sim_contents h2 h1, OF p2(2), of 1]
      inbox_after_post [of sim_contents h1 ctl_host, OF p1(2), of 1] ctl_empty by auto
  have "\<forall>name \<in> inbox sim_contents h2 ?dir (cfg_node_id (rt_cfg (ctl_rt 1))).
      printable (?m name) \<and> sim_contents h2 (path_append ?dir name) = Some (FormatControlMessage (?m name))"
    using order(2) p1(2) p2(2) path_append_inj [OF plain_control_name plain_control_name, of ?dir 1 0 10 1 0 9]
    by (simp add: box)
  from drain_printed [OF sim_file_system _ _ _ this, of 16] obtain names h3 where run: "sorted names" "distinct names"
      "set names = {?n9, ?n10}" "Rdma_DrainControlMessages sim_env (ctl_rt 1) h2 16 True = (Inr kOk, Some (map ?m (take 16 names)), h3)"
    by (auto simp: control_dir_configured box)
  have "names = [?n10, ?n9]"
    using run(1,2,3) order by (intro sorted_distinct_set_unique) auto
  then have "map ?m (take 16 names) = [ctl_msg 10, ctl_msg 9]" using order(2) by simp
  with run(4) have "Rdma_DrainControlMessages sim_env (ctl_rt 1) h2 16 True = (Inr kOk, Some [ctl_msg 10, ctl_msg 9], h3)"
    by (simp only:)
  with p1(1) p2(1) show ?thesis by (intro exI conjI)
qed

end
