(* ===== verification/Spec2Isabelle.thy ===== *)
theory Spec2Isabelle
  imports Api_Anomalies Profile_Window Logging Config_Loader Rdma_Data_Path Rdma_Bootstrap Rdma_Control
begin

text \<open>
  A verification development of LeoMem, a prototype of a distributed shared memory in C++. Paths
  below are relative to the directory of the sources in the repository.

  \<^bold>\<open>The program.\<close> A process links the library and calls
  \<^verbatim>\<open>lm_init\<close>, \<^verbatim>\<open>lm_malloc\<close>, \<^verbatim>\<open>lm_read\<close>, \<^verbatim>\<open>lm_write\<close>, \<^verbatim>\<open>lm_fence\<close>,
  \<^verbatim>\<open>lm_barrier\<close> and \<^verbatim>\<open>lm_shutdown\<close> (\<^verbatim>\<open>src/api\<close>). The calls work on the one
  \<^verbatim>\<open>RuntimeContext\<close> (\<^verbatim>\<open>src/runtime\<close>), which owns an allocator for the local region
  (\<^verbatim>\<open>src/memory/global\<close>), a cache manager with the read cache, the queues of delayed remote
  writes and the access profile (\<^verbatim>\<open>src/memory/cache\<close>), a table of block metadata
  (\<^verbatim>\<open>src/metadata\<close>), counters (\<^verbatim>\<open>src/stats\<close>), the control acknowledgements it waits
  for, and a transport (\<^verbatim>\<open>src/transport\<close>): a stub that simulates the other nodes in the
  process, or one over RDMA verbs.

  \<^bold>\<open>Conventions.\<close> A class is a record, an operation a function from the state to the result and
  the new state, in the order of the code. Integers keep their width as words. A result of type
  option is \<^term>\<open>None\<close> where the C++ execution has no defined result: a
  \<^verbatim>\<open>memcpy\<close> outside a region, or a loop that never ends. Statuses are values inside
  \<^term>\<open>Some\<close>; an exception is the left side of a sum. A \<^verbatim>\<open>shared_ptr\<close> to the
  metadata of a block is the key of the block, an \<^verbatim>\<open>unordered_map\<close> is an association
  list in iteration order, a \<^verbatim>\<open>double\<close> is a rational rounded to binary64.

  \<^bold>\<open>Theories and sources.\<close>
  \<^item> Prelude: words, byte regions, the inclusive index loop
    (\<^verbatim>\<open>for (i = first; i <= last; ++i)\<close>), invariants of step relations. Binary64: rounding.
    Leo_Types: \<^verbatim>\<open>include/leomem\<close>. Block_Table: \<^verbatim>\<open>src/metadata\<close>.
    Stats_Counters: \<^verbatim>\<open>src/stats\<close>.
  \<^item> Dsm_Allocator: \<^verbatim>\<open>dsm_allocator.cc\<close> and \<^verbatim>\<open>utils.cc\<close>. Allocations tile the used
    part of the region; a returned range is fresh and accepted by validation; validation and block
    resolution are exact; requests near \<open>2\<^sup>64\<close> break the bump pointer.
  \<^item> Cache_State, Cache_Profile, Read_Cache, Write_Queue: \<^verbatim>\<open>cache_manager.cc\<close>. The read
    cache keeps its invariant, hits exactly covered requests, evicts in order of use and is
    transparent under range invalidation, while invalidation by key leaves overlapping entries; merging writes keeps their effect; queueing is exact up to the
    bytes of later entries. Profile_Window: the counters of a profiling window and the mode they decide.
  \<^item> Global_Memory, Fenced_Memory: the abstract memory of all nodes, and as locales the contracts of
    a cache over it, of a component that behaves like it, and of one that delays writes until a fence.
  \<^item> Runtime_State, Transport_Stub, Runtime_Context: \<^verbatim>\<open>transport.h\<close>,
    \<^verbatim>\<open>transport_stub.cc\<close>, the \<^verbatim>\<open>#else\<close> class of \<^verbatim>\<open>rdma_transport.cc\<close>,
    \<^verbatim>\<open>context.cc\<close>. The stub implements a byte memory; the retry and timeout budget
    of an acknowledgement is exact; the outcomes of Init and Shutdown.
  \<^item> Control_Path, Access_Api, Sync_Api: \<^verbatim>\<open>access_api.cc\<close>, \<^verbatim>\<open>sync_api.cc\<close>,
    \<^verbatim>\<open>alloc_api.cc\<close>, \<^verbatim>\<open>admin_api.cc\<close>.
  \<^item> Api_Invariant: the step relation of the public calls, its invariant, and that calls never
    time out. Api_Access: what every access shares. Api_Refinement: with one other node the memory
    of a process is its regions after the queued writes; every call keeps the cached copies equal
    to it. Api_Memory: programs that fence between writing and reading a remote object see one flat
    memory in every configuration, programs that write through need no fences, a fence delivers
    what was queued, and allocated memory holds what is written. Api_Anomalies: the node an
    owner-aware read reads from, and runs of the full program that leave that specification: a
    third node, overlapping objects, rewriting touching objects before a fence.
  \<^item> Text_Codec, Wire_Format, Config_Loader: \<^verbatim>\<open>std::sto*\<close> and \<^verbatim>\<open>getline\<close> as the
    code uses them, the text formats of \<^verbatim>\<open>rdma_transport.cc\<close>, \<^verbatim>\<open>config_loader.cc\<close>,
    \<^verbatim>\<open>init.cc\<close>: messages and configurations written out are read back. Logging: \<^verbatim>\<open>log.cc\<close>, one line per message.
  \<^item> Rdma_Env, Rdma_Transport: the verbs class of \<^verbatim>\<open>rdma_transport.cc\<close>. What is not in the
    repository (libibverbs, file system, clock) is a record of functions over the host, an argument
    of every operation. Rdma_Fabric: the predicate \<^const>\<open>reliable\<close>, the documented behaviour of
    reliable connections, and a simulated environment that satisfies it. Rdma_Data_Path: under
    it, waiting for completions ends, batches apply in order, reads return what was written; a batch
    that stops early leaves its requests in flight, and two runs show what the next calls make of
    that and of a failed completion. Rdma_Bootstrap: the
    exchange of connection data ends and connects every peer. Rdma_Control: control messages as files,
    under the predicate \<^const>\<open>file_system\<close>.

  \<^bold>\<open>Interfaces.\<close> The locales \<open>read_through_cache\<close>, \<open>byte_memory\<close>, \<open>fenced_memory\<close>,
  \<open>memory_transport\<close>, \<open>write_buffer\<close> and \<open>invariant_system\<close> state what one part promises
  another, and are interpreted on the read cache, a node that writes through, any node with one
  peer, the stub transport, the remote write queue and the public calls.

  \<^bold>\<open>Bounds.\<close> No fuel is used. The index loop, the wait for completions and the wait for a file are
  partial functions; that they return is proved where it holds (the last index is not
  \<open>2\<^sup>64 - 1\<close>; completions arrive; time passes). The data path of verbs is shown for requests below
  \<open>2\<^sup>32\<close> bytes and fewer than \<open>2\<^sup>31\<close> requests in a batch, the widths the code converts to.
  The deadline of the bootstrap and the integers of a configuration are unbounded here, where the code
  has 64 and 32 bits.

  \<^bold>\<open>Not modelled.\<close> Mutexes and threads: one call runs at a time, and other nodes act on the host
  only inside the calls of the environment. The standard error stream is not part of the state of
  a process: nothing reads it back. Benchmarks, tests and scripts: drivers of the public
  calls. The files under \<^verbatim>\<open>build\<close>: generated by CMake. Allocation failure of the C++ heap. In the
  verbs class two expressions do not compile; they are read as their evident intent.
\<close>

end
